(* ===== verification/Fusefs_Prelude.thy ===== *)
theory Fusefs_Prelude
  imports Main "HOL-Library.Word" "HOL-Library.Finite_Map"
begin

text \<open>
  Shared vocabulary of the development: names for the machine types of the Go code, the
  constants of \<^verbatim>\<open>syscall\<close> and \<^verbatim>\<open>os\<close> the code uses (their linux/amd64 values), the
  named collections of definitions each component contributes to, generic facts on finite maps
  and words, and the locale of systems that are driven by a list of operations.
\<close>

unbundle bit_operations_syntax

section \<open>Machine types\<close>

type_synonym uint64 = "64 word"
type_synonym uint32 = "32 word"

text \<open>Signed integers are words read through \<open>sint\<close>: conversions between \<^verbatim>\<open>int64\<close> and
  \<^verbatim>\<open>uint64\<close> keep the bits, as Go's do.\<close>

type_synonym int64 = "64 word"
type_synonym int32 = "32 word"
type_synonym bytes = "8 word list"

text \<open>\<^verbatim>\<open>syscall.Errno\<close> is a \<^verbatim>\<open>uintptr\<close>; 0 means success.\<close>

type_synonym errno = "64 word"

section \<open>Constants of the standard library\<close>

abbreviation (input) OK :: errno where "OK \<equiv> 0"
abbreviation (input) EPERM :: errno where "EPERM \<equiv> 1"
abbreviation (input) ENOENT :: errno where "ENOENT \<equiv> 2"
abbreviation (input) EIO :: errno where "EIO \<equiv> 5"
abbreviation (input) EBADF :: errno where "EBADF \<equiv> 9"
abbreviation (input) EAGAIN :: errno where "EAGAIN \<equiv> 11"
abbreviation (input) EWOULDBLOCK :: errno where "EWOULDBLOCK \<equiv> 11"
abbreviation (input) EACCES :: errno where "EACCES \<equiv> 13"
abbreviation (input) EEXIST :: errno where "EEXIST \<equiv> 17"
abbreviation (input) EINVAL :: errno where "EINVAL \<equiv> 22"
abbreviation (input) ENOSPC :: errno where "ENOSPC \<equiv> 28"
abbreviation (input) ENOTEMPTY :: errno where "ENOTEMPTY \<equiv> 39"
abbreviation (input) ENOTSUP :: errno where "ENOTSUP \<equiv> 95"
abbreviation (input) ENOTCONN :: errno where "ENOTCONN \<equiv> 107"

abbreviation (input) F_RDLCK :: uint32 where "F_RDLCK \<equiv> 0"
abbreviation (input) F_WRLCK :: uint32 where "F_WRLCK \<equiv> 1"
abbreviation (input) F_UNLCK :: uint32 where "F_UNLCK \<equiv> 2"

abbreviation (input) LOCK_SH :: uint32 where "LOCK_SH \<equiv> 1"
abbreviation (input) LOCK_EX :: uint32 where "LOCK_EX \<equiv> 2"
abbreviation (input) LOCK_NB :: uint32 where "LOCK_NB \<equiv> 4"
abbreviation (input) LOCK_UN :: uint32 where "LOCK_UN \<equiv> 8"

section \<open>Named collections\<close>

named_theorems world_defs \<open>access to the shared state of the handlers\<close>
named_theorems handler_defs \<open>the handlers\<close>

section \<open>Finite maps\<close>

lemma fmdrop_absent: "fmlookup m k = None \<Longrightarrow> fmdrop k m = m"
  by (rule fmap_ext) auto

lemma fmupd_same: "fmlookup m k = Some v \<Longrightarrow> fmupd k v m = m"
  by (rule fmap_ext) auto

lemma fcard_fmdom_drop:
  "k |\<in>| fmdom m \<Longrightarrow> fcard (fmdom (fmdrop k m)) = fcard (fmdom m) - 1"
  by (simp add: fcard_fminus_fsingleton)

lemma fcard_fmdom_upd_new:
  "k |\<notin>| fmdom m \<Longrightarrow> fcard (fmdom (fmupd k v m)) = Suc (fcard (fmdom m))"
  by (simp add: fcard_finsert_disjoint)

section \<open>Words\<close>

lemma unat_Suc_no_wrap:
  "unat (x :: uint64) < 2 ^ 64 - 1 \<Longrightarrow> unat (x + 1) = Suc (unat x)"
  by (subst unat_word_ariths(1)) simp

lemma max_uint64: "(0xFFFFFFFFFFFFFFFF :: uint64) = - 1"
  by simp

section \<open>Systems driven by operations\<close>

text \<open>
  Every manager of the program is a state that only its own methods change, and each method
  holds the manager's mutex for its whole body, so a concurrent execution is some sequence of
  whole operations. The locale states what an invariant of such a system is and lifts it to
  every sequence.
\<close>

locale op_system =
  fixes step :: "'op \<Rightarrow> 's \<Rightarrow> 's"
    and init :: 's
    and inv :: "'s \<Rightarrow> bool"
  assumes inv_init: "inv init"
    and inv_step: "inv s \<Longrightarrow> inv (step op s)"
begin

lemma inv_fold: "inv s \<Longrightarrow> inv (fold step ops s)"
  by (induction ops arbitrary: s) (auto intro: inv_step)

lemma inv_run: "inv (fold step ops init)"
  by (rule inv_fold) (rule inv_init)

end

text \<open>
  The two managers that number things keep a 64-bit counter, so what they promise holds up to a
  number of operations. \<open>inv n s\<close> is the invariant after \<open>n\<close> operations; \<open>live\<close> are the numbers
  in use and \<open>last\<close> is the counter.
\<close>

locale fresh_ids =
  fixes step :: "'op \<Rightarrow> 's \<Rightarrow> 's"
    and init :: 's
    and inv :: "nat \<Rightarrow> 's \<Rightarrow> bool"
    and limit :: nat
    and live :: "'s \<Rightarrow> uint64 set"
    and last :: "'s \<Rightarrow> nat"
  assumes inv_init: "inv 0 init"
    and inv_step: "inv n s \<Longrightarrow> n < limit \<Longrightarrow> inv (Suc n) (step op s)"
    and live_last: "inv n s \<Longrightarrow> i \<in> live s \<Longrightarrow> unat i \<le> last s"
    and last_step: "inv n s \<Longrightarrow> n < limit \<Longrightarrow> last s \<le> last (step op s)"
    and live_step: "inv n s \<Longrightarrow> n < limit \<Longrightarrow> i \<in> live (step op s) \<Longrightarrow> i \<in> live s \<or> last s < unat i"
begin

lemma inv_fold: "inv n s \<Longrightarrow> n + length ops \<le> limit \<Longrightarrow> inv (n + length ops) (fold step ops s)"
proof (induction ops arbitrary: n s)
  case Nil
  then show ?case by simp
next
  case (Cons op ops)
  then show ?case using Cons.IH [of "Suc n" "step op s"] by (simp add: inv_step)
qed

lemma inv_run: "length ops \<le> limit \<Longrightarrow> inv (length ops) (fold step ops init)"
  using inv_fold [OF inv_init, of ops] by simp

lemma dead_stays_dead:
  assumes "inv n s" and "n + length ops \<le> limit" and "i \<notin> live s" and "unat i \<le> last s"
  shows "i \<notin> live (fold step ops s)"
  using assms
proof (induction ops arbitrary: n s)
  case Nil
  then show ?case by simp
next
  case (Cons op ops)
  have "i \<notin> live (step op s)"
    using Cons.prems live_step [of n s i op] by auto
  moreover have "unat i \<le> last (step op s)"
    using Cons.prems last_step [of n s op] by simp
  ultimately show ?case
    using Cons.IH [of "Suc n" "step op s"] Cons.prems inv_step by simp
qed

lemma never_reused:
  assumes "length (ops1 @ ops2 @ ops3) \<le> limit"
    and "i \<in> live (fold step ops1 init)" and "i \<notin> live (fold step (ops1 @ ops2) init)"
  shows "i \<notin> live (fold step (ops1 @ ops2 @ ops3) init)"
proof -
  let ?s = "fold step ops1 init" and ?t = "fold step (ops1 @ ops2) init"
  have inv1: "inv (length ops1) ?s" and inv2: "inv (length (ops1 @ ops2)) ?t"
    using assms(1) inv_run [of ops1] inv_run [of "ops1 @ ops2"] by simp_all
  have "last s \<le> last (fold step ops s)" if "inv n s" "n + length ops \<le> limit" for n s ops
    using that
  proof (induction ops arbitrary: n s)
    case (Cons op ops)
    then have "last (step op s) \<le> last (fold step ops (step op s))"
      using Cons.IH [of "Suc n" "step op s"] inv_step [of n s op] by simp
    with Cons.prems last_step [of n s op] show ?case by simp
  qed simp
  from this [OF inv1, of ops2] assms(1) live_last [OF inv1 assms(2)] have "unat i \<le> last ?t" by simp
  with dead_stays_dead [OF inv2, of ops3 i] assms(1,3) show ?thesis by simp
qed

end

end
