(* ===== verification/Buffer_Pool.thy ===== *)
theory Buffer_Pool
  imports Fusefs_Prelude "HOL-Library.Multiset"
begin

text \<open>
  The buffer pool of \<^verbatim>\<open>pool.go\<close>: four \<^verbatim>\<open>sync.Pool\<close>s, one per size class. A slice is a window into a
  backing array, named by a number; \<open>next_array\<close> is the next number the allocator gives. \<^verbatim>\<open>sync.Pool\<close>
  promises nothing about which pooled item \<^verbatim>\<open>Get\<close> returns, or whether it returns one at all, so
  the choice is an argument: \<open>Some j\<close> for the item at \<open>j\<close>, \<open>None\<close> (or an index out of range) for a
  call of \<^verbatim>\<open>New\<close>. A result \<open>None\<close> is a run-time panic.
\<close>

section \<open>State and operations\<close>

record slice =
  sl_array :: nat
  sl_off :: nat
  sl_len :: nat
  sl_cap :: nat

record bufferPool =
  pools :: "slice list list"
  sizes :: "int list"
  next_array :: nat

definition newBufferPool :: bufferPool where
  "newBufferPool =
     (let sizes = [4 * 1024, 64 * 1024, 128 * 1024, 1024 * 1024]
      in \<lparr>pools = map (\<lambda>_. []) sizes, sizes = sizes, next_array = 0\<rparr>)"

text \<open>\<^verbatim>\<open>make([]byte, n)\<close>, and \<^verbatim>\<open>buf[:n]\<close>, which may extend a slice up to its capacity.\<close>

definition make_slice :: "int \<Rightarrow> bufferPool \<Rightarrow> slice option \<times> bufferPool" where
  "make_slice n p =
     (if n < 0 then (None, p)
      else (Some \<lparr>sl_array = next_array p, sl_off = 0, sl_len = nat n, sl_cap = nat n\<rparr>,
            p\<lparr>next_array := next_array p + 1\<rparr>))"

definition reslice :: "slice \<Rightarrow> int \<Rightarrow> slice option" where
  "reslice buf n = (if 0 \<le> n \<and> n \<le> int (sl_cap buf) then Some (buf\<lparr>sl_len := nat n\<rparr>) else None)"

text \<open>\<^verbatim>\<open>sync.Pool.Get\<close> and \<^verbatim>\<open>sync.Pool.Put\<close> on the pool at index \<open>i\<close>.\<close>

definition sync_Get :: "nat option \<Rightarrow> nat \<Rightarrow> bufferPool \<Rightarrow> slice option \<times> bufferPool" where
  "sync_Get choice i p =
     (case choice of
        Some j \<Rightarrow>
          if j < length (pools p ! i)
          then (Some (pools p ! i ! j),
                p\<lparr>pools := (pools p)[i := take j (pools p ! i) @ drop (Suc j) (pools p ! i)]\<rparr>)
          else make_slice (sizes p ! i) p
      | None \<Rightarrow> make_slice (sizes p ! i) p)"

definition sync_Put :: "nat \<Rightarrow> slice \<Rightarrow> bufferPool \<Rightarrow> bufferPool" where
  "sync_Put i buf p = p\<lparr>pools := (pools p)[i := buf # pools p ! i]\<rparr>"

fun pool_Get_loop :: "nat option \<Rightarrow> int \<Rightarrow> nat \<Rightarrow> int list \<Rightarrow> bufferPool \<Rightarrow> slice option \<times> bufferPool" where
  "pool_Get_loop choice sz i [] p = make_slice sz p"
| "pool_Get_loop choice sz i (poolSize # rest) p =
     (if sz \<le> poolSize then
        (case sync_Get choice i p of
           (None, p) \<Rightarrow> (None, p)
         | (Some buf, p) \<Rightarrow> (reslice buf sz, p))
      else pool_Get_loop choice sz (Suc i) rest p)"

definition pool_Get :: "nat option \<Rightarrow> int \<Rightarrow> bufferPool \<Rightarrow> slice option \<times> bufferPool" where
  "pool_Get choice sz p = pool_Get_loop choice sz 0 (sizes p) p"

fun pool_Put_loop :: "slice \<Rightarrow> nat \<Rightarrow> int list \<Rightarrow> bufferPool \<Rightarrow> bufferPool" where
  "pool_Put_loop buf i [] p = p"
| "pool_Put_loop buf i (sz # rest) p =
     (if int (sl_cap buf) = sz then sync_Put i (buf\<lparr>sl_len := sl_cap buf\<rparr>) p
      else pool_Put_loop buf (Suc i) rest p)"

definition pool_Put :: "slice \<Rightarrow> bufferPool \<Rightarrow> bufferPool" where
  "pool_Put buf p = pool_Put_loop buf 0 (sizes p) p"

text \<open>The shared pool: \<^verbatim>\<open>GetBuffer\<close> and \<^verbatim>\<open>PutBuffer\<close> act on a pool that starts as
  \<open>globalBufferPool\<close>.\<close>

definition globalBufferPool :: bufferPool where "globalBufferPool = newBufferPool"

definition GetBuffer :: "nat option \<Rightarrow> int \<Rightarrow> bufferPool \<Rightarrow> slice option \<times> bufferPool" where
  "GetBuffer choice sz global = pool_Get choice sz global"

definition PutBuffer :: "slice \<Rightarrow> bufferPool \<Rightarrow> bufferPool" where
  "PutBuffer buf global = pool_Put buf global"

section \<open>The pool in use\<close>

text \<open>
  A client holds the slices it got and has not yet put back. It may put back any slice it holds
  (by its position in \<open>held\<close>), and any slice whatever that it made itself (\<open>UseForeign\<close>); the
  latter come with arrays of their own.
\<close>

datatype pool_use =
    UseGet "nat option" int
  | UsePut nat
  | UseForeign nat nat

fun pool_step :: "pool_use \<Rightarrow> bufferPool \<times> slice list \<Rightarrow> bufferPool \<times> slice list" where
  "pool_step (UseGet choice sz) (p, held) =
     (case GetBuffer choice sz p of
        (None, p) \<Rightarrow> (p, held)
      | (Some buf, p) \<Rightarrow> (p, buf # held))"
| "pool_step (UsePut k) (p, held) =
     (if k < length held then (PutBuffer (held ! k) p, take k held @ drop (Suc k) held) else (p, held))"
| "pool_step (UseForeign len c) (p, held) =
     (PutBuffer \<lparr>sl_array = next_array p, sl_off = 0, sl_len = min len c, sl_cap = c\<rparr>
        (p\<lparr>next_array := next_array p + 1\<rparr>), held)"

definition pool_run :: "pool_use list \<Rightarrow> bufferPool \<times> slice list" where
  "pool_run uses = fold pool_step uses (globalBufferPool, [])"

section \<open>The invariant\<close>

definition classes :: "int list" where "classes = [4096, 65536, 131072, 1048576]"

text \<open>Every pooled slice is a whole buffer of its class.\<close>

definition pool_wf :: "bufferPool \<Rightarrow> bool" where
  "pool_wf p \<longleftrightarrow> sizes p = classes \<and> length (pools p) = 4 \<and>
     (\<forall>i < 4. \<forall>buf \<in> set (pools p ! i). int (sl_cap buf) = classes ! i \<and> sl_len buf = sl_cap buf)"

text \<open>The arrays behind the pooled and the held slices, with multiplicity.\<close>

definition arrays :: "bufferPool \<times> slice list \<Rightarrow> nat multiset" where
  "arrays s = mset (map sl_array (concat (pools (fst s)))) + mset (map sl_array (snd s))"

definition exclusive :: "bufferPool \<times> slice list \<Rightarrow> bool" where
  "exclusive s \<longleftrightarrow> (\<forall>a. count (arrays s) a \<le> 1) \<and> (\<forall>a \<in># arrays s. a < next_array (fst s))"

definition pool_inv :: "bufferPool \<times> slice list \<Rightarrow> bool" where
  "pool_inv s \<longleftrightarrow> pool_wf (fst s) \<and> exclusive s"

definition class_of :: "int \<Rightarrow> nat option" where
  "class_of n = (if n \<le> 4096 then Some 0 else if n \<le> 65536 then Some 1 else if n \<le> 131072 then Some 2
     else if n \<le> 1048576 then Some 3 else None)"

lemma class_of_bound: "class_of n = Some i \<Longrightarrow> i < 4 \<and> n \<le> classes ! i"
  by (auto simp: class_of_def classes_def split: if_splits)

lemma pool_Get_class:
  assumes "pool_wf p"
  shows "pool_Get choice n p = (case class_of n of
     Some i \<Rightarrow> (case sync_Get choice i p of (None, p) \<Rightarrow> (None, p) | (Some buf, p) \<Rightarrow> (reslice buf n, p))
   | None \<Rightarrow> make_slice n p)"
  using assms by (simp add: pool_Get_def pool_wf_def classes_def class_of_def eval_nat_numeral)

lemma classes_pos: "i < 4 \<Longrightarrow> 0 < classes ! i"
  by (auto simp: classes_def less_Suc_eq eval_nat_numeral)

lemma count_le_1_distinct: "(\<And>a. count (mset xs) a \<le> 1) \<Longrightarrow> distinct xs"
proof (induction xs)
  case (Cons x xs)
  from Cons.prems [of x] have "x \<notin> set xs" by (auto simp: count_eq_zero_iff)
  moreover have "count (mset xs) a \<le> 1" for a
    by (rule order_trans [OF _ Cons.prems [of a]]) simp
  ultimately show ?case using Cons.IH by simp
qed simp

lemma mset_take_out: "k < length xs \<Longrightarrow> mset xs = add_mset (xs ! k) (mset (take k xs @ drop (Suc k) xs))"
proof -
  assume "k < length xs"
  then have "mset xs = mset (take k xs @ xs ! k # drop (Suc k) xs)" by (simp only: id_take_nth_drop [symmetric])
  then show ?thesis by simp
qed

lemma concat_update:
  "i < length xss \<Longrightarrow> mset (concat (xss[i := ys])) + mset (xss ! i) = mset (concat xss) + mset ys"
proof (induction xss arbitrary: i)
  case (Cons xs xss)
  then show ?case by (cases i) (auto simp: ac_simps)
qed simp

lemma arrays_update:
  assumes "i < length (pools p)"
  shows "mset (map sl_array (concat ((pools p)[i := ys]))) + mset (map sl_array (pools p ! i)) =
    mset (map sl_array (concat (pools p))) + mset (map sl_array ys)"
  using arg_cong [OF concat_update [OF assms, of ys], of "image_mset sl_array"] by simp

text \<open>What one \<^verbatim>\<open>sync.Pool.Get\<close> does: a whole buffer of the class, taken out of the pool or new.\<close>

lemma sync_Get_facts:
  assumes wf: "pool_wf p" and i: "i < 4"
  obtains buf p' where "sync_Get choice i p = (Some buf, p')" and "pool_wf p'"
    and "int (sl_cap buf) = classes ! i"
    and "arrays (p', held) + {#sl_array buf#} = arrays (p, held) \<and> next_array p' = next_array p \<or>
         arrays (p', held) = arrays (p, held) \<and> sl_array buf = next_array p \<and> next_array p' = Suc (next_array p)"
proof -
  note result = that
  have len: "i < length (pools p)" and sz: "sizes p ! i = classes ! i"
    using wf i by (simp_all add: pool_wf_def)
  have new: thesis if "sync_Get choice i p = make_slice (classes ! i) p"
    using that [unfolded make_slice_def] classes_pos [OF i] wf
    by (intro result [of "\<lparr>sl_array = next_array p, sl_off = 0, sl_len = nat (classes ! i), sl_cap = nat (classes ! i)\<rparr>"
          "p\<lparr>next_array := next_array p + 1\<rparr>"]) (auto simp: pool_wf_def arrays_def)
  show thesis
  proof (cases "\<exists>j. choice = Some j \<and> j < length (pools p ! i)")
    case False
    then have "sync_Get choice i p = make_slice (classes ! i) p"
      by (auto simp: sync_Get_def sz split: option.split)
    then show ?thesis by (rule new)
  next
    case True
    then obtain j where j: "choice = Some j" "j < length (pools p ! i)" by blast
    let ?xs = "pools p ! i"
    let ?p = "p\<lparr>pools := (pools p)[i := take j ?xs @ drop (Suc j) ?xs]\<rparr>"
    have split: "mset (map sl_array ?xs) =
        mset (map sl_array (take j ?xs @ drop (Suc j) ?xs)) + {#sl_array (?xs ! j)#}"
      using arg_cong [OF mset_take_out [OF j(2)], of "image_mset sl_array"] by simp
    have "set (take j ?xs @ drop (Suc j) ?xs) \<subseteq> set ?xs"
      using set_take_subset [of j ?xs] set_drop_subset [of "Suc j" ?xs] by auto
    with wf i have "pool_wf ?p" by (auto simp: pool_wf_def nth_list_update)
    moreover have "arrays (?p, held) + {#sl_array (?xs ! j)#} = arrays (p, held)"
      using arrays_update [OF len, of "take j ?xs @ drop (Suc j) ?xs"] split by (simp add: arrays_def)
    moreover have "int (sl_cap (?xs ! j)) = classes ! i" using wf i j(2) by (simp add: pool_wf_def)
    ultimately show ?thesis using j by (intro result [of "?xs ! j" ?p]) (simp_all add: sync_Get_def)
  qed
qed

text \<open>What one \<^verbatim>\<open>Put\<close> does: the buffer goes to the pool of its capacity, or nowhere.\<close>

lemma pool_Put_class:
  assumes "pool_wf p"
  shows "pool_Put buf p = (if int (sl_cap buf) \<in> set classes
     then sync_Put (the (class_of (int (sl_cap buf)))) (buf\<lparr>sl_len := sl_cap buf\<rparr>) p else p)"
  using assms by (auto simp: pool_Put_def pool_wf_def classes_def class_of_def numeral_2_eq_2 numeral_3_eq_3)

lemma less_4_cases: "(i :: nat) < 4 \<longleftrightarrow> i = 0 \<or> i = 1 \<or> i = 2 \<or> i = 3"
  by auto

lemma class_of_exact: "n \<in> set classes \<Longrightarrow> \<exists>i < 4. class_of n = Some i \<and> classes ! i = n"
proof -
  assume "n \<in> set classes"
  then have "n = 4096 \<or> n = 65536 \<or> n = 131072 \<or> n = 1048576" by (simp add: classes_def)
  then show ?thesis
  proof (elim disjE)
    assume "n = 4096"
    then show ?thesis by (intro exI [of _ 0]) (simp add: classes_def class_of_def)
  next
    assume "n = 65536"
    then show ?thesis by (intro exI [of _ 1]) (simp add: classes_def class_of_def)
  next
    assume "n = 131072"
    then show ?thesis by (intro exI [of _ 2]) (simp add: classes_def class_of_def)
  next
    assume "n = 1048576"
    then show ?thesis by (intro exI [of _ 3]) (simp add: classes_def class_of_def)
  qed
qed

lemma pool_Put_facts:
  assumes wf: "pool_wf p"
  shows "pool_wf (pool_Put buf p) \<and> next_array (pool_Put buf p) = next_array p \<and>
    arrays (pool_Put buf p, held) \<subseteq># arrays (p, held) + {#sl_array buf#}"
proof (cases "int (sl_cap buf) \<in> set classes")
  case False
  with wf show ?thesis by (simp add: pool_Put_class)
next
  case True
  then obtain i where i: "i < 4" "class_of (int (sl_cap buf)) = Some i" "classes ! i = int (sl_cap buf)"
    using class_of_exact by blast
  let ?buf = "buf\<lparr>sl_len := sl_cap buf\<rparr>"
  have put: "pool_Put buf p = sync_Put i ?buf p" using pool_Put_class [OF wf, of buf] True i(2) by simp
  have len: "i < length (pools p)" using wf i(1) by (simp add: pool_wf_def)
  have "arrays (sync_Put i ?buf p, held) = arrays (p, held) + {#sl_array buf#}"
    using arrays_update [OF len, of "?buf # pools p ! i"] by (simp add: arrays_def sync_Put_def)
  moreover have "pool_wf (sync_Put i ?buf p)"
    using wf i(1,3) by (auto simp: pool_wf_def sync_Put_def nth_list_update)
  ultimately show ?thesis by (simp add: put) (simp add: sync_Put_def)
qed

lemma exclusive_mono:
  assumes "exclusive s" and "arrays t \<subseteq># arrays s" and "next_array (fst s) \<le> next_array (fst t)"
  shows "exclusive t"
  using assms mset_subset_eq_count [OF assms(2)] mset_subset_eqD [OF assms(2)]
  unfolding exclusive_def by (meson le_trans less_le_trans)

lemma exclusive_fresh:
  assumes "exclusive s" and "arrays t = add_mset (next_array (fst s)) (arrays s)"
    and "next_array (fst t) = Suc (next_array (fst s))"
  shows "exclusive t"
proof -
  have "next_array (fst s) \<notin># arrays s" using assms(1) by (auto simp: exclusive_def)
  then have "count (arrays s) (next_array (fst s)) = 0" by (simp add: not_in_iff)
  with assms show ?thesis by (auto simp: exclusive_def less_Suc_eq)
qed

lemma arrays_held: "arrays (p, buf # held) = add_mset (sl_array buf) (arrays (p, held))"
  by (simp add: arrays_def)

lemma pool_inv_take:
  assumes inv: "pool_inv (p, held)" and wf: "pool_wf p'"
    and acc: "arrays (p', held) + {#a#} = arrays (p, held) \<and> next_array p' = next_array p \<or>
      arrays (p', held) = arrays (p, held) \<and> a = next_array p \<and> next_array p' = Suc (next_array p)"
  shows "pool_inv (p', held)" and "sl_array buf = a \<Longrightarrow> pool_inv (p', buf # held)"
proof -
  note ex = inv [unfolded pool_inv_def fst_conv, THEN conjunct2]
  show "pool_inv (p', held)"
    using acc wf exclusive_mono [OF ex, of "(p', held)"] by (auto simp: pool_inv_def dest!: sym [of "add_mset a _"])
  show "pool_inv (p', buf # held)" if "sl_array buf = a"
    using acc
  proof
    assume "arrays (p', held) + {#a#} = arrays (p, held) \<and> next_array p' = next_array p"
    with that wf exclusive_mono [OF ex, of "(p', buf # held)"] show ?thesis by (simp add: pool_inv_def arrays_held)
  next
    assume "arrays (p', held) = arrays (p, held) \<and> a = next_array p \<and> next_array p' = Suc (next_array p)"
    with that wf exclusive_fresh [OF ex, of "(p', buf # held)"] show ?thesis by (simp add: pool_inv_def arrays_held)
  qed
qed

lemma pool_inv_Get:
  assumes inv: "pool_inv (p, held)"
  shows "pool_inv (pool_step (UseGet choice n) (p, held))"
proof -
  have wf: "pool_wf p" using inv by (simp add: pool_inv_def)
  show ?thesis
  proof (cases "class_of n")
    case None
    then have pos: "\<not> n < 0" by (auto simp: class_of_def split: if_splits)
    let ?buf = "\<lparr>sl_array = next_array p, sl_off = 0, sl_len = nat n, sl_cap = nat n\<rparr>"
    let ?p = "p\<lparr>next_array := next_array p + 1\<rparr>"
    have "pool_wf ?p" using wf by (simp add: pool_wf_def)
    then have "pool_inv (?p, ?buf # held)"
      by (rule pool_inv_take(2) [OF inv, where a = "next_array p"]) (simp_all add: arrays_def)
    with None pos wf show ?thesis by (simp add: GetBuffer_def pool_Get_class make_slice_def)
  next
    case (Some i)
    then have i: "i < 4" using class_of_bound by blast
    obtain buf p' where get: "sync_Get choice i p = (Some buf, p')" "pool_wf p'" "int (sl_cap buf) = classes ! i"
        "arrays (p', held) + {#sl_array buf#} = arrays (p, held) \<and> next_array p' = next_array p \<or>
         arrays (p', held) = arrays (p, held) \<and> sl_array buf = next_array p \<and> next_array p' = Suc (next_array p)"
      by (rule sync_Get_facts [OF wf i])
    note kept = pool_inv_take [OF inv get(2,4)]
    from Some get(1) kept(1) kept(2) [of "buf\<lparr>sl_len := nat n\<rparr>"] wf show ?thesis
      by (simp add: GetBuffer_def pool_Get_class reslice_def)
  qed
qed

lemma pool_inv_Put:
  assumes "pool_inv (p, held)"
  shows "pool_inv (pool_step (UsePut k) (p, held))"
proof (cases "k < length held")
  case False
  with assms show ?thesis by simp
next
  case True
  let ?held = "take k held @ drop (Suc k) held"
  have wf: "pool_wf p" and ex: "exclusive (p, held)" using assms by (simp_all add: pool_inv_def)
  have "arrays (p, held) = arrays (p, ?held) + {#sl_array (held ! k)#}"
    using arg_cong [OF mset_take_out [OF True], of "image_mset sl_array"] by (simp add: arrays_def)
  with pool_Put_facts [OF wf, of "held ! k" ?held] exclusive_mono [OF ex, of "(pool_Put (held ! k) p, ?held)"] True
  show ?thesis by (simp add: pool_inv_def PutBuffer_def)
qed

lemma pool_inv_Foreign:
  assumes "pool_inv (p, held)"
  shows "pool_inv (pool_step (UseForeign len c) (p, held))"
proof -
  let ?buf = "\<lparr>sl_array = next_array p, sl_off = 0, sl_len = min len c, sl_cap = c\<rparr>"
  let ?p = "p\<lparr>next_array := next_array p + 1\<rparr>"
  have wf: "pool_wf ?p" and ex: "exclusive (p, held)" using assms by (simp_all add: pool_inv_def pool_wf_def)
  have "exclusive (?p, ?buf # held)"
    by (rule exclusive_fresh [OF ex]) (simp_all add: arrays_def)
  from exclusive_mono [OF this, of "(pool_Put ?buf ?p, held)"] pool_Put_facts [OF wf, of ?buf held]
  show ?thesis by (simp add: pool_inv_def PutBuffer_def arrays_held)
qed

interpretation pool: op_system pool_step "(globalBufferPool, [])" pool_inv
proof
  show "pool_inv (globalBufferPool, [])"
    by (auto simp: pool_inv_def pool_wf_def exclusive_def arrays_def globalBufferPool_def newBufferPool_def
        classes_def Let_def less_4_cases)
next
  fix s :: "bufferPool \<times> slice list" and u :: pool_use
  assume "pool_inv s"
  then show "pool_inv (pool_step u s)"
    by (cases s; cases u) (simp_all only: pool_inv_Get pool_inv_Put pool_inv_Foreign)
qed

lemma pool_run_inv: "pool_inv (pool_run uses)"
  unfolding pool_run_def by (rule pool.inv_run)

section \<open>Properties\<close>

text \<open>Whatever was got and put before, and whatever a \<^verbatim>\<open>sync.Pool\<close> chooses to return, \<^verbatim>\<open>GetBuffer(n)\<close>
  panics exactly for a negative \<open>n\<close>, and otherwise returns a slice of length \<open>n\<close> whose capacity is the
  smallest size class that holds \<open>n\<close> (exactly \<open>n\<close> above the largest).\<close>

theorem GetBuffer_size:
  "case fst (GetBuffer choice n (fst (pool_run uses))) of
     None \<Rightarrow> n < 0
   | Some buf \<Rightarrow> 0 \<le> n \<and> int (sl_len buf) = n \<and>
       int (sl_cap buf) = (case class_of n of Some i \<Rightarrow> classes ! i | None \<Rightarrow> n)"
proof -
  have wf: "pool_wf (fst (pool_run uses))" using pool_run_inv [of uses] by (simp add: pool_inv_def)
  show ?thesis
  proof (cases "class_of n")
    case None
    then have "0 \<le> n" by (auto simp: class_of_def split: if_splits)
    with None wf show ?thesis by (simp add: GetBuffer_def pool_Get_class make_slice_def)
  next
    case (Some i)
    then have i: "i < 4" and le: "n \<le> classes ! i" using class_of_bound by blast+
    obtain buf p' where "sync_Get choice i (fst (pool_run uses)) = (Some buf, p')" "int (sl_cap buf) = classes ! i"
      using sync_Get_facts [OF wf i, of choice] by metis
    with Some le wf show ?thesis by (simp add: GetBuffer_def pool_Get_class reslice_def)
  qed
qed

text \<open>C34: no buffer is ever shared. In any sequence of gets, of puts of buffers the client holds, and of
  puts of foreign buffers, the buffers held by clients lie in pairwise different arrays, and none of
  those arrays is behind a buffer in the pool.\<close>

theorem pool_never_shares:
  "case pool_run uses of (p, held) \<Rightarrow>
     distinct (map sl_array held) \<and> set (map sl_array held) \<inter> sl_array ` set (concat (pools p)) = {}"
proof -
  obtain p held where run: "pool_run uses = (p, held)" by (cases "pool_run uses")
  have one: "count (arrays (p, held)) a \<le> 1" for a
    using pool_run_inv [of uses] by (simp add: run pool_inv_def exclusive_def)
  have "distinct (map sl_array held)"
  proof (rule count_le_1_distinct)
    show "count (mset (map sl_array held)) a \<le> 1" for a
      using one [of a] by (simp add: arrays_def)
  qed
  moreover have "a \<notin> sl_array ` set (concat (pools p))" if "a \<in> set (map sl_array held)" for a
  proof
    assume "a \<in> sl_array ` set (concat (pools p))"
    then have "0 < count (mset (map sl_array (concat (pools p)))) a" by (metis count_greater_zero_iff list.set_map set_mset_mset)
    moreover have "0 < count (mset (map sl_array held)) a" using that by (metis count_greater_zero_iff set_mset_mset)
    moreover have "count (mset (map sl_array (concat (pools p)))) a + count (mset (map sl_array held)) a \<le> 1"
      using one [of a] by (simp only: arrays_def fst_conv snd_conv count_union)
    ultimately show False by linarith
  qed
  ultimately show ?thesis by (auto simp: run)
qed

end
