(* ===== verification/Mount_Options.thy ===== *)
theory Mount_Options
  imports Fusefs_Prelude
begin

text \<open>The mount options of \<^verbatim>\<open>options.go\<close>. A \<^verbatim>\<open>time.Duration\<close> is a number of nanoseconds.\<close>

record MountOptions =
  Mountpoint :: string
  ReadOnly :: bool
  AllowOther :: bool
  AllowRoot :: bool
  DefaultPermissions :: bool
  UID :: uint32
  GID :: uint32
  DirectIO :: bool
  MaxReadahead :: uint32
  MaxWrite :: uint32
  AsyncRead :: bool
  AttrTimeout :: int
  EntryTimeout :: int
  FSName :: string
  Options :: "string list"
  Debug :: bool
  AttrCacheTTL :: int
  DirCacheTTL :: int
  MaxCachedInodes :: int
  MaxCachedDirs :: int

definition time_Second :: int where "time_Second = 1000000000"

definition DefaultMountOptions :: "string \<Rightarrow> MountOptions" where
  "DefaultMountOptions mountpoint = \<lparr>
     Mountpoint = mountpoint,
     ReadOnly = False,
     AllowOther = False,
     AllowRoot = False,
     DefaultPermissions = True,
     UID = 0,
     GID = 0,
     DirectIO = False,
     MaxReadahead = 128 * 1024,
     MaxWrite = 128 * 1024,
     AsyncRead = True,
     AttrTimeout = 1 * time_Second,
     EntryTimeout = 1 * time_Second,
     FSName = ''fusefs'',
     Options = [],
     Debug = False,
     AttrCacheTTL = 5 * time_Second,
     DirCacheTTL = 5 * time_Second,
     MaxCachedInodes = 10000,
     MaxCachedDirs = 1000\<rparr>"

end
