(* ===== verification/Go_Path.thy ===== *)
theory Go_Path
  imports Fusefs_Prelude
begin

text \<open>
  \<^verbatim>\<open>path.Clean\<close> and \<^verbatim>\<open>path.Join\<close> of the Go standard library, which build the path of every node, and
  the path mapping of the example backend \<^verbatim>\<open>examples/basic/osfs.go\<close>. \<open>abs_path\<close> prints a list of
  components as an absolute path; the lemmas show that joining to a clean absolute path acts on
  that list as expected.
\<close>

section \<open>Splitting and joining\<close>

fun split_slash :: "string \<Rightarrow> string list" where
  "split_slash [] = [[]]"
| "split_slash (c # cs) =
     (if c = CHR ''/'' then [] # split_slash cs
      else (case split_slash cs of [] \<Rightarrow> [[c]] | w # ws \<Rightarrow> (c # w) # ws))"

fun join_slash :: "string list \<Rightarrow> string" where
  "join_slash [] = []"
| "join_slash [w] = w"
| "join_slash (w # ws) = w @ CHR ''/'' # join_slash ws"

text \<open>The loop of \<^verbatim>\<open>path.Clean\<close> over the components; the output so far is kept in reverse.\<close>

fun clean_walk :: "bool \<Rightarrow> string list \<Rightarrow> string list \<Rightarrow> string list" where
  "clean_walk rooted out [] = rev out"
| "clean_walk rooted out (w # ws) =
     (if w = [] \<or> w = ''.'' then clean_walk rooted out ws
      else if w = ''..'' then
        (case out of
           [] \<Rightarrow> clean_walk rooted (if rooted then [] else [''..'']) ws
         | v # vs \<Rightarrow> clean_walk rooted (if v = ''..'' then w # out else vs) ws)
      else clean_walk rooted (w # out) ws)"

definition path_Clean :: "string \<Rightarrow> string" where
  "path_Clean p =
     (if p = [] then ''.''
      else let rooted = hd p = CHR ''/'';
               s = join_slash (clean_walk rooted [] (split_slash p))
           in if rooted then CHR ''/'' # s else if s = [] then ''.'' else s)"

definition path_Join :: "string \<Rightarrow> string \<Rightarrow> string" where
  "path_Join a b =
     (if a = [] \<and> b = [] then []
      else path_Clean (if a = [] then b else a @ CHR ''/'' # b))"

text \<open>\<^verbatim>\<open>filepath.Join\<close> on any number of elements: the empty ones in front are dropped, the others joined
  and cleaned.\<close>

definition filepath_Join :: "string list \<Rightarrow> string" where
  "filepath_Join elem =
     (let elem = dropWhile (\<lambda>e. e = []) elem in if elem = [] then [] else path_Clean (join_slash elem))"

text \<open>\<^verbatim>\<open>filepath.Dir\<close>: the path up to and with its last slash, cleaned.\<close>

definition path_Dir :: "string \<Rightarrow> string" where
  "path_Dir p = path_Clean (rev (dropWhile (\<lambda>c. c \<noteq> CHR ''/'') (rev p)))"

text \<open>\<^verbatim>\<open>osFS.path\<close>: where the example backend keeps the file of a given path.\<close>

definition osFS_path :: "string \<Rightarrow> string \<Rightarrow> string" where
  "osFS_path root name =
     (if root = '''' \<or> root = ''/'' then name
      else if name = ''/'' then root
      else root @ name)"

section \<open>Clean absolute paths\<close>

text \<open>A name a directory entry can have; the kernel sends no other.\<close>

definition plain_name :: "string \<Rightarrow> bool" where
  "plain_name w \<longleftrightarrow> w \<noteq> [] \<and> w \<noteq> ''.'' \<and> w \<noteq> ''..'' \<and> CHR ''/'' \<notin> set w"

definition abs_path :: "string list \<Rightarrow> string" where
  "abs_path ws = CHR ''/'' # join_slash ws"

definition clean_abs :: "string \<Rightarrow> bool" where
  "clean_abs p \<longleftrightarrow> hd p = CHR ''/'' \<and> p \<noteq> [] \<and>
     (p = ''/'' \<or> list_all plain_name (split_slash (tl p)))"

lemma split_slash_not_Nil [simp]: "split_slash s \<noteq> []"
  by (cases s) (auto split: list.split)

lemma split_slash_append: "split_slash (a @ CHR ''/'' # b) = split_slash a @ split_slash b"
  by (induction a) (auto split: list.split)

lemma split_slash_plain: "CHR ''/'' \<notin> set w \<Longrightarrow> split_slash w = [w]"
  by (induction w) (auto split: list.split)

lemma split_slash_no_slash: "w \<in> set (split_slash s) \<Longrightarrow> CHR ''/'' \<notin> set w"
  by (induction s arbitrary: w) (auto split: if_splits list.splits)

lemma split_join:
  "ws \<noteq> [] \<Longrightarrow> \<forall>w \<in> set ws. CHR ''/'' \<notin> set w \<Longrightarrow> split_slash (join_slash ws) = ws"
  by (induction ws rule: join_slash.induct) (auto simp: split_slash_append split_slash_plain)

lemma join_split [simp]: "join_slash (split_slash s) = s"
proof (induction s)
  case (Cons c cs)
  then show ?case
    by (cases "split_slash cs") (auto, (metis append_Cons join_slash.simps(2,3) neq_Nil_conv)+)
qed simp

lemma plain_no_slash: "plain_name w \<Longrightarrow> CHR ''/'' \<notin> set w"
  by (simp add: plain_name_def)

lemma split_abs_path:
  assumes "list_all plain_name ws"
  shows "split_slash (abs_path ws) = [] # (if ws = [] then [[]] else ws)"
  using assms split_join [of ws] by (auto simp: abs_path_def list_all_iff plain_no_slash)

lemma abs_path_inj:
  assumes "list_all plain_name ws" and "list_all plain_name vs" and "abs_path ws = abs_path vs"
  shows "ws = vs"
proof -
  have ne: "us \<noteq> [[]]" if "list_all plain_name us" for us
    using that by (auto simp: plain_name_def)
  have "(if ws = [] then [[]] else ws) = (if vs = [] then [[]] else vs)"
    using split_abs_path [OF assms(1)] split_abs_path [OF assms(2)] assms(3) by simp
  with ne [OF assms(1)] ne [OF assms(2)] show ?thesis
    by (cases "ws = []"; cases "vs = []") simp_all
qed

lemma clean_absE:
  assumes "clean_abs p"
  obtains ws where "p = abs_path ws" and "list_all plain_name ws"
proof (cases "p = ''/''")
  case True
  with that [of "[]"] show ?thesis by (simp add: abs_path_def)
next
  case False
  with assms that [of "split_slash (tl p)"] show ?thesis
    by (cases p) (auto simp: clean_abs_def abs_path_def)
qed

lemma clean_abs_path: "list_all plain_name ws \<Longrightarrow> clean_abs (abs_path ws)"
  using split_join [of ws]
  by (cases "ws = []") (auto simp: clean_abs_def abs_path_def list_all_iff plain_no_slash)

lemma clean_abs_iff: "clean_abs p \<longleftrightarrow> (\<exists>ws. p = abs_path ws \<and> list_all plain_name ws)"
  using clean_abs_path clean_absE by metis

lemma clean_abs_root [simp]: "clean_abs ''/''"
  by (simp add: clean_abs_def)

section \<open>Cleaning and joining\<close>

lemma clean_walk_step: "plain_name w \<Longrightarrow> clean_walk r out (w # us) = clean_walk r (w # out) us"
  by (simp add: plain_name_def)

lemma clean_walk_plain:
  "list_all plain_name ws \<Longrightarrow> clean_walk r out (ws @ us) = clean_walk r (rev ws @ out) us"
  by (induction ws arbitrary: out) (simp_all add: clean_walk_step del: clean_walk.simps(2))

lemma clean_walk_all_plain:
  "list_all plain_name out \<Longrightarrow> \<forall>w \<in> set ws. CHR ''/'' \<notin> set w \<Longrightarrow>
     list_all plain_name (clean_walk True out ws)"
proof (induction ws arbitrary: out)
  case Nil
  then show ?case by (simp add: list_all_iff)
next
  case (Cons w ws)
  consider "w = [] \<or> w = ''.''" | "w = ''..''" | "plain_name w"
    using Cons.prems(2) by (auto simp: plain_name_def)
  then show ?case
  proof cases
    case 1
    with Cons show ?thesis by auto
  next
    case 2
    show ?thesis
    proof (cases out)
      case Nil
      with 2 Cons show ?thesis by simp
    next
      case (Cons v vs)
      with Cons.prems(1) have "v \<noteq> ''..''" by (simp add: plain_name_def)
      with 2 Cons Cons.IH [of vs] Cons.prems show ?thesis by simp
    qed
  next
    case 3
    with Cons show ?thesis by (simp add: clean_walk_step del: clean_walk.simps(2))
  qed
qed

lemma Clean_rooted:
  "hd p = CHR ''/'' \<Longrightarrow> p \<noteq> [] \<Longrightarrow> path_Clean p = abs_path (clean_walk True [] (split_slash p))"
  by (simp add: path_Clean_def abs_path_def Let_def)

lemma Join_walk:
  assumes "list_all plain_name ws"
  shows "path_Join (abs_path ws) name = abs_path (clean_walk True (rev ws) (split_slash name))"
proof -
  have "path_Join (abs_path ws) name = path_Clean (abs_path ws @ CHR ''/'' # name)"
    by (simp add: path_Join_def abs_path_def)
  also have "\<dots> = abs_path (clean_walk True [] (split_slash (abs_path ws) @ split_slash name))"
    by (subst Clean_rooted) (simp_all add: abs_path_def split_slash_append [symmetric] del: split_slash.simps)
  also have "\<dots> = abs_path (clean_walk True (rev ws) (split_slash name))"
    using clean_walk_plain [OF assms, of True "[]" "split_slash name"] by (simp add: split_abs_path [OF assms])
  finally show ?thesis .
qed

lemma clean_abs_Join: "clean_abs p \<Longrightarrow> clean_abs (path_Join p name)"
proof (erule clean_absE)
  fix ws
  assume p: "p = abs_path ws" and ws: "list_all plain_name ws"
  from ws have "list_all plain_name (clean_walk True (rev ws) (split_slash name))"
    by (intro clean_walk_all_plain) (auto simp: list_all_iff dest: split_slash_no_slash)
  then show ?thesis by (simp add: p Join_walk [OF ws] clean_abs_path)
qed

lemma Join_plain:
  "list_all plain_name ws \<Longrightarrow> plain_name name \<Longrightarrow> path_Join (abs_path ws) name = abs_path (ws @ [name])"
  by (simp add: Join_walk split_slash_plain plain_no_slash) (simp add: plain_name_def)

lemma join_slash_Cons: "ws \<noteq> [] \<Longrightarrow> join_slash (w # ws) = w @ CHR ''/'' # join_slash ws"
  by (cases ws) simp_all

lemma filepath_Join_plain:
  assumes "list_all plain_name rs" and "list_all plain_name ws" and "ws \<noteq> []"
  shows "filepath_Join (abs_path rs # ws) = abs_path (rs @ ws)"
proof -
  have "filepath_Join (abs_path rs # ws) = path_Join (abs_path rs) (join_slash ws)"
    using assms(3) by (simp add: filepath_Join_def path_Join_def join_slash_Cons abs_path_def)
  also have "\<dots> = abs_path (clean_walk True (rev rs) (ws @ []))"
    using assms split_join [of ws] by (simp add: Join_walk list_all_iff plain_no_slash)
  also have "\<dots> = abs_path (rs @ ws)"
    using clean_walk_plain [OF assms(2), of True "rev rs" "[]"] by simp
  finally show ?thesis .
qed

lemma Join_inj:
  assumes "clean_abs p" and "clean_abs q" and "plain_name a" and "plain_name b"
    and "path_Join p a = path_Join q b"
  shows "p = q \<and> a = b"
proof -
  obtain ws where ws: "p = abs_path ws" "list_all plain_name ws" using assms(1) by (rule clean_absE)
  obtain vs where vs: "q = abs_path vs" "list_all plain_name vs" using assms(2) by (rule clean_absE)
  from assms(3-5) ws vs have "ws @ [a] = vs @ [b]"
    by (intro abs_path_inj) (simp_all add: Join_plain)
  with ws vs show ?thesis by simp
qed

lemma Join_not_parent:
  assumes "clean_abs p" and "plain_name a"
  shows "path_Join p a \<noteq> p"
proof
  assume *: "path_Join p a = p"
  obtain ws where ws: "p = abs_path ws" "list_all plain_name ws" using assms(1) by (rule clean_absE)
  with * assms(2) have "ws @ [a] = ws"
    by (intro abs_path_inj) (simp_all add: Join_plain)
  then show False by simp
qed

end
