(* ===== verification/Lock_Manager.thy ===== *)
theory Lock_Manager
  imports Fusefs_Prelude
begin

text \<open>
  The lock manager of \<^verbatim>\<open>locks.go\<close>: BSD locks (one \<open>flockState\<close> per path) and POSIX byte-range
  locks (a list of ranges per path). Every method holds \<^verbatim>\<open>lm.mu\<close> for its whole body, so each is
  one atomic step; \<open>lock_step\<close> collects them, and the locale \<open>lock_table\<close> states what both
  families promise to a client.
\<close>

section \<open>State\<close>

record flockState =
  lockType :: uint32
  owners :: "uint64 fset"

record posixLock =
  lk_owner :: uint64
  lk_start :: uint64
  lk_end :: uint64
  lk_typ :: uint32
  lk_pid :: uint32

text \<open>The request structure \<^verbatim>\<open>fuse.FileLock\<close>: the four fields the code reads and writes.\<close>

record FileLock =
  Start :: uint64
  End :: uint64
  Typ :: uint32
  Pid :: uint32

record LockManager =
  flocks :: "(string, flockState) fmap"
  posixLocks :: "(string, posixLock list) fmap"

definition NewLockManager :: LockManager where
  "NewLockManager = \<lparr>flocks = fmempty, posixLocks = fmempty\<rparr>"

section \<open>POSIX locks\<close>

definition rangesOverlap :: "uint64 \<Rightarrow> uint64 \<Rightarrow> uint64 \<Rightarrow> uint64 \<Rightarrow> bool" where
  "rangesOverlap start1 end1 start2 end2 =
     (let end1 = (if end1 = 0xFFFFFFFFFFFFFFFF then NOT 0 else end1);
          end2 = (if end2 = 0xFFFFFFFFFFFFFFFF then NOT 0 else end2)
      in start1 < end2 \<and> start2 < end1)"

text \<open>The loop of \<^verbatim>\<open>Getlk\<close>: the first conflicting lock overwrites the request.\<close>

fun Getlk_loop :: "uint64 \<Rightarrow> FileLock \<Rightarrow> posixLock list \<Rightarrow> FileLock" where
  "Getlk_loop owner lk [] = lk\<lparr>Typ := F_UNLCK\<rparr>"
| "Getlk_loop owner lk (lock # locks) =
     (if lk_owner lock = owner then Getlk_loop owner lk locks
      else if rangesOverlap (Start lk) (End lk) (lk_start lock) (lk_end lock) \<and>
              (Typ lk = F_WRLCK \<or> lk_typ lock = F_WRLCK)
      then \<lparr>Start = lk_start lock, End = lk_end lock, Typ = lk_typ lock, Pid = lk_pid lock\<rparr>
      else Getlk_loop owner lk locks)"

definition Getlk :: "string \<Rightarrow> uint64 \<Rightarrow> FileLock \<Rightarrow> LockManager \<Rightarrow> errno \<times> FileLock" where
  "Getlk path owner lk lm = (case fmlookup (posixLocks lm) path of
     None \<Rightarrow> (OK, lk\<lparr>Typ := F_UNLCK\<rparr>)
   | Some locks \<Rightarrow> (OK, Getlk_loop owner lk locks))"

text \<open>The loop of \<^verbatim>\<open>unlockPosix\<close>: what remains of the list of locks.\<close>

fun unlock_loop :: "uint64 \<Rightarrow> FileLock \<Rightarrow> posixLock list \<Rightarrow> posixLock list" where
  "unlock_loop owner lk [] = []"
| "unlock_loop owner lk (lock # locks) =
     (if lk_owner lock \<noteq> owner then lock # unlock_loop owner lk locks
      else if \<not> rangesOverlap (Start lk) (End lk) (lk_start lock) (lk_end lock)
      then lock # unlock_loop owner lk locks
      else (if lk_start lock < Start lk then [lock\<lparr>lk_end := Start lk\<rparr>] else []) @
           (if lk_end lock > End lk then [lock\<lparr>lk_start := End lk\<rparr>] else []) @
           unlock_loop owner lk locks)"

text \<open>Storing a list of locks back: an empty list removes the path.\<close>

definition store_locks :: "string \<Rightarrow> posixLock list \<Rightarrow> (string, posixLock list) fmap
    \<Rightarrow> (string, posixLock list) fmap" where
  "store_locks path newLocks m =
     (if length newLocks = 0 then fmdrop path m else fmupd path newLocks m)"

definition unlockPosix :: "string \<Rightarrow> uint64 \<Rightarrow> FileLock \<Rightarrow> LockManager \<Rightarrow> errno \<times> LockManager" where
  "unlockPosix path owner lk lm = (case fmlookup (posixLocks lm) path of
     None \<Rightarrow> (OK, lm)
   | Some locks \<Rightarrow>
       (OK, lm\<lparr>posixLocks := store_locks path (unlock_loop owner lk locks) (posixLocks lm)\<rparr>))"

text \<open>The conflict test in the loop of \<^verbatim>\<open>Setlk\<close>.\<close>

fun Setlk_conflict :: "uint64 \<Rightarrow> FileLock \<Rightarrow> posixLock list \<Rightarrow> bool" where
  "Setlk_conflict owner lk [] = False"
| "Setlk_conflict owner lk (lock # locks) =
     (if lk_owner lock = owner then Setlk_conflict owner lk locks
      else if rangesOverlap (Start lk) (End lk) (lk_start lock) (lk_end lock) \<and>
              (Typ lk = F_WRLCK \<or> lk_typ lock = F_WRLCK)
      then True
      else Setlk_conflict owner lk locks)"

text \<open>\<^verbatim>\<open>lm.posixLocks[path]\<close> of an absent path is the nil slice: no locks.\<close>

definition locks_of :: "string \<Rightarrow> LockManager \<Rightarrow> posixLock list" where
  "locks_of path lm = (case fmlookup (posixLocks lm) path of None \<Rightarrow> [] | Some locks \<Rightarrow> locks)"

definition Setlk :: "string \<Rightarrow> uint64 \<Rightarrow> FileLock \<Rightarrow> LockManager \<Rightarrow> errno \<times> LockManager" where
  "Setlk path owner lk lm =
     (if Typ lk = F_UNLCK then unlockPosix path owner lk lm
      else let locks = locks_of path lm in
        if Setlk_conflict owner lk locks then (EAGAIN, lm)
        else let newLock = \<lparr>lk_owner = owner, lk_start = Start lk, lk_end = End lk,
                            lk_typ = Typ lk, lk_pid = Pid lk\<rparr>
             in (OK, lm\<lparr>posixLocks := fmupd path (locks @ [newLock]) (posixLocks lm)\<rparr>))"

definition Setlkw :: "string \<Rightarrow> uint64 \<Rightarrow> FileLock \<Rightarrow> LockManager \<Rightarrow> errno \<times> LockManager" where
  "Setlkw path owner lk lm = Setlk path owner lk lm"

section \<open>BSD locks\<close>

definition flockUnlock :: "string \<Rightarrow> uint64 \<Rightarrow> LockManager \<Rightarrow> errno \<times> LockManager" where
  "flockUnlock path owner lm = (case fmlookup (flocks lm) path of
     None \<Rightarrow> (OK, lm)
   | Some state \<Rightarrow>
       let state = state\<lparr>owners := owners state |-| {|owner|}\<rparr> in
       if fcard (owners state) = 0
       then (OK, lm\<lparr>flocks := fmdrop path (flocks lm)\<rparr>)
       else (OK, lm\<lparr>flocks := fmupd path state (flocks lm)\<rparr>))"

definition Flock :: "string \<Rightarrow> uint64 \<Rightarrow> uint32 \<Rightarrow> LockManager \<Rightarrow> errno \<times> LockManager" where
  "Flock path owner flags lm =
     (if flags AND LOCK_UN \<noteq> 0 then flockUnlock path owner lm
      else let requestedType = (if flags AND LOCK_EX \<noteq> 0 then LOCK_EX else LOCK_SH) in
      case fmlookup (flocks lm) path of
        None \<Rightarrow>
          (OK, lm\<lparr>flocks := fmupd path \<lparr>lockType = requestedType, owners = {|owner|}\<rparr> (flocks lm)\<rparr>)
      | Some state \<Rightarrow>
          if owner |\<in>| owners state then
            (if requestedType = lockType state then (OK, lm)
             else if requestedType = LOCK_EX \<and> lockType state = LOCK_SH then
               (if fcard (owners state) = 1
                then (OK, lm\<lparr>flocks := fmupd path (state\<lparr>lockType := LOCK_EX\<rparr>) (flocks lm)\<rparr>)
                else if flags AND LOCK_NB \<noteq> 0 then (EWOULDBLOCK, lm)
                else (EAGAIN, lm))
             else if requestedType = LOCK_SH \<and> lockType state = LOCK_EX
             then (OK, lm\<lparr>flocks := fmupd path (state\<lparr>lockType := LOCK_SH\<rparr>) (flocks lm)\<rparr>)
             else (OK, lm))
          else if lockType state = LOCK_EX then
            (if flags AND LOCK_NB \<noteq> 0 then (EWOULDBLOCK, lm) else (EAGAIN, lm))
          else if requestedType = LOCK_SH
          then (OK, lm\<lparr>flocks := fmupd path (state\<lparr>owners := finsert owner (owners state)\<rparr>) (flocks lm)\<rparr>)
          else if flags AND LOCK_NB \<noteq> 0 then (EWOULDBLOCK, lm)
          else (EAGAIN, lm))"

section \<open>Releasing everything an owner holds\<close>

text \<open>
  \<^verbatim>\<open>ReleaseOwner\<close> ranges over both maps. Each iteration touches its own path only, so the order
  Go picks does not matter, and the loop is the pointwise update of the map.
\<close>

definition release_flocks :: "uint64 \<Rightarrow> (string, flockState) fmap \<Rightarrow> (string, flockState) fmap" where
  "release_flocks owner m =
     (let m = fmmap (\<lambda>state. state\<lparr>owners := owners state |-| {|owner|}\<rparr>) m
      in fmfilter (\<lambda>path. case fmlookup m path of
           Some state \<Rightarrow> fcard (owners state) \<noteq> 0 | None \<Rightarrow> False) m)"

definition release_posix :: "uint64 \<Rightarrow> (string, posixLock list) fmap \<Rightarrow> (string, posixLock list) fmap" where
  "release_posix owner m =
     (let m = fmmap (\<lambda>locks. filter (\<lambda>lock. lk_owner lock \<noteq> owner) locks) m
      in fmfilter (\<lambda>path. case fmlookup m path of
           Some newLocks \<Rightarrow> length newLocks \<noteq> 0 | None \<Rightarrow> False) m)"

definition ReleaseOwner :: "uint64 \<Rightarrow> LockManager \<Rightarrow> LockManager" where
  "ReleaseOwner owner lm =
     lm\<lparr>flocks := release_flocks owner (flocks lm), posixLocks := release_posix owner (posixLocks lm)\<rparr>"

section \<open>The manager as a system of operations\<close>

datatype lock_op =
    OpGetlk string uint64 FileLock
  | OpSetlk string uint64 FileLock
  | OpSetlkw string uint64 FileLock
  | OpFlock string uint64 uint32
  | OpReleaseOwner uint64

fun lock_step :: "lock_op \<Rightarrow> LockManager \<Rightarrow> LockManager" where
  "lock_step (OpGetlk path owner lk) lm = lm"
| "lock_step (OpSetlk path owner lk) lm = snd (Setlk path owner lk lm)"
| "lock_step (OpSetlkw path owner lk) lm = snd (Setlkw path owner lk lm)"
| "lock_step (OpFlock path owner flags) lm = snd (Flock path owner flags lm)"
| "lock_step (OpReleaseOwner owner) lm = ReleaseOwner owner lm"

definition lock_run :: "lock_op list \<Rightarrow> LockManager" where
  "lock_run ops = fold lock_step ops NewLockManager"

section \<open>Interface: a table of held locks\<close>

text \<open>
  What a caller of either family relies on. A claim names the resource, the owner and the mode;
  \<open>held\<close> is the set of claims a state grants. The client facts are proved here once and reach
  BSD and POSIX locks through the two interpretations below.
\<close>

locale lock_table =
  fixes acquire :: "'c \<Rightarrow> 's \<Rightarrow> bool \<times> 's"
    and release :: "'o \<Rightarrow> 's \<Rightarrow> 's"
    and held :: "'s \<Rightarrow> 'c set"
    and conflicts :: "'c \<Rightarrow> 'c \<Rightarrow> bool"
    and owner_of :: "'c \<Rightarrow> 'o"
    and valid :: "'c \<Rightarrow> bool"
    and inv :: "'s \<Rightarrow> bool"
  assumes acquire_inv: "inv s \<Longrightarrow> valid c \<Longrightarrow> inv (snd (acquire c s))"
    and release_inv: "inv s \<Longrightarrow> inv (release p s)"
    and held_compatible: "inv s \<Longrightarrow> c \<in> held s \<Longrightarrow> d \<in> held s \<Longrightarrow> \<not> conflicts c d"
    and conflicts_owner: "conflicts c d \<Longrightarrow> owner_of c \<noteq> owner_of d"
    and acquire_granted: "inv s \<Longrightarrow> valid c \<Longrightarrow> fst (acquire c s) \<Longrightarrow> c \<in> held (snd (acquire c s))"
    and acquire_refused:
      "inv s \<Longrightarrow> valid c \<Longrightarrow> \<not> fst (acquire c s) \<Longrightarrow>
         snd (acquire c s) = s \<and> (\<exists>d \<in> held s. conflicts c d)"
    and acquire_keeps:
      "inv s \<Longrightarrow> valid c \<Longrightarrow> d \<in> held s \<Longrightarrow> owner_of d \<noteq> owner_of c \<Longrightarrow>
         d \<in> held (snd (acquire c s))"
    and release_held: "inv s \<Longrightarrow> held (release p s) = {c \<in> held s. owner_of c \<noteq> p}"
begin

lemma granted_no_conflict:
  assumes "inv s" and "valid c" and "fst (acquire c s)" and "d \<in> held s"
  shows "\<not> conflicts c d"
proof
  assume conf: "conflicts c d"
  with conflicts_owner have "owner_of d \<noteq> owner_of c" by metis
  with assms have "d \<in> held (snd (acquire c s))" by (simp add: acquire_keeps)
  moreover have "c \<in> held (snd (acquire c s))" using assms by (simp add: acquire_granted)
  moreover have "inv (snd (acquire c s))" using assms by (simp add: acquire_inv)
  ultimately show False using conf held_compatible by blast
qed

lemma acquire_iff:
  "inv s \<Longrightarrow> valid c \<Longrightarrow> fst (acquire c s) \<longleftrightarrow> (\<forall>d \<in> held s. \<not> conflicts c d)"
  using granted_no_conflict acquire_refused by blast

lemma release_then_acquire:
  assumes "inv s" and "valid c" and "\<forall>d \<in> held s. conflicts c d \<longrightarrow> owner_of d = p"
  shows "fst (acquire c (release p s))"
  using assms by (subst acquire_iff) (auto simp: release_inv release_held)

lemma conflicting_refused:
  assumes "inv s" and "valid c" and "valid d" and "fst (acquire c s)" and "conflicts d c"
  shows "\<not> fst (acquire d (snd (acquire c s)))"
  using assms by (subst acquire_iff) (auto simp: acquire_inv intro: bexI [OF _ acquire_granted])

end

section \<open>POSIX locks: lemmas\<close>

lemma rangesOverlap_iff [simp]:
  "rangesOverlap s1 e1 s2 e2 \<longleftrightarrow> s1 < e2 \<and> s2 < e1"
  by (simp add: rangesOverlap_def max_uint64)

text \<open>Two locks that may not be held together.\<close>

definition lock_conflict :: "posixLock \<Rightarrow> posixLock \<Rightarrow> bool" where
  "lock_conflict l m \<longleftrightarrow> lk_owner l \<noteq> lk_owner m \<and>
     lk_start l < lk_end m \<and> lk_start m < lk_end l \<and> (lk_typ l = F_WRLCK \<or> lk_typ m = F_WRLCK)"

definition new_lock :: "uint64 \<Rightarrow> FileLock \<Rightarrow> posixLock" where
  "new_lock owner lk = \<lparr>lk_owner = owner, lk_start = Start lk, lk_end = End lk,
                        lk_typ = Typ lk, lk_pid = Pid lk\<rparr>"

lemma new_lock_sel [simp]:
  "lk_owner (new_lock owner lk) = owner" "lk_start (new_lock owner lk) = Start lk"
  "lk_end (new_lock owner lk) = End lk" "lk_typ (new_lock owner lk) = Typ lk"
  by (simp_all add: new_lock_def)

lemma lock_conflict_sym: "lock_conflict l m = lock_conflict m l"
  by (auto simp: lock_conflict_def)

lemma Setlk_conflict_iff:
  "Setlk_conflict owner lk locks \<longleftrightarrow> (\<exists>m \<in> set locks. lock_conflict (new_lock owner lk) m)"
  by (induction locks) (auto simp: lock_conflict_def)

lemma Getlk_loop_iff:
  assumes "\<forall>m \<in> set locks. lk_typ m \<noteq> F_UNLCK"
  shows "Typ (Getlk_loop owner lk locks) = F_UNLCK \<longleftrightarrow> \<not> Setlk_conflict owner lk locks"
  using assms by (induction locks) auto

lemma Getlk_loop_reports:
  assumes "Setlk_conflict owner lk locks"
  shows "\<exists>m \<in> set locks. lock_conflict (new_lock owner lk) m \<and>
    Getlk_loop owner lk locks = \<lparr>Start = lk_start m, End = lk_end m, Typ = lk_typ m, Pid = lk_pid m\<rparr>"
  using assms by (induction locks) (auto simp: lock_conflict_def)

text \<open>A piece of a lock that an unlock leaves behind is part of the lock.\<close>

definition part_of :: "posixLock \<Rightarrow> posixLock \<Rightarrow> bool" where
  "part_of l m \<longleftrightarrow> lk_owner l = lk_owner m \<and> lk_typ l = lk_typ m \<and>
     lk_start m \<le> lk_start l \<and> lk_end l \<le> lk_end m"

lemma part_of_refl [simp]: "part_of l l"
  by (simp add: part_of_def)

lemma part_of_conflict:
  "lock_conflict l m \<Longrightarrow> part_of l l' \<Longrightarrow> part_of m m' \<Longrightarrow> lock_conflict l' m'"
  by (auto simp: lock_conflict_def part_of_def)

lemma unlock_loop_part:
  "l \<in> set (unlock_loop owner lk locks) \<Longrightarrow> \<exists>m \<in> set locks. part_of l m"
  by (induction locks) (auto simp: part_of_def split: if_splits)

lemma unlock_loop_other:
  "lk_owner l \<noteq> owner \<Longrightarrow> l \<in> set (unlock_loop owner lk locks) \<longleftrightarrow> l \<in> set locks"
  by (induction locks) (auto split: if_splits)

text \<open>The byte range of a lock; an unlock removes exactly the requested bytes.\<close>

definition covers :: "posixLock \<Rightarrow> uint64 \<Rightarrow> bool" where
  "covers l b \<longleftrightarrow> lk_start l \<le> b \<and> b < lk_end l"

definition in_range :: "FileLock \<Rightarrow> uint64 \<Rightarrow> bool" where
  "in_range lk b \<longleftrightarrow> Start lk \<le> b \<and> b < End lk"

lemma covers_split:
  assumes "lk_start l < End lk" and "Start lk < lk_end l"
  shows "covers l b \<and> \<not> in_range lk b \<longleftrightarrow>
    (lk_start l < Start lk \<and> covers (l\<lparr>lk_end := Start lk\<rparr>) b) \<or>
    (End lk < lk_end l \<and> covers (l\<lparr>lk_start := End lk\<rparr>) b)"
  using assms by (auto simp: covers_def in_range_def)

lemma covers_disjoint:
  "\<not> (Start lk < lk_end l \<and> lk_start l < End lk) \<Longrightarrow> covers l b \<Longrightarrow> \<not> in_range lk b"
  by (auto simp: covers_def in_range_def)

definition locked_at :: "posixLock list \<Rightarrow> uint64 \<Rightarrow> (uint64 \<times> uint32) set" where
  "locked_at locks b = {(lk_owner l, lk_typ l) | l. l \<in> set locks \<and> covers l b}"

lemma locked_at_simps [simp]:
  "locked_at [] b = {}"
  "locked_at (l # locks) b = (if covers l b then {(lk_owner l, lk_typ l)} else {}) \<union> locked_at locks b"
  "locked_at (xs @ ys) b = locked_at xs b \<union> locked_at ys b"
  by (auto simp: locked_at_def)

lemma locked_at_unlock:
  "locked_at (unlock_loop owner lk locks) b =
     {(p, t) \<in> locked_at locks b. \<not> (p = owner \<and> in_range lk b)}"
proof (induction locks)
  case Nil
  show ?case by simp
next
  case (Cons l locks)
  show ?case
  proof (cases "lk_owner l = owner \<and> Start lk < lk_end l \<and> lk_start l < End lk")
    case True
    then show ?thesis using Cons.IH covers_split [of l lk b] by auto
  next
    case False
    then show ?thesis using Cons.IH covers_disjoint [of lk l b] by auto
  qed
qed

lemma locked_at_filter:
  "locked_at (filter (\<lambda>l. lk_owner l \<noteq> owner) locks) b = {(p, t) \<in> locked_at locks b. p \<noteq> owner}"
  by (auto simp: locked_at_def)

section \<open>POSIX locks: the manager\<close>

lemma locks_of_simps [simp]:
  "locks_of p (lm\<lparr>posixLocks := fmupd path ls m\<rparr>) =
     (if p = path then ls else locks_of p (lm\<lparr>posixLocks := m\<rparr>))"
  "locks_of p (lm\<lparr>posixLocks := posixLocks lm\<rparr>) = locks_of p lm"
  "locks_of p (lm\<lparr>flocks := fl\<rparr>) = locks_of p lm"
  "locks_of p NewLockManager = []"
  by (auto simp: locks_of_def NewLockManager_def)

lemma locks_of_store [simp]:
  "locks_of p (lm\<lparr>posixLocks := store_locks path ls (posixLocks lm)\<rparr>) =
     (if p = path then ls else locks_of p lm)"
  by (auto simp: locks_of_def store_locks_def)

lemma unlockPosix_OK [simp]: "fst (unlockPosix path owner lk lm) = OK"
  by (simp add: unlockPosix_def split: option.split)

lemma locks_of_unlockPosix:
  "locks_of p (snd (unlockPosix path owner lk lm)) =
     (if p = path then unlock_loop owner lk (locks_of p lm) else locks_of p lm)"
  by (auto simp: unlockPosix_def split: option.split) (simp add: locks_of_def)+

lemma flocks_unlockPosix [simp]: "flocks (snd (unlockPosix path owner lk lm)) = flocks lm"
  by (simp add: unlockPosix_def split: option.split)

text \<open>\<^verbatim>\<open>Setlk\<close> on a lock request: granted exactly when no other owner's lock conflicts.\<close>

lemma Setlk_lock:
  assumes "Typ lk \<noteq> F_UNLCK"
  shows "Setlk path owner lk lm =
    (if \<exists>m \<in> set (locks_of path lm). lock_conflict (new_lock owner lk) m then (EAGAIN, lm)
     else (OK, lm\<lparr>posixLocks := fmupd path (locks_of path lm @ [new_lock owner lk]) (posixLocks lm)\<rparr>))"
  using assms by (simp add: Setlk_def Setlk_conflict_iff new_lock_def)

lemma Setlk_unlock: "Typ lk = F_UNLCK \<Longrightarrow> Setlk path owner lk lm = unlockPosix path owner lk lm"
  by (simp add: Setlk_def)

lemma flocks_Setlk [simp]: "flocks (snd (Setlk path owner lk lm)) = flocks lm"
  by (cases "Typ lk = F_UNLCK") (simp_all add: Setlk_unlock Setlk_lock)

lemma lookup_release_posix [simp]:
  "fmlookup (release_posix owner m) path =
     (case fmlookup m path of None \<Rightarrow> None
      | Some ls \<Rightarrow> let ls' = filter (\<lambda>l. lk_owner l \<noteq> owner) ls in if ls' = [] then None else Some ls')"
  by (simp add: release_posix_def Let_def split: option.split)

lemma locks_of_ReleaseOwner:
  "locks_of p (ReleaseOwner owner lm) = filter (\<lambda>l. lk_owner l \<noteq> owner) (locks_of p lm)"
  by (simp add: locks_of_def ReleaseOwner_def Let_def split: option.split)

text \<open>The invariant of the POSIX half: no two held locks conflict, no stored lock is an unlock
  request, and a path is present only while it has locks.\<close>

definition posix_inv :: "LockManager \<Rightarrow> bool" where
  "posix_inv lm \<longleftrightarrow>
     (\<forall>p. \<forall>l \<in> set (locks_of p lm). lk_typ l \<noteq> F_UNLCK \<and>
        (\<forall>m \<in> set (locks_of p lm). \<not> lock_conflict l m)) \<and>
     (\<forall>p. fmlookup (posixLocks lm) p \<noteq> Some [])"

lemma posix_inv_locks:
  assumes "posix_inv lm" and "l \<in> set (locks_of p lm)"
  shows "lk_typ l \<noteq> F_UNLCK" and "m \<in> set (locks_of p lm) \<Longrightarrow> \<not> lock_conflict l m"
  using assms by (auto simp: posix_inv_def)

lemma posix_inv_unlock:
  assumes "posix_inv lm"
  shows "posix_inv (snd (unlockPosix path owner lk lm))"
proof -
  let ?lm = "snd (unlockPosix path owner lk lm)"
  have part: "\<exists>m \<in> set (locks_of p lm). part_of l m" if "l \<in> set (locks_of p ?lm)" for p l
    using that unlock_loop_part [of l owner lk "locks_of p lm"]
    by (auto simp: locks_of_unlockPosix intro: part_of_refl split: if_splits)
  have "lk_typ l \<noteq> F_UNLCK \<and> \<not> lock_conflict l m"
    if "l \<in> set (locks_of p ?lm)" and "m \<in> set (locks_of p ?lm)" for p l m
    using part [OF that(1)] part [OF that(2)] posix_inv_locks [OF assms] part_of_conflict
    by (metis part_of_def)
  moreover have "fmlookup (posixLocks ?lm) p \<noteq> Some []" for p
    using assms by (auto simp: unlockPosix_def store_locks_def posix_inv_def split: option.split)
  ultimately show ?thesis by (auto simp: posix_inv_def)
qed

lemma posix_inv_Setlk:
  assumes "posix_inv lm"
  shows "posix_inv (snd (Setlk path owner lk lm))"
proof (cases "Typ lk = F_UNLCK")
  case True
  with assms show ?thesis by (simp add: Setlk_unlock posix_inv_unlock)
next
  case False
  have "\<not> lock_conflict (new_lock owner lk) (new_lock owner lk)"
    by (simp add: lock_conflict_def)
  with assms False show ?thesis
    by (auto simp: Setlk_lock posix_inv_def lock_conflict_sym)
qed

lemma posix_inv_ReleaseOwner:
  assumes "posix_inv lm"
  shows "posix_inv (ReleaseOwner owner lm)"
proof -
  have "fmlookup (posixLocks (ReleaseOwner owner lm)) p \<noteq> Some []" for p
    by (auto simp: ReleaseOwner_def Let_def split: option.split)
  with assms show ?thesis by (auto simp: posix_inv_def locks_of_ReleaseOwner)
qed

section \<open>BSD locks: lemmas\<close>

text \<open>The modes \<^verbatim>\<open>Flock\<close> stores, and the invariant of the BSD half: every entry has an owner and a
  proper mode, and an exclusive lock has one owner.\<close>

definition flock_inv :: "LockManager \<Rightarrow> bool" where
  "flock_inv lm \<longleftrightarrow> (\<forall>p st. fmlookup (flocks lm) p = Some st \<longrightarrow>
     (lockType st = LOCK_SH \<or> lockType st = LOCK_EX) \<and> owners st \<noteq> {||} \<and>
     (lockType st = LOCK_EX \<longrightarrow> fcard (owners st) = 1))"

lemma flock_invD:
  assumes "flock_inv lm" and "fmlookup (flocks lm) p = Some st"
  shows "lockType st = LOCK_SH \<or> lockType st = LOCK_EX" and "owners st \<noteq> {||}"
    and "lockType st = LOCK_EX \<Longrightarrow> fcard (owners st) = 1"
  using assms by (auto simp: flock_inv_def)

lemma flock_inv_upd:
  assumes "flock_inv lm" and "lockType st = LOCK_SH \<or> lockType st = LOCK_EX"
    and "owners st \<noteq> {||}" and "lockType st = LOCK_EX \<Longrightarrow> fcard (owners st) = 1"
  shows "flock_inv (lm\<lparr>flocks := fmupd path st (flocks lm)\<rparr>)"
  using assms by (auto simp: flock_inv_def)

lemma fcard_1_singleton: "fcard A = 1 \<Longrightarrow> x |\<in>| A \<Longrightarrow> A = {|x|}"
  by (metis card_1_singletonE fcard.rep_eq fset_simps(1) fset_simps(2) fset_inject singletonD)

lemma flock_inv_flockUnlock:
  assumes "flock_inv lm"
  shows "flock_inv (snd (flockUnlock path owner lm))"
proof (cases "fmlookup (flocks lm) path")
  case None
  with assms show ?thesis by (simp add: flockUnlock_def)
next
  case (Some st)
  note st = flock_invD [OF assms Some]
  show ?thesis
  proof (cases "fcard (owners st |-| {|owner|}) = 0")
    case True
    with assms Some show ?thesis by (auto simp: flockUnlock_def flock_inv_def)
  next
    case False
    then have "lockType st = LOCK_EX \<Longrightarrow> fcard (owners st |-| {|owner|}) = 1"
      using st(3) fcard_fminus1_le [of "owners st" owner] by (simp add: le_Suc_eq)
    with False Some st show ?thesis
      by (auto simp: flockUnlock_def Let_def intro!: flock_inv_upd [OF assms])
  qed
qed

lemma flock_inv_Flock:
  assumes "flock_inv lm"
  shows "flock_inv (snd (Flock path owner flags lm))"
proof (cases "flags AND LOCK_UN \<noteq> 0")
  case True
  with assms show ?thesis by (simp add: Flock_def flock_inv_flockUnlock)
next
  case unl: False
  show ?thesis
  proof (cases "fmlookup (flocks lm) path")
    case None
    with unl show ?thesis
      by (auto simp: Flock_def Let_def fcard_finsert intro!: flock_inv_upd [OF assms])
  next
    case (Some st)
    with unl flock_invD [OF assms Some] show ?thesis
      by (auto simp: Flock_def Let_def assms intro!: flock_inv_upd [OF assms])
  qed
qed

lemma posixLocks_Flock [simp]: "posixLocks (snd (Flock path owner flags lm)) = posixLocks lm"
  by (simp add: Flock_def flockUnlock_def Let_def split: option.split)

lemma locks_of_Flock [simp]: "locks_of p (snd (Flock path owner flags lm)) = locks_of p lm"
  by (simp add: locks_of_def)

lemma lookup_release_flocks [simp]:
  "fmlookup (release_flocks owner m) path =
     (case fmlookup m path of None \<Rightarrow> None
      | Some st \<Rightarrow> let os = owners st |-| {|owner|} in
          if os = {||} then None else Some (st\<lparr>owners := os\<rparr>))"
  by (simp add: release_flocks_def Let_def split: option.split)

lemma flock_inv_ReleaseOwner:
  assumes "flock_inv lm"
  shows "flock_inv (ReleaseOwner owner lm)"
proof -
  have "fcard (owners st |-| {|owner|}) = 1"
    if "fmlookup (flocks lm) p = Some st" "lockType st = LOCK_EX"
      "owners st |-| {|owner|} \<noteq> {||}" for p st
    using flock_invD(3) [OF assms that(1,2)] that(3) fcard_fminus1_le [of "owners st" owner]
    by (simp add: le_Suc_eq)
  with assms show ?thesis
    by (auto simp: flock_inv_def ReleaseOwner_def Let_def split: option.splits if_splits)
qed

section \<open>The manager's invariant\<close>

definition lock_inv :: "LockManager \<Rightarrow> bool" where
  "lock_inv lm \<longleftrightarrow> posix_inv lm \<and> flock_inv lm"

lemma posix_inv_cong: "posixLocks lm = posixLocks lm' \<Longrightarrow> posix_inv lm = posix_inv lm'"
  by (simp add: posix_inv_def locks_of_def)

lemma flock_inv_cong: "flocks lm = flocks lm' \<Longrightarrow> flock_inv lm = flock_inv lm'"
  by (simp add: flock_inv_def)

lemma lock_inv_new: "lock_inv NewLockManager"
  by (simp add: lock_inv_def posix_inv_def flock_inv_def locks_of_def NewLockManager_def)

lemma lock_inv_Setlk: "lock_inv lm \<Longrightarrow> lock_inv (snd (Setlk path owner lk lm))"
  by (simp add: lock_inv_def posix_inv_Setlk flock_inv_cong [OF flocks_Setlk])

lemma lock_inv_Flock: "lock_inv lm \<Longrightarrow> lock_inv (snd (Flock path owner flags lm))"
  by (simp add: lock_inv_def flock_inv_Flock posix_inv_cong [OF posixLocks_Flock])

lemma lock_inv_ReleaseOwner: "lock_inv lm \<Longrightarrow> lock_inv (ReleaseOwner owner lm)"
  by (simp add: lock_inv_def posix_inv_ReleaseOwner flock_inv_ReleaseOwner)

interpretation locks: op_system lock_step NewLockManager lock_inv
proof
  show "lock_inv NewLockManager" by (rule lock_inv_new)
next
  show "lock_inv (lock_step op lm)" if "lock_inv lm" for op lm
    using that
    by (cases op) (simp_all add: Setlkw_def lock_inv_Setlk lock_inv_Flock lock_inv_ReleaseOwner)
qed

lemma lock_inv_run: "lock_inv (lock_run ops)"
  unfolding lock_run_def by (rule locks.inv_run)

section \<open>Both families are lock tables\<close>

text \<open>A POSIX claim is a path with a lock; asking for it is \<^verbatim>\<open>Setlk\<close> with the lock's fields.\<close>

definition request_of :: "posixLock \<Rightarrow> FileLock" where
  "request_of l = \<lparr>Start = lk_start l, End = lk_end l, Typ = lk_typ l, Pid = lk_pid l\<rparr>"

definition posix_acquire :: "string \<times> posixLock \<Rightarrow> LockManager \<Rightarrow> bool \<times> LockManager" where
  "posix_acquire c lm =
     map_prod (\<lambda>e. e = OK) id (Setlk (fst c) (lk_owner (snd c)) (request_of (snd c)) lm)"

definition posix_held :: "LockManager \<Rightarrow> (string \<times> posixLock) set" where
  "posix_held lm = {(p, l). l \<in> set (locks_of p lm)}"

definition posix_conflicts :: "string \<times> posixLock \<Rightarrow> string \<times> posixLock \<Rightarrow> bool" where
  "posix_conflicts c d \<longleftrightarrow> fst c = fst d \<and> lock_conflict (snd c) (snd d)"

lemma new_lock_request_of [simp]: "new_lock (lk_owner l) (request_of l) = l"
  by (simp add: new_lock_def request_of_def)

lemma Typ_request_of [simp]: "Typ (request_of l) = lk_typ l"
  by (simp add: request_of_def)

lemma posix_acquire_simp:
  "lk_typ l \<noteq> F_UNLCK \<Longrightarrow> posix_acquire (p, l) lm =
     (if \<exists>m \<in> set (locks_of p lm). lock_conflict l m then (False, lm)
      else (True, lm\<lparr>posixLocks := fmupd p (locks_of p lm @ [l]) (posixLocks lm)\<rparr>))"
  by (simp add: posix_acquire_def Setlk_lock)

interpretation posix: lock_table posix_acquire ReleaseOwner posix_held posix_conflicts
  "\<lambda>c. lk_owner (snd c)" "\<lambda>c. lk_typ (snd c) \<noteq> F_UNLCK" posix_inv
proof (unfold_locales, goal_cases)
  case (1 lm c)
  then show ?case by (cases c) (simp add: posix_acquire_def posix_inv_Setlk)
next
  case (2 lm p)
  then show ?case by (rule posix_inv_ReleaseOwner)
next
  case (3 lm c d)
  then show ?case by (auto simp: posix_held_def posix_conflicts_def posix_inv_locks)
next
  case (4 c d)
  then show ?case by (simp add: posix_conflicts_def lock_conflict_def)
next
  case (5 lm c)
  then show ?case by (cases c) (auto simp: posix_acquire_simp posix_held_def split: if_splits)
next
  case (6 lm c)
  then show ?case
    by (cases c) (auto simp: posix_acquire_simp posix_held_def posix_conflicts_def split: if_splits)
next
  case (7 lm c d)
  then show ?case by (cases c) (auto simp: posix_acquire_simp posix_held_def)
next
  case (8 lm p)
  show ?case by (auto simp: posix_held_def locks_of_ReleaseOwner)
qed

text \<open>A BSD claim is a path, an owner and whether the lock is exclusive.\<close>

definition flock_acquire :: "string \<times> uint64 \<times> bool \<Rightarrow> LockManager \<Rightarrow> bool \<times> LockManager" where
  "flock_acquire c lm = (case c of (p, owner, excl) \<Rightarrow>
     map_prod (\<lambda>e. e = OK) id (Flock p owner (if excl then LOCK_EX else LOCK_SH) lm))"

definition flock_held :: "LockManager \<Rightarrow> (string \<times> uint64 \<times> bool) set" where
  "flock_held lm = {(p, owner, excl). \<exists>st. fmlookup (flocks lm) p = Some st \<and>
     owner |\<in>| owners st \<and> excl = (lockType st = LOCK_EX)}"

definition flock_conflicts :: "string \<times> uint64 \<times> bool \<Rightarrow> string \<times> uint64 \<times> bool \<Rightarrow> bool" where
  "flock_conflicts c d \<longleftrightarrow> fst c = fst d \<and> fst (snd c) \<noteq> fst (snd d) \<and> (snd (snd c) \<or> snd (snd d))"

lemma flock_inv_excl_unique:
  assumes "flock_inv lm" and "fmlookup (flocks lm) p = Some st" and "lockType st = LOCK_EX"
    and "x |\<in>| owners st" and "y |\<in>| owners st"
  shows "x = y"
  using flock_invD(3) [OF assms(1-3)] fcard_1_singleton assms(4,5) by fastforce

lemma flock_other_owner:
  assumes "fcard A \<noteq> 1" and "x |\<in>| A"
  shows "\<exists>y. y |\<in>| A \<and> y \<noteq> x"
proof (rule ccontr)
  assume "\<not> ?thesis"
  with assms(2) have "A = {|x|}" by blast
  with assms(1) show False by (simp add: fcard.rep_eq)
qed

lemma sole_owner_iff:
  assumes "os \<noteq> {||}"
  shows "x |\<in>| os \<and> fcard os = 1 \<longleftrightarrow> \<not> (\<exists>y. y |\<in>| os \<and> y \<noteq> x)"
  using assms fcard_1_singleton [of os x] flock_other_owner [of os x] by blast

lemma flock_acquire_None:
  "fmlookup (flocks lm) p = None \<Longrightarrow> flock_acquire (p, x, e) lm = (True, lm\<lparr>flocks :=
     fmupd p \<lparr>lockType = (if e then LOCK_EX else LOCK_SH), owners = {|x|}\<rparr> (flocks lm)\<rparr>)"
  by (simp add: flock_acquire_def Flock_def)

lemma flock_acquire_Some:
  assumes inv: "flock_inv lm" and Some: "fmlookup (flocks lm) p = Some st"
  shows "flock_acquire (p, x, e) lm =
    (if (\<not> e \<and> lockType st \<noteq> LOCK_EX) \<or> (x |\<in>| owners st \<and> fcard (owners st) = 1)
     then (True, if x |\<in>| owners st \<and> e = (lockType st = LOCK_EX) then lm else
            lm\<lparr>flocks := fmupd p \<lparr>lockType = (if e then LOCK_EX else LOCK_SH),
                                  owners = finsert x (owners st)\<rparr> (flocks lm)\<rparr>)
     else (False, lm))"
proof -
  note st = flock_invD [OF inv Some]
  obtain t os where [simp]: "st = \<lparr>lockType = t, owners = os\<rparr>" by (cases st)
  show ?thesis
  proof (cases "x |\<in>| os")
    case True
    then have fin: "finsert x os = os" by (rule finsert_absorb)
    from st(1,3) consider "t = LOCK_EX" "fcard os = 1" | "t = LOCK_SH" by auto
    then show ?thesis
      using Some True by cases (cases e; simp add: flock_acquire_def Flock_def fin)+
  next
    case False
    from st(1) consider "t = LOCK_EX" | "t = LOCK_SH" by auto
    then show ?thesis
      using Some False by cases (cases e; simp add: flock_acquire_def Flock_def)+
  qed
qed

lemma flock_acquire_fst:
  assumes "flock_inv lm"
  shows "fst (flock_acquire (p, x, e) lm) \<longleftrightarrow>
    (\<forall>d \<in> flock_held lm. \<not> flock_conflicts (p, x, e) d)"
proof (cases "fmlookup (flocks lm) p")
  case None
  then show ?thesis by (auto simp: flock_acquire_None flock_held_def flock_conflicts_def)
next
  case (Some st)
  have "(\<forall>d \<in> flock_held lm. \<not> flock_conflicts (p, x, e) d) \<longleftrightarrow>
      (\<not> e \<and> lockType st \<noteq> LOCK_EX) \<or> \<not> (\<exists>y. y |\<in>| owners st \<and> y \<noteq> x)"
    using Some by (fastforce simp: flock_held_def flock_conflicts_def)
  also have "\<dots> \<longleftrightarrow> fst (flock_acquire (p, x, e) lm)"
    by (simp only: flock_acquire_Some [OF assms Some] if_distrib [of fst] fst_conv
          sole_owner_iff [OF flock_invD(2) [OF assms Some]] if_bool_eq_disj) blast
  finally show ?thesis ..
qed

lemma flock_held_iff:
  "(q, y, f) \<in> flock_held lm \<longleftrightarrow> (case fmlookup (flocks lm) q of None \<Rightarrow> False
     | Some st \<Rightarrow> y |\<in>| owners st \<and> f = (lockType st = LOCK_EX))"
  by (simp add: flock_held_def split: option.split)

lemma flock_acquire_held:
  assumes "flock_inv lm"
  shows "flock_held (snd (flock_acquire (p, x, e) lm)) =
    (if fst (flock_acquire (p, x, e) lm)
     then insert (p, x, e) {d \<in> flock_held lm. \<not> (fst d = p \<and> fst (snd d) = x)}
     else flock_held lm)"
proof (cases "fmlookup (flocks lm) p")
  case None
  then show ?thesis by (auto simp: flock_acquire_None flock_held_def split: if_splits)
next
  case (Some st)
  obtain t os where st: "st = \<lparr>lockType = t, owners = os\<rparr>" by (cases st)
  note acq = flock_acquire_Some [OF assms Some, of x e, unfolded st, simplified]
  consider "\<not> e" "t \<noteq> LOCK_EX" | "os = {|x|}"
    | "\<not> ((\<not> e \<and> t \<noteq> LOCK_EX) \<or> (x |\<in>| os \<and> fcard os = Suc 0))"
    using fcard_1_singleton [of os x] by auto
  then show ?thesis
  proof cases
    case 1
    then have "flock_acquire (p, x, e) lm = (True, if x |\<in>| os then lm else
        lm\<lparr>flocks := fmupd p \<lparr>lockType = LOCK_SH, owners = finsert x os\<rparr> (flocks lm)\<rparr>)"
      unfolding acq by simp
    with Some st 1 show ?thesis
      by (auto simp: set_eq_iff flock_held_iff)
  next
    case 2
    then have "flock_acquire (p, x, e) lm = (True, if e = (t = LOCK_EX) then lm else
        lm\<lparr>flocks := fmupd p \<lparr>lockType = (if e then LOCK_EX else LOCK_SH), owners = {|x|}\<rparr>
                            (flocks lm)\<rparr>)"
      unfolding acq by (simp add: fcard.rep_eq)
    with Some st 2 show ?thesis
      by (auto simp: set_eq_iff flock_held_iff split: if_splits)
  next
    case 3
    then have "flock_acquire (p, x, e) lm = (False, lm)" unfolding acq by (rule if_not_P)
    then show ?thesis by simp
  qed
qed

lemma flock_held_ReleaseOwner:
  "flock_held (ReleaseOwner owner lm) = {c \<in> flock_held lm. fst (snd c) \<noteq> owner}"
  by (auto simp: flock_held_def ReleaseOwner_def Let_def split: option.splits if_splits)

interpretation flock: lock_table flock_acquire ReleaseOwner flock_held flock_conflicts
  "\<lambda>c. fst (snd c)" "\<lambda>c. True" flock_inv
proof (unfold_locales, goal_cases)
  case (1 lm c)
  then show ?case by (cases c) (simp add: flock_acquire_def flock_inv_Flock)
next
  case (2 lm p)
  then show ?case by (rule flock_inv_ReleaseOwner)
next
  case (3 lm c d)
  then show ?case
    by (auto simp: flock_held_def flock_conflicts_def dest: flock_inv_excl_unique)
next
  case (4 c d)
  then show ?case by (simp add: flock_conflicts_def)
next
  case (5 lm c)
  then show ?case by (cases c) (simp add: flock_acquire_held)
next
  case (6 lm c)
  obtain p x e where c: "c = (p, x, e)" by (cases c)
  from 6 have "snd (flock_acquire (p, x, e) lm) = lm"
    by (cases "fmlookup (flocks lm) p")
       (auto simp: c flock_acquire_None flock_acquire_Some split: if_splits)
  with 6 show ?case by (auto simp: c flock_acquire_fst)
next
  case (7 lm c d)
  then show ?case by (cases c) (auto simp: flock_acquire_held)
next
  case (8 lm p)
  show ?case by (rule flock_held_ReleaseOwner)
qed

section \<open>Byte-level specification of POSIX locks\<close>

text \<open>The abstract state: for each path and byte, which owners hold which types.\<close>

type_synonym byte_table = "string \<Rightarrow> uint64 \<Rightarrow> (uint64 \<times> uint32) set"

definition byte_table :: "LockManager \<Rightarrow> byte_table" where
  "byte_table lm p b = locked_at (locks_of p lm) b"

definition spec_conflict :: "string \<Rightarrow> uint64 \<Rightarrow> FileLock \<Rightarrow> byte_table \<Rightarrow> bool" where
  "spec_conflict p owner lk T \<longleftrightarrow> (\<exists>b q t. in_range lk b \<and> (q, t) \<in> T p b \<and> q \<noteq> owner \<and>
     (Typ lk = F_WRLCK \<or> t = F_WRLCK))"

definition spec_Setlk :: "string \<Rightarrow> uint64 \<Rightarrow> FileLock \<Rightarrow> byte_table \<Rightarrow> byte_table" where
  "spec_Setlk p owner lk T =
     (if Typ lk = F_UNLCK
      then (\<lambda>r b. {(q, t) \<in> T r b. \<not> (r = p \<and> in_range lk b \<and> q = owner)})
      else if spec_conflict p owner lk T then T
      else (\<lambda>r b. if r = p \<and> in_range lk b then insert (owner, Typ lk) (T r b) else T r b))"

fun spec_step :: "lock_op \<Rightarrow> byte_table \<Rightarrow> byte_table" where
  "spec_step (OpSetlk p owner lk) T = spec_Setlk p owner lk T"
| "spec_step (OpSetlkw p owner lk) T = spec_Setlk p owner lk T"
| "spec_step (OpReleaseOwner owner) T = (\<lambda>r b. {(q, t) \<in> T r b. q \<noteq> owner})"
| "spec_step _ T = T"

text \<open>The refinement needs lock requests that name at least one byte.\<close>

fun names_bytes :: "lock_op \<Rightarrow> bool" where
  "names_bytes (OpSetlk p owner lk) = (Typ lk = F_UNLCK \<or> Start lk < End lk)"
| "names_bytes (OpSetlkw p owner lk) = (Typ lk = F_UNLCK \<or> Start lk < End lk)"
| "names_bytes _ = True"

definition nonempty_locks :: "LockManager \<Rightarrow> bool" where
  "nonempty_locks lm \<longleftrightarrow> (\<forall>p. \<forall>l \<in> set (locks_of p lm). lk_start l < lk_end l)"

lemma unlock_loop_nonempty:
  "\<forall>l \<in> set ls. lk_start l < lk_end l \<Longrightarrow> l \<in> set (unlock_loop owner lk ls) \<Longrightarrow>
     lk_start l < lk_end l"
  by (induction ls) (auto split: if_splits)

lemma nonempty_Setlk:
  assumes "nonempty_locks lm" and "Typ lk = F_UNLCK \<or> Start lk < End lk"
  shows "nonempty_locks (snd (Setlk p owner lk lm))"
proof (cases "Typ lk = F_UNLCK")
  case True
  with assms show ?thesis
    by (auto simp: nonempty_locks_def Setlk_unlock locks_of_unlockPosix dest: unlock_loop_nonempty
             split: if_splits)
next
  case False
  with assms show ?thesis by (auto simp: nonempty_locks_def Setlk_lock)
qed

lemma overlap_common_byte:
  fixes s1 :: uint64
  assumes "s1 < e1" and "s2 < e2"
  shows "s1 < e2 \<and> s2 < e1 \<longleftrightarrow> (\<exists>b. s1 \<le> b \<and> b < e1 \<and> s2 \<le> b \<and> b < e2)"
proof
  assume "s1 < e2 \<and> s2 < e1"
  with assms have "s1 \<le> max s1 s2 \<and> max s1 s2 < e1 \<and> s2 \<le> max s1 s2 \<and> max s1 s2 < e2" by simp
  then show "\<exists>b. s1 \<le> b \<and> b < e1 \<and> s2 \<le> b \<and> b < e2" ..
qed auto

lemma conflict_refines:
  assumes "nonempty_locks lm" and "Start lk < End lk"
  shows "(\<exists>m \<in> set (locks_of p lm). lock_conflict (new_lock owner lk) m) \<longleftrightarrow>
    spec_conflict p owner lk (byte_table lm)"
proof -
  have "lock_conflict (new_lock owner lk) m \<longleftrightarrow> lk_owner m \<noteq> owner \<and>
      (\<exists>b. in_range lk b \<and> covers m b) \<and> (Typ lk = F_WRLCK \<or> lk_typ m = F_WRLCK)"
    if "m \<in> set (locks_of p lm)" for m
    using that assms overlap_common_byte [of "Start lk" "End lk" "lk_start m" "lk_end m"]
    by (auto simp: nonempty_locks_def lock_conflict_def in_range_def covers_def)
  then show ?thesis by (fastforce simp: spec_conflict_def byte_table_def locked_at_def)
qed

lemma byte_table_Setlk:
  assumes "nonempty_locks lm" and "Typ lk = F_UNLCK \<or> Start lk < End lk"
  shows "byte_table (snd (Setlk p owner lk lm)) = spec_Setlk p owner lk (byte_table lm)"
proof (cases "Typ lk = F_UNLCK")
  case True
  then show ?thesis
    by (intro ext) (auto simp: Setlk_unlock byte_table_def locks_of_unlockPosix locked_at_unlock
                               spec_Setlk_def)
next
  case False
  have new: "covers (new_lock owner lk) b = in_range lk b" for b
    by (simp add: covers_def in_range_def)
  from False assms show ?thesis
    by (intro ext) (simp add: Setlk_lock conflict_refines spec_Setlk_def, simp add: byte_table_def new)
qed

lemma byte_table_step:
  assumes "nonempty_locks lm" and "names_bytes op"
  shows "byte_table (lock_step op lm) = spec_step op (byte_table lm)"
    and "nonempty_locks (lock_step op lm)"
proof -
  from assms show "byte_table (lock_step op lm) = spec_step op (byte_table lm)"
    by (cases op) (auto simp: byte_table_Setlk Setlkw_def byte_table_def locks_of_ReleaseOwner
                              locked_at_filter fun_eq_iff)
  show "nonempty_locks (lock_step op lm)"
    using assms nonempty_Setlk
    by (cases op) (auto simp: Setlkw_def nonempty_locks_def locks_of_ReleaseOwner)
qed

section \<open>Properties\<close>

lemma run_posix_inv: "posix_inv (lock_run ops)" and run_flock_inv: "flock_inv (lock_run ops)"
  using lock_inv_run [of ops] by (simp_all add: lock_inv_def)

lemma byte_table_fold:
  assumes "nonempty_locks lm" and "\<forall>op \<in> set ops. names_bytes op"
  shows "byte_table (fold lock_step ops lm) = fold spec_step ops (byte_table lm) \<and>
    nonempty_locks (fold lock_step ops lm)"
  using assms by (induction ops arbitrary: lm) (simp_all add: byte_table_step)

lemma nonempty_new: "nonempty_locks NewLockManager"
  and byte_table_new: "byte_table NewLockManager = (\<lambda>p b. {})"
  by (simp_all add: nonempty_locks_def byte_table_def fun_eq_iff)

text \<open>Example requests for the witnesses: bytes 0 to 9 of a file, read and write.\<close>

definition rd_0_10 :: FileLock where "rd_0_10 = \<lparr>Start = 0, End = 10, Typ = F_RDLCK, Pid = 7\<rparr>"

definition wr_0_10 :: FileLock where "wr_0_10 = \<lparr>Start = 0, End = 10, Typ = F_WRLCK, Pid = 7\<rparr>"

text \<open>C4: POSIX mutual exclusion. After any sequence of lock manager calls, in any order and by
  any owners, a byte that one owner holds a write lock on is held by no other owner.\<close>

theorem posix_mutual_exclusion:
  assumes "l \<in> set (locks_of path (lock_run ops))" and "m \<in> set (locks_of path (lock_run ops))"
    and "covers l b" and "covers m b" and "lk_typ l = F_WRLCK"
  shows "lk_owner m = lk_owner l"
proof -
  have "\<not> lock_conflict l m"
    using posix_inv_locks(2) [OF run_posix_inv] assms(1,2) by blast
  with assms(3-5) show ?thesis by (auto simp: lock_conflict_def covers_def)
qed

theorem posix_mutual_exclusion_witness:
  "let ops = [OpSetlk ''/f'' 1 wr_0_10, OpSetlk ''/f'' 2 rd_0_10] in
   \<exists>l \<in> set (locks_of ''/f'' (lock_run ops)). covers l 3 \<and> lk_typ l = F_WRLCK \<and> lk_owner l = 1"
proof -
  let ?ops = "[OpSetlk ''/f'' 1 wr_0_10, OpSetlk ''/f'' 2 rd_0_10]"
  let ?l = "new_lock 1 wr_0_10"
  have l: "?l \<in> set (locks_of ''/f'' (lock_run ?ops))"
    by (simp add: lock_run_def Setlk_def wr_0_10_def rd_0_10_def NewLockManager_def locks_of_def new_lock_def)
  have c: "covers ?l 3" "lk_typ ?l = F_WRLCK" by (simp_all add: covers_def wr_0_10_def)
  from posix_mutual_exclusion [OF l l c(1) c(1) c(2)] l c show ?thesis
    by (auto simp: Let_def intro!: bexI [of _ ?l])
qed

text \<open>C16: BSD mutual exclusion. After any sequence of lock manager calls, if a file's flock is
  exclusive then it has one owner, and every entry that exists has an owner and a proper mode.\<close>

theorem flock_mutual_exclusion:
  assumes "fmlookup (flocks (lock_run ops)) path = Some st"
  shows "(lockType st = LOCK_SH \<or> lockType st = LOCK_EX) \<and> owners st \<noteq> {||} \<and>
    (lockType st = LOCK_EX \<longrightarrow> (\<exists>x. owners st = {|x|}))"
proof -
  note st = flock_invD [OF run_flock_inv assms]
  have "\<exists>x. owners st = {|x|}" if "lockType st = LOCK_EX"
    using st(2) st(3) [OF that] fcard_1_singleton [of "owners st"] by auto
  with st show ?thesis by blast
qed

theorem flock_mutual_exclusion_witness:
  "owners (\<lparr>lockType = LOCK_EX, owners = {|5|}\<rparr>) \<noteq> {||} \<and>
   fmlookup (flocks (lock_run [OpFlock ''/f'' 5 LOCK_EX])) ''/f'' =
     Some \<lparr>lockType = LOCK_EX, owners = {|5|}\<rparr>"
proof -
  have *: "fmlookup (flocks (lock_run [OpFlock ''/f'' 5 LOCK_EX])) ''/f'' =
     Some \<lparr>lockType = LOCK_EX, owners = {|5|}\<rparr>"
    by (simp add: lock_run_def Flock_def NewLockManager_def)
  from flock_mutual_exclusion [OF *] * show ?thesis by blast
qed

text \<open>C8: the POSIX half refines the byte-level specification. After any sequence of calls whose
  lock requests name at least one byte, the types each owner holds at each byte of each file are
  those the abstract lock table computes: splitting a range on unlock, dropping a path and
  releasing an owner lose and invent nothing.\<close>

theorem posix_refines_byte_table:
  assumes "\<forall>op \<in> set ops. names_bytes op"
  shows "byte_table (lock_run ops) = fold spec_step ops (\<lambda>p b. {})"
  using byte_table_fold [OF nonempty_new assms] by (simp add: lock_run_def byte_table_new)

theorem posix_refines_byte_table_witness:
  "byte_table (lock_run [OpSetlk ''/f'' 1 wr_0_10,
      OpSetlk ''/f'' 1 \<lparr>Start = 3, End = 5, Typ = F_UNLCK, Pid = 7\<rparr>]) ''/f'' 4 = {}"
proof -
  let ?ops = "[OpSetlk ''/f'' 1 wr_0_10, OpSetlk ''/f'' 1 \<lparr>Start = 3, End = 5, Typ = F_UNLCK, Pid = 7\<rparr>]"
  have "\<forall>op \<in> set ?ops. names_bytes op" by (simp add: wr_0_10_def)
  from posix_refines_byte_table [OF this] show ?thesis
    by (simp add: spec_Setlk_def spec_conflict_def wr_0_10_def in_range_def)
qed

text \<open>C17: \<^verbatim>\<open>Setlk\<close> answers what the specification says. After such a sequence, a lock request gets
  \<^verbatim>\<open>EAGAIN\<close> exactly when some byte of it is held by another owner and one of the two is a write
  lock; then nothing changes; and an unlock always succeeds.\<close>

theorem Setlk_errno:
  assumes "\<forall>op \<in> set ops. names_bytes op" and "Start lk < End lk"
  shows "fst (Setlk path owner lk (lock_run ops)) =
      (if Typ lk \<noteq> F_UNLCK \<and> spec_conflict path owner lk (byte_table (lock_run ops))
       then EAGAIN else OK) \<and>
    (fst (Setlk path owner lk (lock_run ops)) = EAGAIN \<longrightarrow>
       snd (Setlk path owner lk (lock_run ops)) = lock_run ops)"
proof -
  have "nonempty_locks (lock_run ops)"
    using byte_table_fold [OF nonempty_new assms(1)] by (simp add: lock_run_def)
  with assms(2) show ?thesis
    by (cases "Typ lk = F_UNLCK") (simp_all add: Setlk_unlock Setlk_lock conflict_refines)
qed

theorem Setlk_errno_witness:
  "fst (Setlk ''/f'' 2 rd_0_10 (lock_run [OpSetlk ''/f'' 1 wr_0_10])) = EAGAIN"
proof -
  have ok: "\<forall>op \<in> set [OpSetlk ''/f'' 1 wr_0_10]. names_bytes op" by (simp add: wr_0_10_def)
  have se: "Start rd_0_10 < End rd_0_10" by (simp add: rd_0_10_def)
  have "byte_table (lock_run [OpSetlk ''/f'' 1 wr_0_10]) ''/f'' 3 = {(1, F_WRLCK)}"
    by (simp add: lock_run_def Setlk_def wr_0_10_def NewLockManager_def locks_of_def byte_table_def covers_def)
  then have "spec_conflict ''/f'' 2 rd_0_10 (byte_table (lock_run [OpSetlk ''/f'' 1 wr_0_10]))"
    unfolding spec_conflict_def by (intro exI [of _ 3] exI [of _ 1]) (simp add: in_range_def rd_0_10_def)
  with Setlk_errno [OF ok se, of "''/f''" 2] show ?thesis by (simp add: rd_0_10_def)
qed

text \<open>C38: \<^verbatim>\<open>Getlk\<close> predicts \<^verbatim>\<open>Setlk\<close>. In every reachable state, testing a lock answers \<^verbatim>\<open>F_UNLCK\<close>
  exactly when setting it would succeed, and otherwise it reports the range, type and pid of a
  lock of another owner that really blocks the request.\<close>

theorem Getlk_predicts_Setlk:
  assumes "Typ lk \<noteq> F_UNLCK"
  shows "(Typ (snd (Getlk path owner lk (lock_run ops))) = F_UNLCK \<longleftrightarrow>
      fst (Setlk path owner lk (lock_run ops)) = OK) \<and>
    (fst (Setlk path owner lk (lock_run ops)) \<noteq> OK \<longrightarrow>
      (\<exists>m \<in> set (locks_of path (lock_run ops)). lock_conflict (new_lock owner lk) m \<and>
         snd (Getlk path owner lk (lock_run ops)) = request_of m))"
proof -
  let ?lm = "lock_run ops"
  have test: "snd (Getlk path owner lk ?lm) = Getlk_loop owner lk (locks_of path ?lm)"
    by (simp add: Getlk_def locks_of_def split: option.split)
  have typs: "\<forall>m \<in> set (locks_of path ?lm). lk_typ m \<noteq> F_UNLCK"
    using posix_inv_locks(1) [OF run_posix_inv] by blast
  have grant: "fst (Setlk path owner lk ?lm) = OK \<longleftrightarrow> \<not> Setlk_conflict owner lk (locks_of path ?lm)"
    using assms by (simp add: Setlk_lock Setlk_conflict_iff)
  show ?thesis
    using Getlk_loop_iff [OF typs] Getlk_loop_reports by (auto simp: test grant request_of_def)
qed

theorem Getlk_predicts_Setlk_witness:
  "Typ (snd (Getlk ''/f'' 2 wr_0_10 (lock_run [OpSetlk ''/f'' 1 rd_0_10]))) = F_RDLCK \<and>
   fst (Setlk ''/f'' 2 wr_0_10 (lock_run [OpSetlk ''/f'' 1 rd_0_10])) \<noteq> OK"
proof -
  have t: "Typ wr_0_10 \<noteq> F_UNLCK" by (simp add: wr_0_10_def)
  have *: "Typ (snd (Getlk ''/f'' 2 wr_0_10 (lock_run [OpSetlk ''/f'' 1 rd_0_10]))) = F_RDLCK"
    by (simp add: lock_run_def Setlk_def Getlk_def wr_0_10_def rd_0_10_def NewLockManager_def locks_of_def)
  with Getlk_predicts_Setlk [OF t, of "''/f''" 2 "[OpSetlk ''/f'' 1 rd_0_10]"] show ?thesis by simp
qed

text \<open>C39: releasing an owner unblocks its waiters. In every reachable state, if every lock that
  conflicts with a request belongs to one owner, then after \<^verbatim>\<open>ReleaseOwner\<close> for that owner the
  request is granted, for byte-range and for BSD locks alike.\<close>

theorem release_unblocks:
  assumes "\<forall>m \<in> set (locks_of path (lock_run ops)). lock_conflict l m \<longrightarrow> lk_owner m = p"
    and "lk_typ l \<noteq> F_UNLCK"
    and "\<forall>c \<in> flock_held (lock_run ops). flock_conflicts (path, x, excl) c \<longrightarrow> fst (snd c) = p"
  shows "fst (Setlk path (lk_owner l) (request_of l) (ReleaseOwner p (lock_run ops))) = OK \<and>
    fst (Flock path x (if excl then LOCK_EX else LOCK_SH) (ReleaseOwner p (lock_run ops))) = OK"
proof
  have "fst (posix_acquire (path, l) (ReleaseOwner p (lock_run ops)))"
    using assms(1,2)
    by (intro posix.release_then_acquire) (auto simp: run_posix_inv posix_held_def posix_conflicts_def)
  then show "fst (Setlk path (lk_owner l) (request_of l) (ReleaseOwner p (lock_run ops))) = OK"
    by (simp add: posix_acquire_def)
  have "fst (flock_acquire (path, x, excl) (ReleaseOwner p (lock_run ops)))"
    using assms(3) by (intro flock.release_then_acquire) (auto simp: run_flock_inv)
  then show "fst (Flock path x (if excl then LOCK_EX else LOCK_SH) (ReleaseOwner p (lock_run ops))) = OK"
    by (simp add: flock_acquire_def)
qed

theorem release_unblocks_witness:
  "let ops = [OpSetlk ''/f'' 1 wr_0_10, OpFlock ''/f'' 1 LOCK_EX] in
   fst (Setlk ''/f'' 2 wr_0_10 (lock_run ops)) = EAGAIN \<and>
   fst (Setlk ''/f'' 2 (request_of (new_lock 2 wr_0_10)) (ReleaseOwner 1 (lock_run ops))) = OK"
proof -
  let ?ops = "[OpSetlk ''/f'' 1 wr_0_10, OpFlock ''/f'' 1 LOCK_EX]"
  have run: "lock_run ?ops = \<lparr>flocks = fmupd ''/f'' \<lparr>lockType = LOCK_EX, owners = {|1|}\<rparr> fmempty,
      posixLocks = fmupd ''/f'' [new_lock 1 wr_0_10] fmempty\<rparr>"
    by (simp add: lock_run_def Setlk_def Flock_def wr_0_10_def NewLockManager_def locks_of_def new_lock_def)
  have 1: "\<forall>m \<in> set (locks_of ''/f'' (lock_run ?ops)). lock_conflict (new_lock 2 wr_0_10) m \<longrightarrow> lk_owner m = 1"
    by (simp add: run locks_of_def)
  have 2: "lk_typ (new_lock 2 wr_0_10) \<noteq> F_UNLCK" by (simp add: wr_0_10_def)
  have 3: "\<forall>c \<in> flock_held (lock_run ?ops). flock_conflicts (''/f'', 2, True) c \<longrightarrow> fst (snd c) = 1"
    by (auto simp: run flock_held_def split: if_splits)
  have "fst (Setlk ''/f'' 2 wr_0_10 (lock_run ?ops)) = EAGAIN"
    by (simp add: run Setlk_def locks_of_def) (simp add: wr_0_10_def)
  with release_unblocks [OF 1 2 3] show ?thesis by (simp add: Let_def)
qed

text \<open>The non-blocking flag has no effect. On linux \<^verbatim>\<open>EWOULDBLOCK\<close> and \<^verbatim>\<open>EAGAIN\<close> are one
  number, so \<^verbatim>\<open>Flock\<close> with and without \<^verbatim>\<open>LOCK_NB\<close> answers and changes the same, and a request
  without the flag that conflicts is refused instead of waiting.\<close>

theorem Flock_NB_irrelevant:
  "Flock path owner (flags OR LOCK_NB) lm = Flock path owner flags lm"
proof -
  have "(flags OR LOCK_NB) AND LOCK_UN = flags AND LOCK_UN"
    and "(flags OR LOCK_NB) AND LOCK_EX = flags AND LOCK_EX"
    by (simp_all add: bit.conj_disj_distrib2)
  then show ?thesis unfolding Flock_def by (simp split: option.split)
qed

text \<open>A lock of the same owner is not replaced. After a write lock, a read lock by the same
  owner on the same range is granted but the write lock stays, so the owner cannot downgrade:
  another owner's read lock on any overlapping range is still refused.\<close>

theorem Setlk_no_downgrade:
  assumes "fst (Setlk path owner w lm) = OK" and "Typ w = F_WRLCK" and "Typ r = F_RDLCK"
    and "other \<noteq> owner" and "Start q < End w" and "Start w < End q" and "Typ q \<noteq> F_UNLCK"
  shows "fst (Setlk path other q (snd (Setlk path owner r (snd (Setlk path owner w lm))))) = EAGAIN"
proof -
  have w: "new_lock owner w \<in> set (locks_of path (snd (Setlk path owner w lm)))"
    using assms(1,2) by (auto simp: Setlk_lock split: if_splits)
  then have "new_lock owner w \<in> set (locks_of path (snd (Setlk path owner r (snd (Setlk path owner w lm)))))"
    using assms(3) by (simp add: Setlk_lock)
  moreover have "lock_conflict (new_lock other q) (new_lock owner w)"
    using assms by (simp add: lock_conflict_def)
  ultimately show ?thesis using assms(7) by (auto simp: Setlk_lock)
qed

theorem Setlk_no_downgrade_witness:
  "fst (Setlk ''/f'' 2 rd_0_10 (snd (Setlk ''/f'' 1 rd_0_10 (snd (Setlk ''/f'' 1 wr_0_10 NewLockManager))))) = EAGAIN"
proof -
  have "fst (Setlk ''/f'' 1 wr_0_10 NewLockManager) = OK"
    by (simp add: Setlk_def wr_0_10_def NewLockManager_def locks_of_def)
  then show ?thesis
    by (rule Setlk_no_downgrade) (simp_all add: wr_0_10_def rd_0_10_def)
qed

end
