(* ===== verification/Go_Errors.thy ===== *)
theory Go_Errors
  imports Fusefs_Prelude
begin

text \<open>
  Go error values and the error mapper of \<^verbatim>\<open>errors.go\<close>. An error of the underlying file
  system is one of the sentinels of package \<^verbatim>\<open>os\<close> and \<^verbatim>\<open>io\<close>, a \<^verbatim>\<open>syscall.Errno\<close>, an opaque
  error, or an error that wraps one (\<^verbatim>\<open>PathError\<close>, \<^verbatim>\<open>%w\<close>) or several (\<^verbatim>\<open>errors.Join\<close>) others.
  \<open>errors_Is\<close> and \<open>errors_As_Errno\<close> follow the standard library's depth-first walk of that tree;
  \<open>Errno_Is\<close> is the \<^verbatim>\<open>Is\<close> method of \<^verbatim>\<open>syscall.Errno\<close> on unix.
\<close>

section \<open>Error values\<close>

datatype goerr =
    ErrNotExist
  | ErrExist
  | ErrPermission
  | ErrClosed
  | ErrInvalid
  | EOF
  | Errno errno
  | ErrorString string
  | Wrap string goerr
  | Joined "goerr list"

fun Errno_Is :: "errno \<Rightarrow> goerr \<Rightarrow> bool" where
  "Errno_Is e ErrPermission = (e = EACCES \<or> e = EPERM)"
| "Errno_Is e ErrExist = (e = EEXIST \<or> e = ENOTEMPTY)"
| "Errno_Is e ErrNotExist = (e = ENOENT)"
| "Errno_Is e _ = False"

fun errors_Is :: "goerr \<Rightarrow> goerr \<Rightarrow> bool" where
  "errors_Is (Errno e) target = (Errno e = target \<or> Errno_Is e target)"
| "errors_Is (Wrap msg e) target = (Wrap msg e = target \<or> errors_Is e target)"
| "errors_Is (Joined es) target = (Joined es = target \<or> list_ex (\<lambda>e. errors_Is e target) es)"
| "errors_Is err target = (err = target)"

fun errors_As_Errno :: "goerr \<Rightarrow> errno option" where
  "errors_As_Errno (Errno e) = Some e"
| "errors_As_Errno (Wrap msg e) = errors_As_Errno e"
| "errors_As_Errno (Joined es) =
     fold (\<lambda>r acc. case acc of None \<Rightarrow> r | Some _ \<Rightarrow> acc) (map errors_As_Errno es) None"
| "errors_As_Errno _ = None"

section \<open>The error mapper\<close>

definition mapError :: "goerr option \<Rightarrow> errno" where
  "mapError err = (case err of
     None \<Rightarrow> OK
   | Some err \<Rightarrow>
       if errors_Is err ErrNotExist then ENOENT
       else if errors_Is err ErrExist then EEXIST
       else if errors_Is err ErrPermission then EACCES
       else if errors_Is err ErrClosed then EBADF
       else if errors_Is err ErrInvalid then EINVAL
       else if errors_Is err EOF then OK
       else (case errors_As_Errno err of
               Some errno \<Rightarrow> errno
             | None \<Rightarrow> EIO))"

section \<open>Lemmas\<close>

text \<open>The sentinels the mapper asks for; none of them is itself a wrapper.\<close>

fun is_sentinel :: "goerr \<Rightarrow> bool" where
  "is_sentinel ErrNotExist = True"
| "is_sentinel ErrExist = True"
| "is_sentinel ErrPermission = True"
| "is_sentinel ErrClosed = True"
| "is_sentinel ErrInvalid = True"
| "is_sentinel EOF = True"
| "is_sentinel _ = False"

lemma errors_Is_Wrap: "is_sentinel t \<Longrightarrow> errors_Is (Wrap msg e) t = errors_Is e t"
  by (cases t) auto

text \<open>A stack of wrappers around one cause.\<close>

fun wrap_all :: "string list \<Rightarrow> goerr \<Rightarrow> goerr" where
  "wrap_all [] e = e"
| "wrap_all (m # ms) e = Wrap m (wrap_all ms e)"

lemma mapError_None [simp]: "mapError None = OK"
  by (simp add: mapError_def)

lemma mapError_Wrap: "mapError (Some (Wrap msg e)) = mapError (Some e)"
  by (simp add: mapError_def)

lemma mapError_Errno:
  "mapError (Some (Errno e)) =
     (if e = EPERM then EACCES else if e = ENOTEMPTY then EEXIST else e)"
  by (auto simp: mapError_def)

text \<open>Wrapping an error, any number of times and with any messages, never changes the errno
  the kernel sees.\<close>

theorem mapError_wrap_all: "mapError (Some (wrap_all msgs e)) = mapError (Some e)"
  by (induction msgs) (simp_all add: mapError_Wrap)

end
