(* ===== verification/Abs_Fs.thy ===== *)
theory Abs_Fs
  imports Go_Errors
begin

text \<open>
  The file system below the adapter. \<^verbatim>\<open>absfs.FileSystem\<close> and \<^verbatim>\<open>absfs.File\<close> are interfaces of another
  module, so the model takes them as a parameter: a record of the methods the adapter calls, over
  a state \<open>'b\<close> of the backend and file values \<open>'f\<close>. A method the code reaches through a type
  assertion is an \<open>option\<close>: \<open>None\<close> when the dynamic type does not have it. A Go method that returns
  \<^verbatim>\<open>(x, error)\<close> answers \<open>Inl\<close> the error or \<open>Inr\<close> the value. No law is assumed of any method here.
\<close>

section \<open>What the standard library describes\<close>

text \<open>\<^verbatim>\<open>os.FileInfo\<close>: its methods as fields. \<open>fi_ModTime\<close> is in nanoseconds since 1970;
  \<open>fi_Sys\<close> is the uid and gid when \<^verbatim>\<open>Sys()\<close> is a \<^verbatim>\<open>*syscall.Stat_t\<close>.\<close>

record FileInfo =
  fi_Name :: string
  fi_Size :: int64
  fi_Mode :: uint32
  fi_ModTime :: int
  fi_IsDir :: bool
  fi_Sys :: "(uint32 \<times> uint32) option"

section \<open>Optional interfaces the adapter declares\<close>

record 'b XAttrFS =
  xa_Get :: "string \<Rightarrow> string \<Rightarrow> 'b \<Rightarrow> (goerr + bytes) \<times> 'b"
  xa_Set :: "string \<Rightarrow> string \<Rightarrow> bytes \<Rightarrow> uint64 \<Rightarrow> 'b \<Rightarrow> goerr option \<times> 'b"
  xa_List :: "string \<Rightarrow> 'b \<Rightarrow> (goerr + bytes list) \<times> 'b"
  xa_Remove :: "string \<Rightarrow> string \<Rightarrow> 'b \<Rightarrow> goerr option \<times> 'b"

text \<open>The results of \<^verbatim>\<open>StatFSer.StatFS\<close> besides the error.\<close>

record StatFS =
  sf_total :: uint64
  sf_free :: uint64
  sf_avail :: uint64
  sf_totalInodes :: uint64
  sf_freeInodes :: uint64
  sf_blockSize :: uint32
  sf_nameMax :: uint32

section \<open>The backend\<close>

text \<open>\<open>f_Read\<close> takes the length of the buffer and answers the bytes it put there and the error, as
  \<^verbatim>\<open>io.Reader\<close> does (both may be present); \<open>f_Seek\<close> is with \<^verbatim>\<open>io.SeekStart\<close>; \<open>f_Write\<close> answers the
  number of bytes written.\<close>

record ('b, 'f) absFS =
  fs_Stat :: "string \<Rightarrow> 'b \<Rightarrow> (goerr + FileInfo) \<times> 'b"
  fs_OpenFile :: "string \<Rightarrow> uint64 \<Rightarrow> uint32 \<Rightarrow> 'b \<Rightarrow> (goerr + 'f) \<times> 'b"
  fs_Open :: "string \<Rightarrow> 'b \<Rightarrow> (goerr + 'f) \<times> 'b"
  fs_Mkdir :: "string \<Rightarrow> uint32 \<Rightarrow> 'b \<Rightarrow> goerr option \<times> 'b"
  fs_Remove :: "string \<Rightarrow> 'b \<Rightarrow> goerr option \<times> 'b"
  fs_Rename :: "string \<Rightarrow> string \<Rightarrow> 'b \<Rightarrow> goerr option \<times> 'b"
  fs_Chtimes :: "string \<Rightarrow> int \<Rightarrow> int \<Rightarrow> 'b \<Rightarrow> goerr option \<times> 'b"
  fs_Chmod :: "(string \<Rightarrow> uint32 \<Rightarrow> 'b \<Rightarrow> goerr option \<times> 'b) option"
  fs_Symlink :: "(string \<Rightarrow> string \<Rightarrow> 'b \<Rightarrow> goerr option \<times> 'b) option"
  fs_Lstat :: "(string \<Rightarrow> 'b \<Rightarrow> (goerr + FileInfo) \<times> 'b) option"
  fs_Link :: "(string \<Rightarrow> string \<Rightarrow> 'b \<Rightarrow> goerr option \<times> 'b) option"
  fs_Readlink :: "(string \<Rightarrow> 'b \<Rightarrow> (goerr + bytes) \<times> 'b) option"
  fs_XAttr :: "'b XAttrFS option"
  fs_StatFS :: "('b \<Rightarrow> (goerr + StatFS) \<times> 'b) option"
  f_Seek :: "'f \<Rightarrow> (int64 \<Rightarrow> 'b \<Rightarrow> goerr option \<times> 'b) option"
  f_Read :: "'f \<Rightarrow> nat \<Rightarrow> 'b \<Rightarrow> (bytes \<times> goerr option) \<times> 'b"
  f_Write :: "'f \<Rightarrow> bytes \<Rightarrow> 'b \<Rightarrow> (uint64 \<times> goerr option) \<times> 'b"
  f_Close :: "'f \<Rightarrow> 'b \<Rightarrow> goerr option \<times> 'b"
  f_Stat :: "'f \<Rightarrow> 'b \<Rightarrow> (goerr + FileInfo) \<times> 'b"
  f_Readdir :: "'f \<Rightarrow> 'b \<Rightarrow> (goerr + FileInfo list) \<times> 'b"
  f_Sync :: "'f \<Rightarrow> ('b \<Rightarrow> goerr option \<times> 'b) option"
  f_Truncate :: "'f \<Rightarrow> (int64 \<Rightarrow> 'b \<Rightarrow> goerr option \<times> 'b) option"
  f_Allocate :: "'f \<Rightarrow> (int64 \<Rightarrow> int64 \<Rightarrow> 'b \<Rightarrow> goerr option \<times> 'b) option"

end
