(* ===== verification/Lru_Cache.thy ===== *)
theory Lru_Cache
  imports Fusefs_Prelude
begin

text \<open>
  The LRU cache with expiry of \<^verbatim>\<open>cache.go\<close>. The code keeps two structures: \<^verbatim>\<open>items\<close>, a map from
  keys to list elements, and \<^verbatim>\<open>lruList\<close>, a \<^verbatim>\<open>container/list\<close> whose elements hold the entries, most
  recently used first. The model keeps both: an element is a number (its address), the list holds
  elements with their entries. \<open>lru_inv\<close> says that the two agree; under it the cache refines a
  single recency list (\<open>spec_Get\<close>, \<open>spec_Put\<close>, \<open>spec_Delete\<close>). The locale \<open>ttl_cache\<close> is what the
  inode manager relies on.

  Times are nanoseconds on the clock that \<^verbatim>\<open>time.Now\<close> reads; every method takes the reading it
  makes as an argument. Each method holds the cache's mutex throughout.
\<close>

section \<open>Time\<close>

text \<open>\<^verbatim>\<open>time.Since\<close> saturates at the bounds of \<^verbatim>\<open>time.Duration\<close>, an \<^verbatim>\<open>int64\<close>.\<close>

definition time_Since :: "int \<Rightarrow> int \<Rightarrow> int" where
  "time_Since now t = max (- (2 ^ 63)) (min (2 ^ 63 - 1) (now - t))"

section \<open>Doubly linked lists of \<^verbatim>\<open>container/list\<close>\<close>

text \<open>A list is its elements, front first, each with its value.\<close>

type_synonym 'a linked_list = "(nat \<times> 'a) list"

definition list_Value :: "'a linked_list \<Rightarrow> nat \<Rightarrow> 'a option" where
  "list_Value l e = map_of l e"

definition list_Remove :: "nat \<Rightarrow> 'a linked_list \<Rightarrow> 'a linked_list" where
  "list_Remove e l = filter (\<lambda>(d, v). d \<noteq> e) l"

definition list_PushFront :: "nat \<Rightarrow> 'a \<Rightarrow> 'a linked_list \<Rightarrow> 'a linked_list" where
  "list_PushFront e v l = (e, v) # l"

definition list_MoveToFront :: "nat \<Rightarrow> 'a linked_list \<Rightarrow> 'a linked_list" where
  "list_MoveToFront e l = (case map_of l e of None \<Rightarrow> l | Some v \<Rightarrow> (e, v) # list_Remove e l)"

definition list_Back :: "'a linked_list \<Rightarrow> (nat \<times> 'a) option" where
  "list_Back l = (if l = [] then None else Some (last l))"

text \<open>Assigning through the pointer stored in an element.\<close>

definition list_assign :: "nat \<Rightarrow> ('a \<Rightarrow> 'a) \<Rightarrow> 'a linked_list \<Rightarrow> 'a linked_list" where
  "list_assign e f l = map (\<lambda>(d, v). (d, if d = e then f v else v)) l"

section \<open>The cache\<close>

record 'v lruEntry =
  le_key :: string
  le_value :: 'v
  le_timestamp :: int

record 'v lruCache =
  maxSize :: int
  ttl :: int
  items :: "(string, nat) fmap"
  lruList :: "'v lruEntry linked_list"
  nextElem :: nat \<comment> \<open>the address the next list element is allocated at\<close>
  hits :: uint64
  misses :: uint64
  evictions :: uint64

definition newLRUCache :: "int \<Rightarrow> int \<Rightarrow> 'v lruCache" where
  "newLRUCache cap life = \<lparr>maxSize = cap, ttl = life, items = fmempty, lruList = [],
     nextElem = 0, hits = 0, misses = 0, evictions = 0\<rparr>"

definition lru_remove :: "string \<Rightarrow> nat \<Rightarrow> 'v lruCache \<Rightarrow> 'v lruCache" where
  "lru_remove key elem c =
     c\<lparr>lruList := list_Remove elem (lruList c), items := fmdrop key (items c)\<rparr>"

definition evictOldest :: "'v lruCache \<Rightarrow> 'v lruCache" where
  "evictOldest c = (case list_Back (lruList c) of
     None \<Rightarrow> c
   | Some (elem, entry) \<Rightarrow>
       let c = lru_remove (le_key entry) elem c in c\<lparr>evictions := evictions c + 1\<rparr>)"

text \<open>\<^verbatim>\<open>Get\<close> returns \<open>None\<close> for \<^verbatim>\<open>(nil, false)\<close>. The last branch, an element of \<^verbatim>\<open>items\<close> that is not
  in the list, is excluded by \<open>lru_inv\<close>.\<close>

definition lru_Get :: "int \<Rightarrow> string \<Rightarrow> 'v lruCache \<Rightarrow> 'v option \<times> 'v lruCache" where
  "lru_Get now key c = (case fmlookup (items c) key of
     None \<Rightarrow> (None, c\<lparr>misses := misses c + 1\<rparr>)
   | Some elem \<Rightarrow> (case list_Value (lruList c) elem of
       Some entry \<Rightarrow>
         if ttl c > 0 \<and> time_Since now (le_timestamp entry) > ttl c
         then let c = lru_remove key elem c in (None, c\<lparr>misses := misses c + 1\<rparr>)
         else (Some (le_value entry),
               c\<lparr>lruList := list_MoveToFront elem (lruList c), hits := hits c + 1\<rparr>)
     | None \<Rightarrow> (None, c)))"

definition lru_Put :: "int \<Rightarrow> string \<Rightarrow> 'v \<Rightarrow> 'v lruCache \<Rightarrow> 'v lruCache" where
  "lru_Put now key v c = (case fmlookup (items c) key of
     Some elem \<Rightarrow>
       c\<lparr>lruList := list_MoveToFront elem
            (list_assign elem (\<lambda>entry. entry\<lparr>le_value := v, le_timestamp := now\<rparr>) (lruList c))\<rparr>
   | None \<Rightarrow>
       let entry = \<lparr>le_key = key, le_value = v, le_timestamp = now\<rparr>;
           elem = nextElem c;
           c = c\<lparr>lruList := list_PushFront elem entry (lruList c), nextElem := Suc elem,
                 items := fmupd key elem (items c)\<rparr>
       in if maxSize c > 0 \<and> int (length (lruList c)) > maxSize c then evictOldest c else c)"

definition lru_Delete :: "string \<Rightarrow> 'v lruCache \<Rightarrow> 'v lruCache" where
  "lru_Delete key c = (case fmlookup (items c) key of
     None \<Rightarrow> c | Some elem \<Rightarrow> lru_remove key elem c)"

definition lru_Clear :: "'v lruCache \<Rightarrow> 'v lruCache" where
  "lru_Clear c = c\<lparr>items := fmempty, lruList := []\<rparr>"

definition lru_Len :: "'v lruCache \<Rightarrow> nat" where
  "lru_Len c = length (lruList c)"

text \<open>The hit rate is the quotient before rounding to a \<^verbatim>\<open>float64\<close>; the sum in its test wraps.\<close>

record CacheStats =
  cs_Size :: nat
  cs_MaxSize :: int
  cs_Hits :: uint64
  cs_Misses :: uint64
  cs_Evictions :: uint64
  cs_HitRate :: rat

definition lru_Stats :: "'v lruCache \<Rightarrow> CacheStats" where
  "lru_Stats c =
     (let total = hits c + misses c;
          hitRate = (if total > 0 then of_nat (unat (hits c)) / of_nat (unat total) else 0)
      in \<lparr>cs_Size = length (lruList c), cs_MaxSize = maxSize c, cs_Hits = hits c,
          cs_Misses = misses c, cs_Evictions = evictions c, cs_HitRate = hitRate\<rparr>)"

section \<open>Specification: one recency list\<close>

text \<open>The abstract cache: entries with distinct keys, most recently used first. \<open>cap\<close> and \<open>life\<close> are
  the configuration.\<close>

type_synonym 'v recency = "(string \<times> 'v \<times> int) list"

definition spec_expired :: "int \<Rightarrow> int \<Rightarrow> int \<Rightarrow> bool" where
  "spec_expired life now t \<longleftrightarrow> life > 0 \<and> time_Since now t > life"

definition without :: "string \<Rightarrow> 'v recency \<Rightarrow> 'v recency" where
  "without k r = filter (\<lambda>(k', v, t). k' \<noteq> k) r"

definition spec_Get :: "int \<Rightarrow> int \<Rightarrow> string \<Rightarrow> 'v recency \<Rightarrow> 'v option \<times> 'v recency" where
  "spec_Get life now k r = (case map_of r k of
     None \<Rightarrow> (None, r)
   | Some (v, t) \<Rightarrow> if spec_expired life now t then (None, without k r)
                   else (Some v, (k, v, t) # without k r))"

definition spec_Put :: "int \<Rightarrow> int \<Rightarrow> string \<Rightarrow> 'v \<Rightarrow> 'v recency \<Rightarrow> 'v recency" where
  "spec_Put cap now k v r =
     (if map_of r k = None \<and> cap > 0 \<and> int (length r) \<ge> cap
      then butlast ((k, v, now) # r) else (k, v, now) # without k r)"

definition recency_of :: "'v lruCache \<Rightarrow> 'v recency" where
  "recency_of c = map (\<lambda>(e, en). (le_key en, le_value en, le_timestamp en)) (lruList c)"

definition lru_inv :: "'v lruCache \<Rightarrow> bool" where
  "lru_inv c \<longleftrightarrow> distinct (map fst (lruList c)) \<and>
     (\<forall>e \<in> fst ` set (lruList c). e < nextElem c) \<and>
     (\<forall>k e. fmlookup (items c) k = Some e \<longleftrightarrow> (\<exists>en. (e, en) \<in> set (lruList c) \<and> le_key en = k)) \<and>
     (maxSize c > 0 \<longrightarrow> int (length (lruList c)) \<le> maxSize c)"

section \<open>Interface: a cache with expiry\<close>

text \<open>\<open>entries\<close> is what the cache could answer, with the time of each value's \<open>put\<close>.\<close>

datatype 'v cache_op =
    OpGet int string
  | OpPut int string 'v
  | OpDelete string
  | OpClear

fun cache_step :: "(int \<Rightarrow> string \<Rightarrow> 'c \<Rightarrow> 'v option \<times> 'c) \<Rightarrow> (int \<Rightarrow> string \<Rightarrow> 'v \<Rightarrow> 'c \<Rightarrow> 'c) \<Rightarrow>
    (string \<Rightarrow> 'c \<Rightarrow> 'c) \<Rightarrow> ('c \<Rightarrow> 'c) \<Rightarrow> 'v cache_op \<Rightarrow> 'c \<Rightarrow> 'c" where
  "cache_step get put delete clear (OpGet now k) c = snd (get now k c)"
| "cache_step get put delete clear (OpPut now k v) c = put now k v c"
| "cache_step get put delete clear (OpDelete k) c = delete k c"
| "cache_step get put delete clear OpClear c = clear c"

text \<open>The last value stored under each key and not deleted since, as a plain history would say.\<close>

fun stored :: "'v cache_op \<Rightarrow> (string \<Rightarrow> ('v \<times> int) option) \<Rightarrow> (string \<Rightarrow> ('v \<times> int) option)" where
  "stored (OpGet now k) h = h"
| "stored (OpPut now k v) h = h(k \<mapsto> (v, now))"
| "stored (OpDelete k) h = h(k := None)"
| "stored OpClear h = Map.empty"

locale ttl_cache =
  fixes get :: "int \<Rightarrow> string \<Rightarrow> 'c \<Rightarrow> 'v option \<times> 'c"
    and put :: "int \<Rightarrow> string \<Rightarrow> 'v \<Rightarrow> 'c \<Rightarrow> 'c"
    and delete :: "string \<Rightarrow> 'c \<Rightarrow> 'c"
    and clear :: "'c \<Rightarrow> 'c"
    and entries :: "'c \<Rightarrow> string \<Rightarrow> ('v \<times> int) option"
    and expired :: "'c \<Rightarrow> int \<Rightarrow> int \<Rightarrow> bool"
    and inv :: "'c \<Rightarrow> bool"
  assumes inv_get: "inv c \<Longrightarrow> inv (snd (get now k c))"
    and inv_put: "inv c \<Longrightarrow> inv (put now k v c)"
    and inv_delete: "inv c \<Longrightarrow> inv (delete k c)"
    and inv_clear: "inv c \<Longrightarrow> inv (clear c)"
    and get_result: "inv c \<Longrightarrow> fst (get now k c) = (case entries c k of
          None \<Rightarrow> None | Some (v, t) \<Rightarrow> if expired c now t then None else Some v)"
    and get_entries: "inv c \<Longrightarrow> entries (snd (get now k c)) \<subseteq>\<^sub>m entries c"
    and get_keeps: "inv c \<Longrightarrow> fst (get now k c) \<noteq> None \<Longrightarrow> entries (snd (get now k c)) = entries c"
    and put_self: "inv c \<Longrightarrow> entries (put now k v c) k = Some (v, now)"
    and put_entries: "inv c \<Longrightarrow> entries (put now k v c) \<subseteq>\<^sub>m (entries c)(k \<mapsto> (v, now))"
    and delete_entries: "inv c \<Longrightarrow> entries (delete k c) = (entries c)(k := None)"
    and clear_entries: "inv c \<Longrightarrow> entries (clear c) = Map.empty"
    and expired_get: "expired (snd (get now k c)) = expired c"
    and expired_put: "expired (put now k v c) = expired c"
    and expired_delete: "expired (delete k c) = expired c"
    and expired_clear: "expired (clear c) = expired c"
begin

lemma get_after_put:
  "inv c \<Longrightarrow> fst (get now' k (put now k v c)) = (if expired c now' now then None else Some v)"
  by (simp add: get_result inv_put put_self expired_put)

lemma get_after_delete: "inv c \<Longrightarrow> fst (get now k (delete k c)) = None"
  by (simp add: get_result inv_delete delete_entries)

lemma step_inv: "inv c \<Longrightarrow> inv (cache_step get put delete clear op c)"
  by (cases op) (simp_all add: inv_get inv_put inv_delete inv_clear)

lemma step_expired: "expired (cache_step get put delete clear op c) = expired c"
  by (cases op) (simp_all add: expired_get expired_put expired_delete expired_clear)

lemma step_entries:
  assumes "inv c" and "entries c \<subseteq>\<^sub>m h"
  shows "entries (cache_step get put delete clear op c) \<subseteq>\<^sub>m stored op h"
proof (cases op)
  case (OpGet now k)
  then show ?thesis using assms get_entries map_le_trans by fastforce
next
  case (OpPut now k v)
  have "(entries c)(k \<mapsto> (v, now)) \<subseteq>\<^sub>m h(k \<mapsto> (v, now))" using assms(2) by (rule map_le_upd)
  with OpPut put_entries [OF assms(1)] map_le_trans show ?thesis by fastforce
next
  case (OpDelete k)
  then show ?thesis using assms by (auto simp: delete_entries map_le_def dom_def)
next
  case OpClear
  then show ?thesis using assms by (simp add: clear_entries)
qed

lemma run_facts:
  assumes "inv c" and "entries c \<subseteq>\<^sub>m h"
  shows "inv (fold (cache_step get put delete clear) ops c) \<and>
    expired (fold (cache_step get put delete clear) ops c) = expired c \<and>
    entries (fold (cache_step get put delete clear) ops c) \<subseteq>\<^sub>m fold stored ops h"
  using assms
proof (induction ops arbitrary: c h)
  case Nil
  then show ?case by simp
next
  case (Cons op ops)
  from Cons.IH [OF step_inv [OF Cons.prems(1)] step_entries [OF Cons.prems]]
  show ?case by (simp add: step_expired)
qed

lemma no_stale_hit:
  assumes "inv c" and "entries c \<subseteq>\<^sub>m h"
    and hit: "fst (get now k (fold (cache_step get put delete clear) ops c)) = Some v"
  shows "\<exists>t. fold stored ops h k = Some (v, t) \<and> \<not> expired c now t"
proof -
  let ?c = "fold (cache_step get put delete clear) ops c"
  note run = run_facts [OF assms(1,2), of ops]
  from hit run obtain t where "entries ?c k = Some (v, t)" and "\<not> expired c now t"
    by (auto simp: get_result split: option.splits if_splits)
  moreover have "fold stored ops h k = Some (v, t)"
    using run calculation(1) by (metis domI map_le_def)
  ultimately show ?thesis by blast
qed

end

section \<open>The two structures agree\<close>

definition recency :: "'v lruEntry linked_list \<Rightarrow> 'v recency" where
  "recency l = map (\<lambda>(e, en). (le_key en, le_value en, le_timestamp en)) l"

lemma recency_of_eq: "recency_of c = recency (lruList c)"
  by (simp add: recency_of_def recency_def)

lemma recency_simps [simp]:
  "recency [] = []"
  "recency ((e, en) # l) = (le_key en, le_value en, le_timestamp en) # recency l"
  "length (recency l) = length l"
  "recency l = [] \<longleftrightarrow> l = []"
  by (simp_all add: recency_def)

lemma recency_butlast: "recency (butlast l) = butlast (recency l)"
  by (simp add: recency_def map_butlast)

text \<open>The map entry of a key: its element is in the list, and it is the only one with that key.\<close>

definition keyed :: "'v lruEntry linked_list \<Rightarrow> string \<Rightarrow> nat \<Rightarrow> bool" where
  "keyed l k e \<longleftrightarrow> e \<in> fst ` set l \<and> (\<forall>(d, en) \<in> set l. d = e \<longleftrightarrow> le_key en = k)"

lemma lru_invD:
  assumes "lru_inv c"
  shows "distinct (map fst (lruList c))"
    and "e \<in> fst ` set (lruList c) \<Longrightarrow> e < nextElem c"
    and "fmlookup (items c) k = Some e \<longleftrightarrow> (\<exists>en. (e, en) \<in> set (lruList c) \<and> le_key en = k)"
    and "maxSize c > 0 \<Longrightarrow> int (length (lruList c)) \<le> maxSize c"
  using assms by (auto simp: lru_inv_def)

lemma lru_inv_keyed:
  assumes "lru_inv c" and "fmlookup (items c) k = Some e"
  shows "keyed (lruList c) k e"
proof -
  from lru_invD(3) [OF assms(1)] assms(2)
  obtain en where en: "(e, en) \<in> set (lruList c)" "le_key en = k" by blast
  have "d = e \<longleftrightarrow> le_key en' = k" if "(d, en') \<in> set (lruList c)" for d en'
  proof
    assume "d = e"
    with that en lru_invD(1) [OF assms(1)] have "en' = en" by (simp add: eq_key_imp_eq_value)
    with en show "le_key en' = k" by simp
  next
    assume "le_key en' = k"
    with that lru_invD(3) [OF assms(1)] have "fmlookup (items c) k = Some d" by blast
    with assms(2) show "d = e" by simp
  qed
  with en(1) show ?thesis by (force simp: keyed_def)
qed

lemma keyed_without: "keyed l k e \<Longrightarrow> recency (list_Remove e l) = without k (recency l)"
proof -
  have "\<forall>(d, en) \<in> set l. d = e \<longleftrightarrow> le_key en = k \<Longrightarrow>
      recency (list_Remove e l) = without k (recency l)"
    by (induction l) (auto simp: list_Remove_def without_def recency_def)
  then show "keyed l k e \<Longrightarrow> ?thesis" by (simp add: keyed_def)
qed

lemma keyed_lookup:
  assumes "keyed l k e" and "distinct (map fst l)"
  shows "\<exists>en. map_of l e = Some en \<and> le_key en = k \<and>
    map_of (recency l) k = Some (le_value en, le_timestamp en)"
proof -
  have "\<forall>(d, en) \<in> set l. d = e \<longleftrightarrow> le_key en = k \<Longrightarrow> e \<in> fst ` set l \<Longrightarrow>
      \<exists>en. map_of l e = Some en \<and> le_key en = k \<and>
        map_of (recency l) k = Some (le_value en, le_timestamp en)"
    by (induction l) auto
  with assms(1) show ?thesis by (simp add: keyed_def)
qed

lemma lru_inv_absent:
  assumes "lru_inv c"
  shows "fmlookup (items c) k = None \<longleftrightarrow> map_of (recency (lruList c)) k = None"
proof -
  have "k \<in> fst ` set (recency (lruList c)) \<longleftrightarrow> (\<exists>e en. (e, en) \<in> set (lruList c) \<and> le_key en = k)"
    by (force simp: recency_def image_iff)
  also have "\<dots> \<longleftrightarrow> (\<exists>e. fmlookup (items c) k = Some e)"
    by (simp add: lru_invD(3) [OF assms])
  finally show ?thesis by (auto simp: map_of_eq_None_iff)
qed

lemma lru_inv_distinct_keys:
  assumes "lru_inv c"
  shows "distinct (map fst (recency (lruList c)))"
proof -
  have "distinct l \<Longrightarrow> (\<forall>x \<in> set l. \<forall>y \<in> set l. le_key (snd x) = le_key (snd y) \<longrightarrow> x = y) \<Longrightarrow>
      distinct (map fst (recency l))" for l :: "'a lruEntry linked_list"
    by (induction l) (auto simp: recency_def)
  moreover have "distinct (lruList c)"
    using lru_invD(1) [OF assms] by (simp add: distinct_map)
  moreover have "x = y" if "x \<in> set (lruList c)" "y \<in> set (lruList c)"
      "le_key (snd x) = le_key (snd y)" for x y
  proof -
    obtain d en d' en' where xy: "x = (d, en)" "y = (d', en')" by fastforce
    from that lru_invD(3) [OF assms] have "fmlookup (items c) (le_key en) = Some d"
      and "fmlookup (items c) (le_key en) = Some d'" unfolding xy by auto
    then have "d = d'" by simp
    with that lru_invD(1) [OF assms] show ?thesis unfolding xy by (simp add: eq_key_imp_eq_value)
  qed
  ultimately show ?thesis by blast
qed

section \<open>Every operation keeps the invariant and refines the recency list\<close>

lemma lru_inv_new: "lru_inv (newLRUCache n d)" and recency_new [simp]: "recency_of (newLRUCache n d) = []"
  by (simp_all add: lru_inv_def newLRUCache_def recency_of_def)

lemma set_list_Remove: "set (list_Remove e l) = {(d, v) \<in> set l. d \<noteq> e}"
  by (auto simp: list_Remove_def)

lemma list_Remove_sublist:
  "distinct (map fst l) \<Longrightarrow> distinct (map fst (list_Remove e l))"
  "length (list_Remove e l) \<le> length l"
  by (simp_all add: list_Remove_def distinct_map_filter)

lemma lru_inv_remove:
  assumes "lru_inv c" and "fmlookup (items c) k = Some e"
  shows "lru_inv (lru_remove k e c)"
    and "recency_of (lru_remove k e c) = without k (recency_of c)"
proof -
  note keyed = lru_inv_keyed [OF assms]
  show "recency_of (lru_remove k e c) = without k (recency_of c)"
    using keyed by (simp add: lru_remove_def recency_of_eq keyed_without)
  have "fmlookup (fmdrop k (items c)) k' = Some e' \<longleftrightarrow>
      (\<exists>en. (e', en) \<in> set (list_Remove e (lruList c)) \<and> le_key en = k')" for k' e'
    using keyed by (auto simp: set_list_Remove keyed_def lru_invD(3) [OF assms(1)])
  moreover have "maxSize c > 0 \<longrightarrow> int (length (list_Remove e (lruList c))) \<le> maxSize c"
    using lru_invD(4) [OF assms(1)] list_Remove_sublist(2) [of e "lruList c"] by linarith
  ultimately show "lru_inv (lru_remove k e c)"
    using assms(1) by (auto simp: lru_inv_def lru_remove_def list_Remove_sublist set_list_Remove)
qed

lemma list_MoveToFront_facts:
  assumes "distinct (map fst l)"
  shows "distinct (map fst (list_MoveToFront e l))"
    and "set (list_MoveToFront e l) = set l"
    and "length (list_MoveToFront e l) = length l"
proof -
  show 1: "distinct (map fst (list_MoveToFront e l))"
    using assms by (auto simp: list_MoveToFront_def set_list_Remove list_Remove_sublist split: option.split)
  show 2: "set (list_MoveToFront e l) = set l"
    using assms by (auto simp: list_MoveToFront_def set_list_Remove split: option.split
                         dest: map_of_SomeD eq_key_imp_eq_value)
  have "length (list_MoveToFront e l) = card (set (list_MoveToFront e l))"
    using 1 by (simp add: distinct_card distinct_map)
  also have "\<dots> = length l" using assms by (simp add: 2 distinct_card distinct_map)
  finally show "length (list_MoveToFront e l) = length l" .
qed

text \<open>The invariant looks at a list only through its element and key pairs and its length.\<close>

definition elem_keys :: "'v lruEntry linked_list \<Rightarrow> (nat \<times> string) set" where
  "elem_keys l = (\<lambda>(e, en). (e, le_key en)) ` set l"

lemma lru_inv_elem_keys:
  "lru_inv c \<longleftrightarrow> distinct (map fst (lruList c)) \<and>
     (\<forall>(e, k) \<in> elem_keys (lruList c). e < nextElem c) \<and>
     (\<forall>k e. fmlookup (items c) k = Some e \<longleftrightarrow> (e, k) \<in> elem_keys (lruList c)) \<and>
     (maxSize c > 0 \<longrightarrow> int (length (lruList c)) \<le> maxSize c)"
  unfolding lru_inv_def elem_keys_def by (force simp: image_iff)

lemma lru_inv_cong:
  assumes "lru_inv c" and "distinct (map fst (lruList c'))"
    and "elem_keys (lruList c') = elem_keys (lruList c)"
    and "length (lruList c') = length (lruList c)"
    and "items c' = items c" and "nextElem c' = nextElem c" and "maxSize c' = maxSize c"
  shows "lru_inv c'"
  using assms by (simp add: lru_inv_elem_keys)

lemma list_assign_facts:
  "map fst (list_assign e f l) = map fst l"
  "length (list_assign e f l) = length l"
  "list_Remove e (list_assign e f l) = list_Remove e l"
  "map_of (list_assign e f l) e = map_option f (map_of l e)"
  "(\<And>en. le_key (f en) = le_key en) \<Longrightarrow> elem_keys (list_assign e f l) = elem_keys l"
proof -
  show "map fst (list_assign e f l) = map fst l"
    by (simp add: list_assign_def case_prod_beta)
  show "length (list_assign e f l) = length l"
    by (simp add: list_assign_def)
  show "list_Remove e (list_assign e f l) = list_Remove e l"
    by (induction l) (auto simp: list_assign_def list_Remove_def)
  show "map_of (list_assign e f l) e = map_option f (map_of l e)"
    by (induction l) (auto simp: list_assign_def)
  show "elem_keys (list_assign e f l) = elem_keys l" if "\<And>en. le_key (f en) = le_key en"
    using that by (induction l) (auto simp: elem_keys_def list_assign_def)
qed

lemma lru_inv_counters [simp]:
  "lru_inv (c\<lparr>hits := n\<rparr>) = lru_inv c" "lru_inv (c\<lparr>misses := n\<rparr>) = lru_inv c"
  "lru_inv (c\<lparr>evictions := n\<rparr>) = lru_inv c"
  by (simp_all add: lru_inv_def)

lemma recency_of_counters [simp]:
  "recency_of (c\<lparr>hits := n\<rparr>) = recency_of c" "recency_of (c\<lparr>misses := n\<rparr>) = recency_of c"
  "recency_of (c\<lparr>evictions := n\<rparr>) = recency_of c"
  by (simp_all add: recency_of_def)

lemma recency_MoveToFront:
  assumes "map_of l' e = Some en" and "list_Remove e l' = list_Remove e l" and "keyed l k e"
  shows "recency (list_MoveToFront e l') = (le_key en, le_value en, le_timestamp en) # without k (recency l)"
  using assms by (simp add: list_MoveToFront_def keyed_without)

lemma lru_Get_refines:
  assumes "lru_inv c"
  shows "lru_inv (snd (lru_Get now k c))"
    and "fst (lru_Get now k c) = fst (spec_Get (ttl c) now k (recency_of c))"
    and "recency_of (snd (lru_Get now k c)) = snd (spec_Get (ttl c) now k (recency_of c))"
proof -
  have "lru_inv (snd (lru_Get now k c)) \<and>
    fst (lru_Get now k c) = fst (spec_Get (ttl c) now k (recency_of c)) \<and>
    recency_of (snd (lru_Get now k c)) = snd (spec_Get (ttl c) now k (recency_of c))"
  proof (cases "fmlookup (items c) k")
    case None
    then have "map_of (recency (lruList c)) k = None" using lru_inv_absent [OF assms] by blast
    with None show ?thesis
      by (simp add: lru_Get_def spec_Get_def recency_of_eq assms)
  next
    case (Some e)
    note keyed = lru_inv_keyed [OF assms Some] and dist = lru_invD(1) [OF assms]
    from keyed_lookup [OF keyed dist] obtain en where en: "map_of (lruList c) e = Some en"
      "le_key en = k" "map_of (recency (lruList c)) k = Some (le_value en, le_timestamp en)" by blast
    show ?thesis
    proof (cases "spec_expired (ttl c) now (le_timestamp en)")
      case True
      let ?c = "lru_remove k e c"
      have "lru_Get now k c = (None, ?c\<lparr>misses := misses ?c + 1\<rparr>)"
        using Some en True by (simp add: lru_Get_def list_Value_def spec_expired_def Let_def)
      with en True lru_inv_remove [OF assms Some] show ?thesis
        by (simp add: spec_Get_def recency_of_eq)
    next
      case False
      then have "lru_Get now k c = (Some (le_value en),
          c\<lparr>lruList := list_MoveToFront e (lruList c), hits := hits c + 1\<rparr>)"
        using Some en by (auto simp: lru_Get_def list_Value_def spec_expired_def)
      moreover have "elem_keys (list_MoveToFront e (lruList c)) = elem_keys (lruList c)"
        by (simp add: elem_keys_def list_MoveToFront_facts(2) [OF dist])
      ultimately show ?thesis
        using en False recency_MoveToFront [OF en(1) refl keyed] list_MoveToFront_facts [OF dist]
        by (auto simp: spec_Get_def recency_of_eq intro!: lru_inv_cong [OF assms])
    qed
  qed
  then show "lru_inv (snd (lru_Get now k c))"
    and "fst (lru_Get now k c) = fst (spec_Get (ttl c) now k (recency_of c))"
    and "recency_of (snd (lru_Get now k c)) = snd (spec_Get (ttl c) now k (recency_of c))"
    by blast+
qed

lemma without_absent: "map_of r k = None \<Longrightarrow> without k r = r"
  by (auto simp: without_def map_of_eq_None_iff image_iff intro!: filter_True)

lemma lru_inv_PushFront:
  assumes "lru_inv c" and "fmlookup (items c) k = None" and "le_key en = k"
    and "maxSize c > 0 \<longrightarrow> int (length (lruList c)) < maxSize c"
  shows "lru_inv (c\<lparr>lruList := (nextElem c, en) # lruList c, nextElem := Suc (nextElem c),
                    items := fmupd k (nextElem c) (items c)\<rparr>)"
proof -
  have fresh: "nextElem c \<notin> fst ` set (lruList c)"
    using lru_invD(2) [OF assms(1)] by blast
  have elems: "elem_keys ((nextElem c, en) # lruList c) = insert (nextElem c, k) (elem_keys (lruList c))"
    using assms(3) by (simp add: elem_keys_def)
  have iff: "fmlookup (items c) k' = Some e \<longleftrightarrow> (e, k') \<in> elem_keys (lruList c)" for k' e
    using assms(1) by (simp add: lru_inv_elem_keys)
  have "fmlookup (fmupd k (nextElem c) (items c)) k' = Some e \<longleftrightarrow>
      (e, k') \<in> insert (nextElem c, k) (elem_keys (lruList c))" for k' e
  proof (cases "k' = k")
    case True
    have "(e, k) \<notin> elem_keys (lruList c)" using assms(2) iff [of k e] by simp
    with True show ?thesis by auto
  next
    case False
    then show ?thesis by (simp add: iff)
  qed
  moreover have "\<forall>(e, k) \<in> elem_keys (lruList c). e < nextElem c"
    and "distinct (map fst (lruList c))" using assms(1) by (simp_all add: lru_inv_elem_keys)
  ultimately show ?thesis
    using assms(4) fresh unfolding lru_inv_elem_keys by (simp add: elems) force
qed

lemma without_last:
  assumes "distinct (map fst r)" and "r \<noteq> []"
  shows "without (fst (last r)) r = butlast r"
  using assms
proof (induction r rule: rev_induct)
  case Nil
  then show ?case by simp
next
  case (snoc x r)
  then have "fst x \<notin> fst ` set r" by simp
  then have "\<forall>y \<in> set r. fst y \<noteq> fst x" by (metis image_eqI)
  then have "without (fst x) r = r"
    by (auto simp: without_def case_prod_beta intro!: filter_True)
  then show ?case by (cases x) (simp add: without_def)
qed

lemma lru_inv_unbounded:
  "lru_inv c \<longleftrightarrow> lru_inv (c\<lparr>maxSize := 0\<rparr>) \<and> (maxSize c > 0 \<longrightarrow> int (length (lruList c)) \<le> maxSize c)"
  by (auto simp: lru_inv_def)

lemma evictOldest_refines:
  assumes inv: "lru_inv (c\<lparr>maxSize := 0\<rparr>)" and "lruList c \<noteq> []"
    and len: "maxSize c > 0 \<longrightarrow> int (length (lruList c)) \<le> maxSize c + 1"
  shows "lru_inv (evictOldest c)" and "recency_of (evictOldest c) = butlast (recency_of c)"
proof -
  obtain e en where last: "last (lruList c) = (e, en)" by fastforce
  with assms(2) have "(e, en) \<in> set (lruList c)" by (metis last_in_set)
  then have item: "fmlookup (items (c\<lparr>maxSize := 0\<rparr>)) (le_key en) = Some e"
    unfolding lru_invD(3) [OF inv] by auto
  have evict: "evictOldest c =
      (lru_remove (le_key en) e c)\<lparr>evictions := evictions (lru_remove (le_key en) e c) + 1\<rparr>"
    using assms(2) last by (simp add: evictOldest_def list_Back_def Let_def)
  have "fst (last (recency (lruList c))) = le_key en"
    using assms(2) last by (simp add: recency_def last_map)
  with lru_inv_distinct_keys [OF inv] assms(2)
  have butlast: "without (le_key en) (recency (lruList c)) = butlast (recency (lruList c))"
    using without_last [of "recency (lruList c)"] by simp
  note rem = lru_inv_remove [OF inv item]
  show rec: "recency_of (evictOldest c) = butlast (recency_of c)"
    using rem(2) butlast by (simp add: evict recency_of_eq lru_remove_def)
  have "length (lruList (evictOldest c)) = length (lruList c) - 1"
    using rec by (metis length_butlast recency_of_eq recency_simps(3))
  moreover have "maxSize (evictOldest c) = maxSize c" and
      "(evictOldest c)\<lparr>maxSize := 0\<rparr> = (lru_remove (le_key en) e (c\<lparr>maxSize := 0\<rparr>))
         \<lparr>evictions := evictions c + 1\<rparr>"
    by (simp_all add: evict lru_remove_def)
  ultimately show "lru_inv (evictOldest c)"
    using rem(1) len by (subst lru_inv_unbounded) auto
qed

lemma lru_Put_refines:
  assumes "lru_inv c"
  shows "lru_inv (lru_Put now k v c) \<and>
    recency_of (lru_Put now k v c) = spec_Put (maxSize c) now k v (recency_of c)"
proof (cases "fmlookup (items c) k")
  case (Some e)
  let ?f = "\<lambda>entry. entry\<lparr>le_value := v, le_timestamp := now\<rparr>"
  let ?l = "list_assign e ?f (lruList c)"
  note keyed = lru_inv_keyed [OF assms Some] and dist = lru_invD(1) [OF assms]
  from keyed_lookup [OF keyed dist] obtain en where en: "map_of (lruList c) e = Some en"
    "le_key en = k" "map_of (recency (lruList c)) k = Some (le_value en, le_timestamp en)" by blast
  have dist': "distinct (map fst ?l)" using dist by (simp add: list_assign_facts)
  have put: "lru_Put now k v c = c\<lparr>lruList := list_MoveToFront e ?l\<rparr>"
    using Some by (simp add: lru_Put_def)
  have "elem_keys (list_MoveToFront e ?l) = elem_keys (lruList c)"
    using list_assign_facts(5) [of ?f e "lruList c"]
    by (simp add: elem_keys_def list_MoveToFront_facts(2) [OF dist'])
  then have "lru_inv (lru_Put now k v c)"
    using list_MoveToFront_facts [OF dist'] list_assign_facts(2) [of e ?f "lruList c"]
    by (auto simp: put intro!: lru_inv_cong [OF assms])
  moreover have "recency (list_MoveToFront e ?l) = (k, v, now) # without k (recency (lruList c))"
    using recency_MoveToFront [of ?l e "?f en" "lruList c" k] en keyed
    by (simp add: list_assign_facts)
  ultimately show ?thesis using en by (simp add: put recency_of_eq spec_Put_def)
next
  case None
  then have abs: "map_of (recency (lruList c)) k = None" using lru_inv_absent [OF assms] by blast
  let ?en = "\<lparr>le_key = k, le_value = v, le_timestamp = now\<rparr>"
  let ?c = "c\<lparr>lruList := (nextElem c, ?en) # lruList c, nextElem := Suc (nextElem c),
              items := fmupd k (nextElem c) (items c)\<rparr>"
  let ?d = "c\<lparr>maxSize := 0\<rparr>"
  have eq: "?c\<lparr>maxSize := 0\<rparr> = ?d\<lparr>lruList := (nextElem ?d, ?en) # lruList ?d,
      nextElem := Suc (nextElem ?d), items := fmupd k (nextElem ?d) (items ?d)\<rparr>"
    by (cases c) simp
  have "lru_inv ?d" using assms lru_inv_unbounded by blast
  then have inv: "lru_inv (?c\<lparr>maxSize := 0\<rparr>)"
    unfolding eq by (rule lru_inv_PushFront) (simp_all add: None)
  have put: "lru_Put now k v c =
      (if maxSize c > 0 \<and> int (length (lruList c)) \<ge> maxSize c then evictOldest ?c else ?c)"
    using None by (simp add: lru_Put_def Let_def list_PushFront_def)
  show ?thesis
  proof (cases "maxSize c > 0 \<and> int (length (lruList c)) \<ge> maxSize c")
    case True
    then have "lruList c \<noteq> []" by auto
    with True evictOldest_refines [OF inv] lru_invD(4) [OF assms] abs show ?thesis
      by (simp add: put spec_Put_def recency_of_eq)
  next
    case False
    with inv have "lru_inv ?c" by (subst lru_inv_unbounded) auto
    with False abs show ?thesis
      by (auto simp: put spec_Put_def recency_of_eq without_absent)
  qed
qed

lemma lru_Delete_refines:
  assumes "lru_inv c"
  shows "lru_inv (lru_Delete k c)" and "recency_of (lru_Delete k c) = without k (recency_of c)"
proof -
  have "fmlookup (items c) k = None \<Longrightarrow> without k (recency_of c) = recency_of c"
    using lru_inv_absent [OF assms] by (simp add: recency_of_eq without_absent)
  then show "lru_inv (lru_Delete k c)" "recency_of (lru_Delete k c) = without k (recency_of c)"
    using assms lru_inv_remove [OF assms]
    by (auto simp: lru_Delete_def split: option.split)
qed

lemma lru_Clear_refines:
  "lru_inv (lru_Clear c)" "recency_of (lru_Clear c) = []"
  by (simp_all add: lru_inv_def lru_Clear_def recency_of_eq)

lemma lru_config [simp]:
  "maxSize (snd (lru_Get now k c)) = maxSize c" "ttl (snd (lru_Get now k c)) = ttl c"
  "maxSize (lru_Put now k v c) = maxSize c" "ttl (lru_Put now k v c) = ttl c"
  "maxSize (lru_Delete k c) = maxSize c" "ttl (lru_Delete k c) = ttl c"
  "maxSize (lru_Clear c) = maxSize c" "ttl (lru_Clear c) = ttl c"
  by (simp_all add: lru_Get_def lru_Put_def lru_Delete_def lru_Clear_def lru_remove_def
        evictOldest_def Let_def split: option.split prod.split)

lemma map_of_without: "map_of (without k r) = (map_of r)(k := None)"
  by (induction r) (auto simp: without_def fun_eq_iff)

lemma map_of_butlast:
  fixes r :: "'v recency"
  assumes dist: "distinct (map fst r)"
  shows "map_of (butlast r) \<subseteq>\<^sub>m map_of r"
proof -
  show ?thesis
  proof (cases "r = []")
    case False
    with without_last [OF dist] have "butlast r = without (fst (last r)) r" by simp
    then show ?thesis by (simp add: map_of_without map_le_def)
  qed simp
qed

definition lru_entries :: "'v lruCache \<Rightarrow> string \<Rightarrow> ('v \<times> int) option" where
  "lru_entries c = map_of (recency_of c)"

lemma recency_of_distinct: "lru_inv c \<Longrightarrow> distinct (map fst (recency_of c))"
  by (simp add: lru_inv_distinct_keys recency_of_eq)

lemma spec_Get_keeps:
  assumes "fst (spec_Get life now k r) \<noteq> None"
  shows "map_of (snd (spec_Get life now k r)) = map_of r"
proof (cases "map_of r k")
  case None
  with assms show ?thesis by (simp add: spec_Get_def)
next
  case (Some vt)
  then have "(map_of r)(k \<mapsto> vt) = map_of r" by (rule map_upd_triv)
  with Some assms show ?thesis
    by (cases vt) (simp add: spec_Get_def map_of_without split: if_splits)
qed

lemma spec_Put_entries:
  assumes "distinct (map fst r)"
  shows "map_of (spec_Put cap now k v r) k = Some (v, now)"
    and "map_of (spec_Put cap now k v r) \<subseteq>\<^sub>m (map_of r)(k \<mapsto> (v, now))"
proof -
  show "map_of (spec_Put cap now k v r) k = Some (v, now)"
    by (auto simp: spec_Put_def)
  have "map_of (butlast ((k, v, now) # r)) \<subseteq>\<^sub>m (map_of r)(k \<mapsto> (v, now))" if "map_of r k = None"
    using map_of_butlast [of "(k, v, now) # r"] assms that by (simp add: map_of_eq_None_iff)
  then show "map_of (spec_Put cap now k v r) \<subseteq>\<^sub>m (map_of r)(k \<mapsto> (v, now))"
    by (auto simp: spec_Put_def map_of_without)
qed

interpretation lru: ttl_cache lru_Get lru_Put lru_Delete lru_Clear lru_entries
  "\<lambda>c. spec_expired (ttl c)" lru_inv
proof (unfold_locales, goal_cases)
  case (1 c now k)
  then show ?case by (rule lru_Get_refines)
next
  case (2 c now k v)
  then show ?case using lru_Put_refines [OF 2] by simp
next
  case (3 c k)
  then show ?case by (rule lru_Delete_refines)
next
  case (4 c)
  show ?case by (rule lru_Clear_refines)
next
  case (5 c now k)
  then show ?case
    by (auto simp: lru_Get_refines spec_Get_def lru_entries_def split: option.split prod.split)
next
  case (6 c now k)
  then show ?case
    by (auto simp: lru_Get_refines spec_Get_def lru_entries_def map_of_without map_le_def
             split: option.split prod.split)
next
  case (7 c now k)
  then show ?case
    using spec_Get_keeps [of "ttl c" now k "recency_of c"]
    by (simp add: lru_Get_refines lru_entries_def)
next
  case (8 c now k v)
  then show ?case
    using lru_Put_refines [OF 8] spec_Put_entries(1) [OF recency_of_distinct [OF 8]]
    by (simp add: lru_entries_def)
next
  case (9 c now k v)
  then show ?case
    using lru_Put_refines [OF 9] spec_Put_entries(2) [OF recency_of_distinct [OF 9]]
    by (simp add: lru_entries_def)
next
  case (10 c k)
  then show ?case by (simp add: lru_entries_def lru_Delete_refines map_of_without)
next
  case (11 c)
  show ?case by (simp add: lru_entries_def lru_Clear_refines)
qed simp_all

section \<open>Properties\<close>

abbreviation lru_step :: "'v cache_op \<Rightarrow> 'v lruCache \<Rightarrow> 'v lruCache" where
  "lru_step \<equiv> cache_step lru_Get lru_Put lru_Delete lru_Clear"

definition lru_run :: "int \<Rightarrow> int \<Rightarrow> 'v cache_op list \<Rightarrow> 'v lruCache" where
  "lru_run cap life ops = fold lru_step ops (newLRUCache cap life)"

fun spec_cache_step :: "int \<Rightarrow> int \<Rightarrow> 'v cache_op \<Rightarrow> 'v recency \<Rightarrow> 'v recency" where
  "spec_cache_step cap life (OpGet now k) r = snd (spec_Get life now k r)"
| "spec_cache_step cap life (OpPut now k v) r = spec_Put cap now k v r"
| "spec_cache_step cap life (OpDelete k) r = without k r"
| "spec_cache_step cap life OpClear r = []"

lemma lru_step_refines:
  assumes "lru_inv c"
  shows "recency_of (lru_step op c) = spec_cache_step (maxSize c) (ttl c) op (recency_of c) \<and>
    maxSize (lru_step op c) = maxSize c \<and> ttl (lru_step op c) = ttl c"
  using assms lru_Put_refines [OF assms]
  by (cases op) (simp_all add: lru_Get_refines lru_Delete_refines lru_Clear_refines)

lemma lru_fold_refines:
  assumes "lru_inv c"
  shows "lru_inv (fold lru_step ops c) \<and> maxSize (fold lru_step ops c) = maxSize c \<and>
    ttl (fold lru_step ops c) = ttl c \<and>
    recency_of (fold lru_step ops c) = fold (spec_cache_step (maxSize c) (ttl c)) ops (recency_of c)"
  using assms
proof (induction ops arbitrary: c)
  case Nil
  then show ?case by simp
next
  case (Cons op ops)
  from Cons.IH [OF lru.step_inv [OF Cons.prems]] lru_step_refines [OF Cons.prems, of op]
  show ?case by simp
qed

lemma newLRUCache_config [simp]: "maxSize (newLRUCache cap life) = cap" "ttl (newLRUCache cap life) = life"
  by (simp_all add: newLRUCache_def)

lemma lru_run_facts:
  "lru_inv (lru_run cap life ops)" "maxSize (lru_run cap life ops) = cap"
  "ttl (lru_run cap life ops) = life"
  "recency_of (lru_run cap life ops) = fold (spec_cache_step cap life) ops []"
  using lru_fold_refines [OF lru_inv_new, of ops cap life] by (simp_all add: lru_run_def)

text \<open>C9: the map and linked list of the cache refine one recency list. After any sequence of
  \<^verbatim>\<open>Get\<close>, \<^verbatim>\<open>Put\<close>, \<^verbatim>\<open>Delete\<close> and \<^verbatim>\<open>Clear\<close> calls at any clock readings, the entries in order of use are
  those of the abstract LRU list, and the next \<^verbatim>\<open>Get\<close> answers what the list says.\<close>

theorem lru_refines_recency:
  "recency_of (lru_run cap life ops) = fold (spec_cache_step cap life) ops [] \<and>
   fst (lru_Get now k (lru_run cap life ops)) =
     fst (spec_Get life now k (fold (spec_cache_step cap life) ops []))"
  using lru_run_facts [of cap life ops] by (simp add: lru_Get_refines)

lemma keys_image: "(\<exists>e en. (e, en) \<in> S \<and> le_key en = k) \<longleftrightarrow> k \<in> le_key ` snd ` S"
  by force

text \<open>C35: the cache never holds more entries than its capacity, and its two structures hold the same keys:
  no key is twice in the list, the map leads each key to the one list element with that key and every
  other key nowhere, and \<^verbatim>\<open>Len\<close> is the number of keys in \<^verbatim>\<open>items\<close>.\<close>

theorem lru_bounded:
  "(cap > 0 \<longrightarrow> int (lru_Len (lru_run cap life ops)) \<le> cap) \<and>
   distinct (map (\<lambda>x. le_key (snd x)) (lruList (lru_run cap life ops))) \<and>
   (\<forall>k e. fmlookup (items (lru_run cap life ops)) k = Some e \<longleftrightarrow>
     (\<exists>en. (e, en) \<in> set (lruList (lru_run cap life ops)) \<and> le_key en = k)) \<and>
   lru_Len (lru_run cap life ops) = fcard (fmdom (items (lru_run cap life ops)))"
proof -
  let ?c = "lru_run cap life ops"
  note inv = lru_run_facts(1) [of cap life ops]
  have "fset (fmdom (items ?c)) = le_key ` snd ` set (lruList ?c)"
  proof (intro set_eqI)
    fix k
    have "k \<in> fset (fmdom (items ?c)) \<longleftrightarrow> (\<exists>e. fmlookup (items ?c) k = Some e)"
      by (simp add: fmlookup_dom_iff)
    also have "\<dots> \<longleftrightarrow> k \<in> le_key ` snd ` set (lruList ?c)"
      unfolding lru_invD(3) [OF inv] by (rule keys_image)
    finally show "k \<in> fset (fmdom (items ?c)) \<longleftrightarrow> k \<in> le_key ` snd ` set (lruList ?c)" .
  qed
  also have "\<dots> = set (map fst (recency (lruList ?c)))"
    by (simp add: recency_def image_image case_prod_beta)
  finally have "fcard (fmdom (items ?c)) = length (lruList ?c)"
    using distinct_card [OF lru_inv_distinct_keys [OF inv]] by (simp add: fcard.rep_eq)
  moreover have "distinct (map (\<lambda>x. le_key (snd x)) (lruList ?c))"
    using lru_inv_distinct_keys [OF inv] by (simp add: recency_def case_prod_beta comp_def)
  ultimately show ?thesis
    using lru_invD(3,4) [OF inv] lru_run_facts(2) [of cap life ops] by (simp add: lru_Len_def)
qed

theorem lru_bounded_witness:
  "lru_Len (lru_run 2 0 [OpPut 1 ''a'' (10::nat), OpPut 2 ''b'' 20, OpPut 3 ''c'' 30]) = 2"
proof -
  have "lru_Len (lru_run 2 0 [OpPut 1 ''a'' (10::nat), OpPut 2 ''b'' 20, OpPut 3 ''c'' 30]) \<le> 2"
    using lru_bounded [of 2 0 "[OpPut 1 ''a'' (10::nat), OpPut 2 ''b'' 20, OpPut 3 ''c'' 30]"] by simp
  moreover have "length (recency_of (lru_run 2 0 [OpPut 1 ''a'' (10::nat), OpPut 2 ''b'' 20, OpPut 3 ''c'' 30])) = 2"
    by (simp add: lru_run_facts spec_Put_def without_def)
  ultimately show ?thesis by (simp add: lru_Len_def recency_of_eq)
qed

text \<open>C20: a hit is never stale. Whatever \<^verbatim>\<open>Get\<close> returns is the value most recently \<^verbatim>\<open>Put\<close> under that
  key, not deleted or cleared since, and, when a lifetime is set, at most that old.\<close>

theorem lru_hit_is_last_put:
  assumes "fst (lru_Get now k (lru_run cap life ops)) = Some v"
  shows "\<exists>t. fold stored ops Map.empty k = Some (v, t) \<and> (life > 0 \<longrightarrow> time_Since now t \<le> life)"
proof -
  have "lru_entries (newLRUCache cap life) \<subseteq>\<^sub>m Map.empty"
    by (simp add: lru_entries_def)
  from lru.no_stale_hit [OF lru_inv_new this assms [unfolded lru_run_def]]
  show ?thesis by (auto simp: spec_expired_def)
qed

theorem lru_hit_is_last_put_witness:
  "fst (lru_Get 9 ''a'' (lru_run 5 10 [OpPut 1 ''a'' (10::nat), OpPut 4 ''a'' 11])) = Some 11"
proof -
  have hit: "fst (lru_Get 9 ''a'' (lru_run 5 10 [OpPut 1 ''a'' (10::nat), OpPut 4 ''a'' 11])) = Some 11"
    by (simp add: lru_refines_recency spec_Put_def spec_Get_def without_def spec_expired_def time_Since_def)
  from lru_hit_is_last_put [OF hit] have "time_Since 9 4 \<le> 10" by simp
  with hit show ?thesis by blast
qed

text \<open>The position of a key in the recency list: among the first \<open>Suc n\<close>.\<close>

definition near :: "string \<Rightarrow> nat \<Rightarrow> 'v recency \<Rightarrow> bool" where
  "near k n r \<longleftrightarrow> k \<in> fst ` set (take (Suc n) r)"

lemma near_Cons: "near k n (x # r) \<longleftrightarrow> fst x = k \<or> (\<exists>m. n = Suc m \<and> near k m r)"
  by (cases n) (auto simp: near_def)

lemma near_mono: "near k n r \<Longrightarrow> n \<le> m \<Longrightarrow> near k m r"
  unfolding near_def by (meson Suc_le_mono image_mono set_take_subset_set_take subsetD)

lemma near_without: "near k n r \<Longrightarrow> k' \<noteq> k \<Longrightarrow> near k n (without k' r)"
proof (induction r arbitrary: n)
  case Nil
  then show ?case by (simp add: near_def)
next
  case (Cons x r)
  show ?case
  proof (cases "fst x = k")
    case True
    with Cons.prems(2) show ?thesis by (cases x) (simp add: without_def near_Cons)
  next
    case False
    with Cons.prems obtain m where m: "n = Suc m" "near k m r" by (auto simp: near_Cons)
    with Cons have rec: "near k m (without k' r)" by blast
    with m(1) near_mono [OF rec, of n] show ?thesis
      by (cases x) (simp add: without_def near_Cons)
  qed
qed

lemma near_butlast: "near k n r \<Longrightarrow> Suc n < length r \<Longrightarrow> near k n (butlast r)"
  by (simp add: near_def take_butlast)

definition no_removal :: "string \<Rightarrow> 'v cache_op \<Rightarrow> bool" where
  "no_removal k op \<longleftrightarrow> op \<noteq> OpDelete k \<and> op \<noteq> OpClear"

lemma near_step:
  assumes "near k n r" and "no_removal k op" and "life \<le> 0"
    and "cap > 0 \<longrightarrow> int (Suc n) < cap \<and> int (length r) \<le> cap"
  shows "near k (Suc n) (spec_cache_step cap life op r)"
proof (cases op)
  case (OpGet now k')
  show ?thesis
  proof (cases "map_of r k'")
    case None
    with OpGet assms(1) show ?thesis by (simp add: spec_Get_def near_mono)
  next
    case (Some vt)
    with OpGet assms(1,3) show ?thesis
      by (cases vt) (auto simp: spec_Get_def spec_expired_def near_Cons intro: near_without)
  qed
next
  case (OpPut now k' v)
  have "near k (Suc n) ((k', v, now) # r)" using assms(1) by (simp add: near_Cons)
  then have "near k (Suc n) (butlast ((k', v, now) # r))" if "cap > 0" "int (length r) \<ge> cap"
    using that assms(4) by (intro near_butlast) auto
  moreover have "near k (Suc n) ((k', v, now) # without k' r)"
    using assms(1) by (auto simp: near_Cons intro: near_without)
  ultimately show ?thesis using OpPut by (simp add: spec_Put_def)
next
  case (OpDelete k')
  with assms(2) have "k' \<noteq> k" by (simp add: no_removal_def)
  with assms(1) have "near k n (without k' r)" by (rule near_without)
  with OpDelete near_mono show ?thesis by fastforce
next
  case OpClear
  with assms(2) show ?thesis by (simp add: no_removal_def)
qed

lemma near_fold:
  assumes "lru_inv c" and "near k n (recency_of c)" and "\<forall>op \<in> set ops. no_removal k op"
    and "ttl c \<le> 0" and "maxSize c > 0 \<longrightarrow> int (n + length ops) < maxSize c"
  shows "near k (n + length ops) (recency_of (fold lru_step ops c))"
  using assms
proof (induction ops arbitrary: c n)
  case Nil
  then show ?case by simp
next
  case (Cons op ops)
  have len: "maxSize c > 0 \<longrightarrow> int (length (recency_of c)) \<le> maxSize c"
    using lru_invD(4) [OF Cons.prems(1)] by (simp add: recency_of_eq)
  note step = lru_step_refines [OF Cons.prems(1), of op]
  have "near k (Suc n) (recency_of (lru_step op c))"
    using Cons.prems len by (auto simp: step intro!: near_step)
  from Cons.IH [OF lru.step_inv [OF Cons.prems(1)] this] Cons.prems step
  show ?case by simp
qed

text \<open>Eviction takes the least recently used. In a cache of capacity \<open>cap\<close> without expiry, a key
  that was just stored survives any further \<open>cap - 1\<close> operations on any keys that do not delete
  it: the next \<^verbatim>\<open>Get\<close> of it is a hit.\<close>

theorem lru_recent_survives:
  assumes "\<forall>op \<in> set later. no_removal k op" and "life \<le> 0" and "cap > 0 \<longrightarrow> int (length later) < cap"
  shows "fst (lru_Get now k (lru_run cap life (ops @ OpPut t k v # later))) \<noteq> None"
proof -
  let ?c = "lru_step (OpPut t k v) (lru_run cap life ops)"
  have inv: "lru_inv ?c" by (rule lru.step_inv) (rule lru_run_facts)
  have "near k 0 (recency_of ?c)"
    using lru_Put_refines [OF lru_run_facts(1), of t k v cap life ops]
      lru_invD(4) [OF lru_run_facts(1), of cap life ops]
    by (cases "recency_of (lru_run cap life ops)")
       (auto simp: lru_run_facts(2) spec_Put_def near_def)
  then have near: "near k (0 + length later) (recency_of (fold lru_step later ?c))"
    using assms by (intro near_fold [OF inv]) (simp_all add: lru_run_facts)
  have "lru_run cap life (ops @ OpPut t k v # later) = fold lru_step later ?c"
    by (simp add: lru_run_def)
  with near have "near k (length later) (recency_of (lru_run cap life (ops @ OpPut t k v # later)))"
    by (simp only: add_0)
  then have "map_of (recency_of (lru_run cap life (ops @ OpPut t k v # later))) k \<noteq> None"
    unfolding near_def map_of_eq_None_iff by (meson image_mono set_take_subset subsetD)
  then show ?thesis
    using assms(2)
    by (auto simp: lru.get_result lru_run_facts lru_entries_def spec_expired_def split: option.split)
qed

theorem lru_recent_survives_witness:
  "fst (lru_Get 9 ''a'' (lru_run 2 0 ([OpPut 1 ''x'' (1::nat), OpPut 2 ''y'' 2] @
     OpPut 3 ''a'' 7 # [OpPut 4 ''b'' 8]))) \<noteq> None"
  by (rule lru_recent_survives) (simp_all add: no_removal_def)

end
