(* ===== verification/Inode_Manager.thy ===== *)
theory Inode_Manager
  imports Abs_Fs Lru_Cache
begin

text \<open>
  The inode manager of \<^verbatim>\<open>inode.go\<close>: the map from paths to inode numbers and back, the metadata it
  detects changes with, and the two LRU caches. \<^verbatim>\<open>GetInode\<close> and \<^verbatim>\<open>Clear\<close> hold \<^verbatim>\<open>pathMu\<close> throughout (and
  take the other mutexes inside it), the cache methods are single calls of the cache, so each
  method is one atomic step.
\<close>

section \<open>State\<close>

record inodeMeta =
  im_modTime :: int
  im_size :: int64

text \<open>A pointer is an address, or \<open>None\<close> for nil; the attributes it points to live in the memory of
  the handlers (theory \<open>Fuse_State\<close>).\<close>

type_synonym attr_ptr = "nat option"

record cachedAttr =
  ca_attr :: attr_ptr
  ca_timestamp :: int

text \<open>\<^verbatim>\<open>fuse.DirEntry\<close>, the fields the code sets.\<close>

record DirEntry =
  de_Name :: string
  de_Ino :: uint64
  de_Mode :: uint32

text \<open>A slice that may be nil: \<open>None\<close> is the nil slice, \<open>Some []\<close> an empty one.\<close>

record dirCacheEntry =
  dc_entries :: "DirEntry list option"
  dc_timestamp :: int

record InodeManager =
  pathToInode :: "(string, uint64) fmap"
  inodeToPath :: "(uint64, string) fmap"
  nextInode :: uint64
  attrCache :: "cachedAttr lruCache"
  attrTTL :: int
  dirCache :: "dirCacheEntry lruCache"
  dirTTL :: int
  inodeToMeta :: "(uint64, inodeMeta) fmap"

definition NewInodeManager :: "int \<Rightarrow> int \<Rightarrow> int \<Rightarrow> int \<Rightarrow> InodeManager" where
  "NewInodeManager attrCacheSize dirCacheSize aTTL dTTL = \<lparr>
     pathToInode = fmempty, inodeToPath = fmempty, nextInode = 1,
     attrCache = newLRUCache attrCacheSize aTTL, attrTTL = aTTL,
     dirCache = newLRUCache dirCacheSize dTTL, dirTTL = dTTL, inodeToMeta = fmempty\<rparr>"

section \<open>Inode numbers\<close>

definition isSameFile :: "uint64 \<Rightarrow> FileInfo \<Rightarrow> InodeManager \<Rightarrow> bool" where
  "isSameFile ino info im = (case fmlookup (inodeToMeta im) ino of
     None \<Rightarrow> False
   | Some meta \<Rightarrow> im_modTime meta = fi_ModTime info \<and> im_size meta = fi_Size info)"

definition storeMetaLocked :: "uint64 \<Rightarrow> FileInfo \<Rightarrow> InodeManager \<Rightarrow> InodeManager" where
  "storeMetaLocked ino info im = im\<lparr>inodeToMeta :=
     fmupd ino \<lparr>im_modTime = fi_ModTime info, im_size = fi_Size info\<rparr> (inodeToMeta im)\<rparr>"

definition deleteMetaLocked :: "uint64 \<Rightarrow> InodeManager \<Rightarrow> InodeManager" where
  "deleteMetaLocked ino im = im\<lparr>inodeToMeta := fmdrop ino (inodeToMeta im)\<rparr>"

text \<open>The tail of \<^verbatim>\<open>GetInode\<close>, from "Allocate new inode".\<close>

definition allocate_inode :: "string \<Rightarrow> FileInfo \<Rightarrow> InodeManager \<Rightarrow> uint64 \<times> InodeManager" where
  "allocate_inode path info im =
     (let im = im\<lparr>nextInode := nextInode im + 1\<rparr>;
          ino = nextInode im;
          im = im\<lparr>pathToInode := fmupd path ino (pathToInode im),
                  inodeToPath := fmupd ino path (inodeToPath im)\<rparr>;
          im = storeMetaLocked ino info im
      in (ino, im))"

definition GetInode :: "string \<Rightarrow> FileInfo \<Rightarrow> InodeManager \<Rightarrow> uint64 \<times> InodeManager" where
  "GetInode path info im = (case fmlookup (pathToInode im) path of
     Some ino \<Rightarrow>
       if isSameFile ino info im then (ino, im)
       else let im = im\<lparr>inodeToPath := fmdrop ino (inodeToPath im)\<rparr>;
                im = deleteMetaLocked ino im
            in allocate_inode path info im
   | None \<Rightarrow> allocate_inode path info im)"

section \<open>The two caches\<close>

definition GetCached :: "int \<Rightarrow> string \<Rightarrow> InodeManager \<Rightarrow> attr_ptr \<times> InodeManager" where
  "GetCached now path im = (case lru_Get now path (attrCache im) of
     (None, c) \<Rightarrow> (None, im\<lparr>attrCache := c\<rparr>)
   | (Some cached, c) \<Rightarrow> (ca_attr cached, im\<lparr>attrCache := c\<rparr>))"

text \<open>\<^verbatim>\<open>Cache\<close> and \<^verbatim>\<open>CacheDir\<close> read the clock twice: for their own timestamp and inside \<^verbatim>\<open>Put\<close>.\<close>

definition Cache :: "int \<Rightarrow> int \<Rightarrow> string \<Rightarrow> attr_ptr \<Rightarrow> InodeManager \<Rightarrow> InodeManager" where
  "Cache now1 now2 path attr im =
     (let cached = \<lparr>ca_attr = attr, ca_timestamp = now1\<rparr>
      in im\<lparr>attrCache := lru_Put now2 path cached (attrCache im)\<rparr>)"

definition CacheDir :: "int \<Rightarrow> int \<Rightarrow> string \<Rightarrow> DirEntry list option \<Rightarrow> InodeManager \<Rightarrow> InodeManager" where
  "CacheDir now1 now2 path entries im =
     (let entry = \<lparr>dc_entries = entries, dc_timestamp = now1\<rparr>
      in im\<lparr>dirCache := lru_Put now2 path entry (dirCache im)\<rparr>)"

definition GetDirCache :: "int \<Rightarrow> string \<Rightarrow> InodeManager \<Rightarrow> DirEntry list option \<times> InodeManager" where
  "GetDirCache now path im = (case lru_Get now path (dirCache im) of
     (None, c) \<Rightarrow> (None, im\<lparr>dirCache := c\<rparr>)
   | (Some entry, c) \<Rightarrow> (dc_entries entry, im\<lparr>dirCache := c\<rparr>))"

definition InvalidateDir :: "string \<Rightarrow> InodeManager \<Rightarrow> InodeManager" where
  "InvalidateDir path im = im\<lparr>dirCache := lru_Delete path (dirCache im)\<rparr>"

definition InvalidateAttr :: "string \<Rightarrow> InodeManager \<Rightarrow> InodeManager" where
  "InvalidateAttr path im = im\<lparr>attrCache := lru_Delete path (attrCache im)\<rparr>"

definition im_Clear :: "InodeManager \<Rightarrow> InodeManager" where
  "im_Clear im = im\<lparr>pathToInode := fmempty, inodeToPath := fmempty,
     attrCache := lru_Clear (attrCache im), dirCache := lru_Clear (dirCache im),
     inodeToMeta := fmempty\<rparr>"

record InodeManagerStats =
  TotalInodes :: nat
  ims_AttrCache :: CacheStats
  ims_DirCache :: CacheStats

definition im_Stats :: "InodeManager \<Rightarrow> InodeManagerStats" where
  "im_Stats im = \<lparr>TotalInodes = fcard (fmdom (pathToInode im)),
     ims_AttrCache = lru_Stats (attrCache im), ims_DirCache = lru_Stats (dirCache im)\<rparr>"

section \<open>The manager as a system of operations\<close>

datatype inode_op =
    OpGetInode string FileInfo
  | OpGetCached int string
  | OpCache int int string attr_ptr
  | OpCacheDir int int string "DirEntry list option"
  | OpGetDirCache int string
  | OpInvalidateDir string
  | OpInvalidateAttr string
  | OpInodeClear

fun inode_step :: "inode_op \<Rightarrow> InodeManager \<Rightarrow> InodeManager" where
  "inode_step (OpGetInode path info) im = snd (GetInode path info im)"
| "inode_step (OpGetCached now path) im = snd (GetCached now path im)"
| "inode_step (OpCache now1 now2 path attr) im = Cache now1 now2 path attr im"
| "inode_step (OpCacheDir now1 now2 path entries) im = CacheDir now1 now2 path entries im"
| "inode_step (OpGetDirCache now path) im = snd (GetDirCache now path im)"
| "inode_step (OpInvalidateDir path) im = InvalidateDir path im"
| "inode_step (OpInvalidateAttr path) im = InvalidateAttr path im"
| "inode_step OpInodeClear im = im_Clear im"

section \<open>The invariant\<close>

text \<open>
  \<open>maps_inv\<close>: the two maps are inverse to each other, exactly the numbers in use have metadata,
  and the numbers in use lie above 1 and up to the counter. \<open>im_inv n\<close> adds that the counter has
  moved at most \<open>n\<close> times and that both caches are well formed.
\<close>

definition maps_inv :: "InodeManager \<Rightarrow> bool" where
  "maps_inv im \<longleftrightarrow>
     (\<forall>p i. fmlookup (pathToInode im) p = Some i \<longleftrightarrow> fmlookup (inodeToPath im) i = Some p) \<and>
     fmdom (inodeToMeta im) = fmdom (inodeToPath im) \<and>
     (\<forall>i. i |\<in>| fmdom (inodeToPath im) \<longrightarrow> 1 < unat i \<and> unat i \<le> unat (nextInode im))"

definition im_inv :: "nat \<Rightarrow> InodeManager \<Rightarrow> bool" where
  "im_inv n im \<longleftrightarrow> maps_inv im \<and> unat (nextInode im) \<le> Suc n \<and> 1 \<le> unat (nextInode im) \<and>
     lru_inv (attrCache im) \<and> lru_inv (dirCache im)"

definition inode_limit :: nat where "inode_limit = 2 ^ 64 - 2"

definition live_inodes :: "InodeManager \<Rightarrow> uint64 set" where
  "live_inodes im = fset (fmdom (inodeToPath im))"

lemma maps_invD:
  assumes "maps_inv im"
  shows "fmlookup (pathToInode im) p = Some i \<longleftrightarrow> fmlookup (inodeToPath im) i = Some p"
    and "fmdom (inodeToMeta im) = fmdom (inodeToPath im)"
    and "i |\<in>| fmdom (inodeToPath im) \<Longrightarrow> 1 < unat i \<and> unat i \<le> unat (nextInode im)"
  using assms by (auto simp: maps_inv_def)

lemma allocate_inode_eq:
  "allocate_inode path info im = (nextInode im + 1,
     im\<lparr>nextInode := nextInode im + 1, pathToInode := fmupd path (nextInode im + 1) (pathToInode im),
        inodeToPath := fmupd (nextInode im + 1) path (inodeToPath im),
        inodeToMeta := fmupd (nextInode im + 1)
          \<lparr>im_modTime = fi_ModTime info, im_size = fi_Size info\<rparr> (inodeToMeta im)\<rparr>)"
  by (simp add: allocate_inode_def storeMetaLocked_def Let_def)

text \<open>Allocation is safe once the path's old number, if any, is out of \<open>inodeToPath\<close>.\<close>

lemma allocate_maps_inv:
  assumes half: "\<And>p i. p \<noteq> path \<Longrightarrow>
      fmlookup (pathToInode im) p = Some i \<longleftrightarrow> fmlookup (inodeToPath im) i = Some p"
    and gone: "\<And>i. fmlookup (inodeToPath im) i \<noteq> Some path"
    and meta: "fmdom (inodeToMeta im) = fmdom (inodeToPath im)"
    and bound: "\<And>i. i |\<in>| fmdom (inodeToPath im) \<Longrightarrow> 1 < unat i \<and> unat i \<le> unat (nextInode im)"
    and wrap: "unat (nextInode im) < 2 ^ 64 - 1" and one: "1 \<le> unat (nextInode im)"
  shows "maps_inv (snd (allocate_inode path info im))"
proof -
  let ?i = "nextInode im + 1"
  have i: "unat ?i = Suc (unat (nextInode im))" using wrap by (rule unat_Suc_no_wrap)
  then have fresh: "?i |\<notin>| fmdom (inodeToPath im)" using bound [of ?i] by auto
  then have none: "fmlookup (inodeToPath im) ?i = None" by (rule fmdom_notD)
  have "fmlookup (fmupd path ?i (pathToInode im)) p = Some j \<longleftrightarrow>
      fmlookup (fmupd ?i path (inodeToPath im)) j = Some p" for p j
    using half [of p j] gone [of j] none by (cases "p = path"; cases "j = ?i") auto
  moreover have "1 < unat j \<and> unat j \<le> Suc (unat (nextInode im))"
    if "j |\<in>| fmdom (fmupd ?i path (inodeToPath im))" for j
    using that bound [of j] i one by auto
  ultimately show ?thesis using meta i by (simp add: maps_inv_def allocate_inode_eq)
qed

lemma GetInode_cases:
  obtains (same) ino where "fmlookup (pathToInode im) path = Some ino" "isSameFile ino info im"
      "GetInode path info im = (ino, im)"
    | (changed) ino where "fmlookup (pathToInode im) path = Some ino" "\<not> isSameFile ino info im"
      "GetInode path info im = allocate_inode path info
         (im\<lparr>inodeToPath := fmdrop ino (inodeToPath im), inodeToMeta := fmdrop ino (inodeToMeta im)\<rparr>)"
    | (new) "fmlookup (pathToInode im) path = None"
      "GetInode path info im = allocate_inode path info im"
  by (cases "fmlookup (pathToInode im) path")
     (auto simp: GetInode_def deleteMetaLocked_def Let_def split: if_splits)

lemma GetInode_maps_inv:
  assumes inv: "maps_inv im" and wrap: "unat (nextInode im) < 2 ^ 64 - 1" and one: "1 \<le> unat (nextInode im)"
  shows "maps_inv (snd (GetInode path info im))"
proof (cases rule: GetInode_cases [where im = im and path = path and info = info])
  case (same ino)
  with inv show ?thesis by simp
next
  case (changed ino)
  let ?im = "im\<lparr>inodeToPath := fmdrop ino (inodeToPath im), inodeToMeta := fmdrop ino (inodeToMeta im)\<rparr>"
  note m = maps_invD [OF inv]
  have "maps_inv (snd (allocate_inode path info ?im))"
  proof (rule allocate_maps_inv)
    show "fmlookup (pathToInode ?im) p = Some i \<longleftrightarrow> fmlookup (inodeToPath ?im) i = Some p"
      if "p \<noteq> path" for p i
      using that m(1) [of p i] m(1) [of path i] changed(1) by auto
    show "fmlookup (inodeToPath ?im) i \<noteq> Some path" for i
      using m(1) [of path i] changed(1) by auto
  qed (use m(2,3) wrap one in auto)
  then show ?thesis by (simp add: changed(3))
next
  case new
  have "fmlookup (inodeToPath im) i \<noteq> Some path" for i
    using maps_invD(1) [OF inv, of path i] new(1) by simp
  with maps_invD [OF inv] wrap one have "maps_inv (snd (allocate_inode path info im))"
    by (intro allocate_maps_inv) auto
  then show ?thesis by (simp add: new(2))
qed

lemma GetInode_frame [simp]:
  "attrCache (snd (GetInode path info im)) = attrCache im"
  "dirCache (snd (GetInode path info im)) = dirCache im"
  by (cases rule: GetInode_cases [where im = im and path = path and info = info]; simp add: allocate_inode_eq)+

lemma GetInode_counter:
  "nextInode (snd (GetInode path info im)) = nextInode im \<and> snd (GetInode path info im) = im \<or>
   nextInode (snd (GetInode path info im)) = nextInode im + 1"
  by (cases rule: GetInode_cases [where im = im and path = path and info = info]) (simp_all add: allocate_inode_eq)

text \<open>The cache methods leave the numbering alone.\<close>

definition numbering :: "InodeManager \<Rightarrow>
    (string, uint64) fmap \<times> (uint64, string) fmap \<times> uint64 \<times> (uint64, inodeMeta) fmap" where
  "numbering im = (pathToInode im, inodeToPath im, nextInode im, inodeToMeta im)"

lemma numbering_cache_ops [simp]:
  "numbering (snd (GetCached now path im)) = numbering im"
  "numbering (Cache now1 now2 path attr im) = numbering im"
  "numbering (CacheDir now1 now2 path entries im) = numbering im"
  "numbering (snd (GetDirCache now path im)) = numbering im"
  "numbering (InvalidateDir path im) = numbering im"
  "numbering (InvalidateAttr path im) = numbering im"
  by (simp_all add: numbering_def GetCached_def Cache_def CacheDir_def GetDirCache_def
        InvalidateDir_def InvalidateAttr_def Let_def split: prod.split option.split)

lemma maps_inv_numbering: "numbering im = numbering im' \<Longrightarrow> maps_inv im = maps_inv im'"
  by (simp add: numbering_def maps_inv_def)

lemma caches_of_ops:
  "attrCache (snd (GetCached now path im)) = snd (lru_Get now path (attrCache im))"
  "dirCache (snd (GetCached now path im)) = dirCache im"
  "attrCache (snd (GetDirCache now path im)) = attrCache im"
  "dirCache (snd (GetDirCache now path im)) = snd (lru_Get now path (dirCache im))"
  by (simp_all add: GetCached_def GetDirCache_def split: prod.split option.split)

lemma im_inv_new: "im_inv 0 (NewInodeManager a d at dt)"
  by (simp add: im_inv_def maps_inv_def NewInodeManager_def lru_inv_new)

lemma maps_inv_Clear: "maps_inv (im_Clear im)"
  by (simp add: maps_inv_def im_Clear_def)

lemma inode_limit_no_wrap: "im_inv n im \<Longrightarrow> n < inode_limit \<Longrightarrow> unat (nextInode im) < 2 ^ 64 - 1"
  by (simp add: im_inv_def inode_limit_def)

lemma caches_step:
  assumes "lru_inv (attrCache im)" and "lru_inv (dirCache im)"
  shows "lru_inv (attrCache (inode_step op im)) \<and> lru_inv (dirCache (inode_step op im))"
  using assms
  by (cases op) (simp_all add: caches_of_ops lru.inv_get lru.inv_put lru.inv_delete Cache_def CacheDir_def
      InvalidateDir_def InvalidateAttr_def im_Clear_def lru_Clear_refines Let_def)

lemma maps_step:
  assumes "maps_inv im" and "unat (nextInode im) < 2 ^ 64 - 1" and "1 \<le> unat (nextInode im)"
  shows "maps_inv (inode_step op im)"
  using assms maps_inv_numbering [OF numbering_cache_ops(1)] maps_inv_numbering [OF numbering_cache_ops(2)]
    maps_inv_numbering [OF numbering_cache_ops(3)] maps_inv_numbering [OF numbering_cache_ops(4)]
    maps_inv_numbering [OF numbering_cache_ops(5)] maps_inv_numbering [OF numbering_cache_ops(6)]
  by (cases op) (simp_all add: GetInode_maps_inv maps_inv_Clear)

lemma nextInode_step:
  "nextInode (inode_step op im) = nextInode im \<or> nextInode (inode_step op im) = nextInode im + 1"
  using GetInode_counter
  by (cases op) (auto simp: GetCached_def Cache_def CacheDir_def GetDirCache_def InvalidateDir_def
      InvalidateAttr_def im_Clear_def Let_def split: prod.split option.split)

lemma im_inv_step:
  assumes "im_inv n im" and "n < inode_limit"
  shows "im_inv (Suc n) (inode_step op im)"
proof -
  note wrap = inode_limit_no_wrap [OF assms]
  have "unat (nextInode im + 1) = Suc (unat (nextInode im))" using wrap by (rule unat_Suc_no_wrap)
  with nextInode_step [of op im] assms(1)
  have "unat (nextInode (inode_step op im)) \<le> Suc (Suc n) \<and> 1 \<le> unat (nextInode (inode_step op im))"
    by (auto simp: im_inv_def)
  with assms(1) wrap maps_step [of im op] caches_step [of im op] show ?thesis
    by (simp add: im_inv_def)
qed

lemma live_inodes_GetInode:
  "live_inodes (snd (GetInode path info im)) \<subseteq> insert (nextInode im + 1) (live_inodes im) \<and>
   (snd (GetInode path info im) = im \<or> nextInode (snd (GetInode path info im)) = nextInode im + 1)"
  by (cases rule: GetInode_cases [where im = im and path = path and info = info])
     (auto simp: allocate_inode_eq live_inodes_def)

lemma live_inodes_step:
  "live_inodes (inode_step op im) \<subseteq> insert (nextInode im + 1) (live_inodes im)"
  using live_inodes_GetInode
  by (cases op) (auto simp: live_inodes_def GetCached_def Cache_def CacheDir_def GetDirCache_def
      InvalidateDir_def InvalidateAttr_def im_Clear_def Let_def split: prod.split option.split)

interpretation inodes: fresh_ids inode_step "NewInodeManager a d at dt" im_inv inode_limit live_inodes
  "\<lambda>im. unat (nextInode im)"
proof (unfold_locales, goal_cases)
  case 1
  show ?case by (rule im_inv_new)
next
  case (2 n im op)
  then show ?case by (rule im_inv_step)
next
  case (3 n im i)
  then show ?case by (simp add: im_inv_def maps_inv_def live_inodes_def)
next
  case (4 n im op)
  have "unat (nextInode im + 1) = Suc (unat (nextInode im))"
    using inode_limit_no_wrap [OF 4] by (rule unat_Suc_no_wrap)
  with nextInode_step [of op im] show ?case by auto
next
  case (5 n im i op)
  have "unat (nextInode im + 1) = Suc (unat (nextInode im))"
    using inode_limit_no_wrap [OF 5(1,2)] by (rule unat_Suc_no_wrap)
  with live_inodes_step [of op im] 5(3) show ?case by auto
qed

section \<open>Properties\<close>

text \<open>A manager after a sequence of calls, from the configuration of a mount.\<close>

definition inode_run :: "int \<Rightarrow> int \<Rightarrow> int \<Rightarrow> int \<Rightarrow> inode_op list \<Rightarrow> InodeManager" where
  "inode_run a d at dt ops = fold inode_step ops (NewInodeManager a d at dt)"

lemma inode_run_inv: "length ops \<le> inode_limit \<Longrightarrow> im_inv (length ops) (inode_run a d at dt ops)"
  unfolding inode_run_def by (rule inodes.inv_run)

lemma inode_run_maps: "length ops \<le> inode_limit \<Longrightarrow> maps_inv (inode_run a d at dt ops)"
  using inode_run_inv by (simp add: im_inv_def)

text \<open>Two observations of a file for the witnesses, and the same path seen later.\<close>

definition seen :: FileInfo where
  "seen = \<lparr>fi_Name = ''f'', fi_Size = 10, fi_Mode = 420, fi_ModTime = 1000, fi_IsDir = False, fi_Sys = None\<rparr>"

definition grown :: FileInfo where "grown = seen\<lparr>fi_Size := 11\<rparr>"

text \<open>C6: paths and inode numbers stay in bijection. After any sequence of manager calls (fewer than
  \<open>2 ^ 64 - 2\<close>, so that the counter does not wrap), a path has a number exactly when that number
  leads back to it, two paths never share a number, the numbers in use are the ones with stored
  metadata, and 0 and 1 are never in use.\<close>

theorem inode_bijection:
  assumes "length ops \<le> inode_limit" and im: "im = inode_run a d at dt ops"
  shows "(fmlookup (pathToInode im) p = Some i \<longleftrightarrow> fmlookup (inodeToPath im) i = Some p) \<and>
    (fmlookup (pathToInode im) p = Some i \<longrightarrow> fmlookup (pathToInode im) q = Some i \<longrightarrow> p = q) \<and>
    fmdom (inodeToMeta im) = fmdom (inodeToPath im) \<and>
    (fmlookup (pathToInode im) p = Some i \<longrightarrow> i \<noteq> 0 \<and> i \<noteq> 1)"
proof -
  note m = maps_invD [OF inode_run_maps [OF assms(1), of a d at dt], folded im]
  have "i \<noteq> 0 \<and> i \<noteq> 1" if "fmlookup (inodeToPath im) i = Some p"
    using m(3) [OF fmdomI [OF that]] by auto
  with m(2) show ?thesis by (auto simp: m(1))
qed

theorem inode_bijection_witness:
  "fmlookup (inodeToPath (inode_run 1 1 0 0 [OpGetInode ''/a'' seen, OpGetInode ''/b'' seen])) 3 = Some ''/b''"
proof -
  let ?ops = "[OpGetInode ''/a'' seen, OpGetInode ''/b'' seen]"
  have len: "length ?ops \<le> inode_limit" by (simp add: inode_limit_def)
  have "fmlookup (pathToInode (inode_run 1 1 0 0 ?ops)) ''/b'' = Some 3"
    by (simp add: inode_run_def NewInodeManager_def GetInode_def allocate_inode_eq)
  with inode_bijection [OF len refl, of 1 1 0 0 "''/b''" 3 "''/b''"] show ?thesis by blast
qed

definition keeps_path :: "string \<Rightarrow> FileInfo \<Rightarrow> inode_op \<Rightarrow> bool" where
  "keeps_path path info op \<longleftrightarrow> op \<noteq> OpInodeClear \<and>
     (\<forall>info'. op = OpGetInode path info' \<longrightarrow>
        fi_ModTime info' = fi_ModTime info \<and> fi_Size info' = fi_Size info)"

definition numbered :: "string \<Rightarrow> FileInfo \<Rightarrow> uint64 \<Rightarrow> InodeManager \<Rightarrow> bool" where
  "numbered path info ino im \<longleftrightarrow> fmlookup (pathToInode im) path = Some ino \<and>
     fmlookup (inodeToMeta im) ino = Some \<lparr>im_modTime = fi_ModTime info, im_size = fi_Size info\<rparr>"

lemma numbered_numbering: "numbering im = numbering im' \<Longrightarrow> numbered path info ino im = numbered path info ino im'"
  by (simp add: numbered_def numbering_def)

lemma isSameFile_numbered:
  "fmlookup (pathToInode im) path = Some ino \<Longrightarrow> isSameFile ino info im \<longleftrightarrow> numbered path info ino im"
  by (auto simp: isSameFile_def numbered_def split: option.split)

lemma GetInode_numbered:
  "numbered path info (fst (GetInode path info im)) (snd (GetInode path info im))"
  by (cases rule: GetInode_cases [where im = im and path = path and info = info])
     (simp_all add: allocate_inode_eq isSameFile_numbered numbered_def)

lemma numbered_GetInode_same:
  assumes "numbered path info ino im" and "fi_ModTime info' = fi_ModTime info" and "fi_Size info' = fi_Size info"
  shows "GetInode path info' im = (ino, im)"
  using assms by (simp add: GetInode_def numbered_def isSameFile_def)

lemma numbered_GetInode_other:
  assumes inv: "maps_inv im" and wrap: "unat (nextInode im) < 2 ^ 64 - 1"
    and num: "numbered path info ino im" and other: "p \<noteq> path"
  shows "numbered path info ino (snd (GetInode p info' im))"
proof -
  from num have "fmlookup (inodeToPath im) ino = Some path"
    using maps_invD(1) [OF inv] by (simp add: numbered_def)
  then have "unat ino \<le> unat (nextInode im)" using maps_invD(3) [OF inv fmdomI] by blast
  with unat_Suc_no_wrap [OF wrap] have fresh: "ino \<noteq> nextInode im + 1" by auto
  have "fmlookup (pathToInode im) p \<noteq> Some ino"
    using \<open>fmlookup (inodeToPath im) ino = Some path\<close> other maps_invD(1) [OF inv] by auto
  then show ?thesis
    using num other fresh
    by (cases rule: GetInode_cases [where im = im and path = p and info = info'])
       (auto simp: allocate_inode_eq numbered_def)
qed

lemma numbered_step:
  assumes "im_inv n im" and "n < inode_limit" and "numbered path info ino im" and "keeps_path path info op"
  shows "numbered path info ino (inode_step op im)"
proof (cases op)
  case (OpGetInode p info')
  then show ?thesis
    using assms numbered_GetInode_same [OF assms(3), of info'] inode_limit_no_wrap [OF assms(1,2)]
      numbered_GetInode_other [of im path info ino p info']
    by (cases "p = path") (auto simp: keeps_path_def im_inv_def)
qed (use assms numbered_numbering [OF numbering_cache_ops(1)] numbered_numbering [OF numbering_cache_ops(2)]
      numbered_numbering [OF numbering_cache_ops(3)] numbered_numbering [OF numbering_cache_ops(4)]
      numbered_numbering [OF numbering_cache_ops(5)] numbered_numbering [OF numbering_cache_ops(6)]
      in \<open>simp_all add: keeps_path_def\<close>)

lemma numbered_fold:
  assumes "im_inv n im" and "n + length ops \<le> inode_limit" and "numbered path info ino im"
    and "\<forall>op \<in> set ops. keeps_path path info op"
  shows "numbered path info ino (fold inode_step ops im)"
  using assms
proof (induction ops arbitrary: n im)
  case Nil
  then show ?case by simp
next
  case (Cons op ops)
  then show ?case
    using Cons.IH [of "Suc n" "inode_step op im"] im_inv_step [of n im op] numbered_step [of n im path info ino op]
    by simp
qed

text \<open>C19: inode numbers are stable. Once \<^verbatim>\<open>GetInode\<close> has numbered a path, every later call for the
  path answers the same number, whatever calls for other paths and whatever cache operations come
  between, as long as each observation of the path has the same mtime and size and the manager is
  not cleared.\<close>

theorem GetInode_stable:
  assumes "length ops + length later < inode_limit"
    and "\<forall>op \<in> set later. keeps_path path info op"
    and "fi_ModTime info' = fi_ModTime info" and "fi_Size info' = fi_Size info"
  shows "fst (GetInode path info' (inode_run a d at dt (ops @ OpGetInode path info # later))) =
    fst (GetInode path info (inode_run a d at dt ops))"
proof -
  let ?im = "inode_run a d at dt ops"
  let ?next = "snd (GetInode path info ?im)"
  have "im_inv (length ops) ?im" using assms(1) by (simp add: inode_run_inv)
  then have "im_inv (Suc (length ops)) ?next"
    using im_inv_step [of "length ops" ?im "OpGetInode path info"] assms(1) by simp
  from numbered_fold [OF this _ GetInode_numbered assms(2)] assms(1)
  have "numbered path info (fst (GetInode path info ?im)) (fold inode_step later ?next)" by simp
  moreover have "inode_run a d at dt (ops @ OpGetInode path info # later) = fold inode_step later ?next"
    by (simp add: inode_run_def)
  ultimately show ?thesis
    using numbered_GetInode_same [OF _ assms(3,4)] by simp
qed

theorem GetInode_stable_witness:
  "fst (GetInode ''/a'' seen (inode_run 1 1 0 0 ([] @ OpGetInode ''/a'' seen #
      [OpGetInode ''/b'' seen, OpGetInode ''/b'' grown]))) = 2"
proof -
  have "fst (GetInode ''/a'' seen (inode_run 1 1 0 0 ([] @ OpGetInode ''/a'' seen #
      [OpGetInode ''/b'' seen, OpGetInode ''/b'' grown]))) =
    fst (GetInode ''/a'' seen (inode_run 1 1 0 0 []))"
    by (rule GetInode_stable) (simp_all add: inode_limit_def keeps_path_def)
  also have "\<dots> = 2"
    by (simp add: inode_run_def NewInodeManager_def GetInode_def allocate_inode_eq)
  finally show ?thesis .
qed

text \<open>C37: a changed file gets a new number. When the mtime or the size of a known path differs from
  what was stored, \<^verbatim>\<open>GetInode\<close> answers a number that no path had, the old number leads nowhere
  and its metadata is gone, and the new observation is what the next comparison uses.\<close>

theorem GetInode_changed:
  assumes "length ops < inode_limit" and im: "im = inode_run a d at dt ops"
    and "fmlookup (pathToInode im) path = Some old" and "\<not> isSameFile old info im"
  shows "fst (GetInode path info im) \<notin> live_inodes im \<and>
    fmlookup (inodeToPath (snd (GetInode path info im))) old = None \<and>
    fmlookup (inodeToMeta (snd (GetInode path info im))) old = None \<and>
    isSameFile (fst (GetInode path info im)) info (snd (GetInode path info im))"
proof -
  have inv: "im_inv (length ops) im" unfolding im using assms(1) by (simp add: inode_run_inv)
  have new: "unat (nextInode im + 1) = Suc (unat (nextInode im))"
    using inode_limit_no_wrap [OF inv assms(1)] by (rule unat_Suc_no_wrap)
  have maps: "maps_inv im" using inv by (simp add: im_inv_def)
  have "unat i \<le> unat (nextInode im)" if "i |\<in>| fmdom (inodeToPath im)" for i
    using maps_invD(3) [OF maps that] by simp
  with new have fresh: "nextInode im + 1 |\<notin>| fmdom (inodeToPath im)" by fastforce
  have "old |\<in>| fmdom (inodeToPath im)"
    using assms(3) maps_invD(1) [OF maps] by (auto intro: fmdomI)
  with fresh have "old \<noteq> nextInode im + 1" by auto
  with assms(3,4) fresh show ?thesis
    by (cases rule: GetInode_cases [where im = im and path = path and info = info])
       (auto simp: allocate_inode_eq live_inodes_def isSameFile_def)
qed

theorem GetInode_changed_witness:
  "fst (GetInode ''/a'' grown (inode_run 1 1 0 0 [OpGetInode ''/a'' seen])) = 3 \<and>
   fmlookup (inodeToPath (snd (GetInode ''/a'' grown (inode_run 1 1 0 0 [OpGetInode ''/a'' seen])))) 2 = None"
proof -
  let ?im = "inode_run 1 1 0 0 [OpGetInode ''/a'' seen]"
  have "length [OpGetInode ''/a'' seen] < inode_limit" by (simp add: inode_limit_def)
  moreover have "fmlookup (pathToInode ?im) ''/a'' = Some 2" "\<not> isSameFile 2 grown ?im"
      "fst (GetInode ''/a'' grown ?im) = 3"
    by (simp_all add: inode_run_def NewInodeManager_def GetInode_def allocate_inode_eq isSameFile_def
        grown_def seen_def deleteMetaLocked_def)
  ultimately show ?thesis using GetInode_changed [of "[OpGetInode ''/a'' seen]" ?im 1 1 0 0 "''/a''" 2 grown] by blast
qed

text \<open>C36: inode numbers are never reused. A number that was in use and is given up, because its
  file changed or the manager was cleared, is not handed out again by any later call.\<close>

theorem inode_never_reused:
  assumes "length (ops1 @ ops2 @ ops3) \<le> inode_limit"
    and "i \<in> live_inodes (inode_run a d at dt ops1)"
    and "i \<notin> live_inodes (inode_run a d at dt (ops1 @ ops2))"
  shows "i \<notin> live_inodes (inode_run a d at dt (ops1 @ ops2 @ ops3))"
  using assms unfolding inode_run_def by (rule inodes.never_reused)

theorem inode_never_reused_witness:
  "2 \<notin> live_inodes (inode_run 1 1 0 0 ([OpGetInode ''/a'' seen] @ [OpInodeClear] @
      [OpGetInode ''/a'' seen, OpGetInode ''/b'' seen]))"
  by (rule inode_never_reused)
     (simp_all add: inode_limit_def live_inodes_def inode_run_def NewInodeManager_def GetInode_def
        allocate_inode_eq im_Clear_def)

end
