(* ===== verification/Stats_Collector.thy ===== *)
theory Stats_Collector
  imports Inode_Manager
begin

text \<open>The statistics collector of \<^verbatim>\<open>stats.go\<close>: four atomic 64-bit counters that wrap.\<close>

record statsCollector =
  operations :: uint64
  bytesRead :: uint64
  bytesWritten :: uint64
  errors :: uint64

record Stats =
  st_Mountpoint :: string
  st_Operations :: uint64
  st_BytesRead :: uint64
  st_BytesWritten :: uint64
  st_Errors :: uint64
  st_OpenFiles :: nat
  st_InodeStats :: InodeManagerStats

definition newStatsCollector :: statsCollector where
  "newStatsCollector = \<lparr>operations = 0, bytesRead = 0, bytesWritten = 0, errors = 0\<rparr>"

definition stats_recordOperation :: "statsCollector \<Rightarrow> statsCollector" where
  "stats_recordOperation s = s\<lparr>operations := operations s + 1\<rparr>"

text \<open>\<^verbatim>\<open>n\<close> is an \<^verbatim>\<open>int\<close> and is converted to \<^verbatim>\<open>uint64\<close> bit for bit.\<close>

definition stats_recordRead :: "uint64 \<Rightarrow> statsCollector \<Rightarrow> statsCollector" where
  "stats_recordRead n s = s\<lparr>bytesRead := bytesRead s + n\<rparr>"

definition stats_recordWrite :: "uint64 \<Rightarrow> statsCollector \<Rightarrow> statsCollector" where
  "stats_recordWrite n s = s\<lparr>bytesWritten := bytesWritten s + n\<rparr>"

definition stats_recordError :: "statsCollector \<Rightarrow> statsCollector" where
  "stats_recordError s = s\<lparr>errors := errors s + 1\<rparr>"

text \<open>The fields \<^verbatim>\<open>snapshot\<close> leaves at their zero values.\<close>

definition zeroCacheStats :: CacheStats where
  "zeroCacheStats = \<lparr>cs_Size = 0, cs_MaxSize = 0, cs_Hits = 0, cs_Misses = 0, cs_Evictions = 0, cs_HitRate = 0\<rparr>"

definition snapshot :: "statsCollector \<Rightarrow> Stats" where
  "snapshot s = \<lparr>st_Mountpoint = [], st_Operations = operations s, st_BytesRead = bytesRead s,
     st_BytesWritten = bytesWritten s, st_Errors = errors s, st_OpenFiles = 0,
     st_InodeStats = \<lparr>TotalInodes = 0, ims_AttrCache = zeroCacheStats, ims_DirCache = zeroCacheStats\<rparr>\<rparr>"

lemma stats_fields [simp]:
  "operations (stats_recordOperation s) = operations s + 1" "errors (stats_recordOperation s) = errors s"
  "bytesRead (stats_recordOperation s) = bytesRead s" "bytesWritten (stats_recordOperation s) = bytesWritten s"
  "operations (stats_recordError s) = operations s" "errors (stats_recordError s) = errors s + 1"
  "bytesRead (stats_recordError s) = bytesRead s" "bytesWritten (stats_recordError s) = bytesWritten s"
  "operations (stats_recordRead n s) = operations s" "errors (stats_recordRead n s) = errors s"
  "bytesRead (stats_recordRead n s) = bytesRead s + n" "bytesWritten (stats_recordRead n s) = bytesWritten s"
  "operations (stats_recordWrite n s) = operations s" "errors (stats_recordWrite n s) = errors s"
  "bytesRead (stats_recordWrite n s) = bytesRead s" "bytesWritten (stats_recordWrite n s) = bytesWritten s + n"
  by (simp_all add: stats_recordOperation_def stats_recordError_def stats_recordRead_def stats_recordWrite_def)

end
