(* ===== verification/Handle_Tracker.thy ===== *)
theory Handle_Tracker
  imports Go_Errors "HOL-Library.Multiset"
begin

text \<open>
  The handle tracker of \<^verbatim>\<open>handles.go\<close>: the table of open file handles. Files are values of a type
  \<open>'f\<close>; closing one is the backend's business, so the two operations that close take its \<^verbatim>\<open>Close\<close>
  method as an argument and thread the backend state \<open>'b\<close>. Every method holds \<^verbatim>\<open>ht.mu\<close>. The
  tracker interprets \<open>fresh_ids\<close>: handle numbers are never reused.
\<close>

section \<open>State and operations\<close>

record 'f handleEntry =
  he_file :: 'f
  he_refCount :: int32
  he_flags :: uint64
  he_path :: string

record 'f HandleTracker =
  handles :: "(uint64, 'f handleEntry) fmap"
  nextHandle :: uint64

type_synonym ('b, 'f) closer = "'f \<Rightarrow> 'b \<Rightarrow> goerr option \<times> 'b"

definition NewHandleTracker :: "'f HandleTracker" where
  "NewHandleTracker = \<lparr>handles = fmempty, nextHandle = 0\<rparr>"

definition ht_Add :: "'f \<Rightarrow> uint64 \<Rightarrow> string \<Rightarrow> 'f HandleTracker \<Rightarrow> uint64 \<times> 'f HandleTracker" where
  "ht_Add file flags path ht =
     (let fh = nextHandle ht + 1;
          ht = ht\<lparr>nextHandle := fh\<rparr>
      in (fh, ht\<lparr>handles := fmupd fh
                \<lparr>he_file = file, he_refCount = 1, he_flags = flags, he_path = path\<rparr> (handles ht)\<rparr>))"

definition ht_Get :: "uint64 \<Rightarrow> 'f HandleTracker \<Rightarrow> 'f option" where
  "ht_Get fh ht = (case fmlookup (handles ht) fh of None \<Rightarrow> None | Some entry \<Rightarrow> Some (he_file entry))"

definition ht_GetEntry :: "uint64 \<Rightarrow> 'f HandleTracker \<Rightarrow> 'f handleEntry option" where
  "ht_GetEntry fh ht = fmlookup (handles ht) fh"

text \<open>The comparison \<^verbatim>\<open>refCount <= 0\<close> is signed; a failing \<^verbatim>\<open>Close\<close> still removes the handle.\<close>

definition ht_Release :: "('b, 'f) closer \<Rightarrow> uint64 \<Rightarrow> 'f HandleTracker \<Rightarrow> 'b \<Rightarrow>
    errno \<times> 'f HandleTracker \<times> 'b" where
  "ht_Release close fh ht b = (case fmlookup (handles ht) fh of
     None \<Rightarrow> (EBADF, ht, b)
   | Some entry \<Rightarrow>
       let entry = entry\<lparr>he_refCount := he_refCount entry - 1\<rparr> in
       if sint (he_refCount entry) \<le> 0
       then let (err, b) = close (he_file entry) b;
                ht = ht\<lparr>handles := fmdrop fh (handles ht)\<rparr>
            in if err \<noteq> None then (mapError err, ht, b) else (OK, ht, b)
       else (OK, ht\<lparr>handles := fmupd fh entry (handles ht)\<rparr>, b))"

text \<open>\<^verbatim>\<open>CloseAll\<close> ranges over the map in an order Go does not specify: the order is an argument.\<close>

fun ht_CloseAll :: "('b, 'f) closer \<Rightarrow> uint64 list \<Rightarrow> 'f HandleTracker \<Rightarrow> 'b \<Rightarrow> 'f HandleTracker \<times> 'b" where
  "ht_CloseAll close [] ht b = (ht, b)"
| "ht_CloseAll close (fh # order) ht b = (case fmlookup (handles ht) fh of
     None \<Rightarrow> ht_CloseAll close order ht b
   | Some entry \<Rightarrow>
       ht_CloseAll close order (ht\<lparr>handles := fmdrop fh (handles ht)\<rparr>) (snd (close (he_file entry) b)))"

definition ht_Count :: "'f HandleTracker \<Rightarrow> nat" where
  "ht_Count ht = fcard (fmdom (handles ht))"

datatype 'f handle_op =
    OpAdd 'f uint64 string
  | OpRelease uint64
  | OpCloseAll "uint64 list"

fun handle_step :: "('b, 'f) closer \<Rightarrow> 'f handle_op \<Rightarrow> 'f HandleTracker \<times> 'b \<Rightarrow> 'f HandleTracker \<times> 'b" where
  "handle_step close (OpAdd file flags path) (ht, b) = (snd (ht_Add file flags path ht), b)"
| "handle_step close (OpRelease fh) (ht, b) = snd (ht_Release close fh ht b)"
| "handle_step close (OpCloseAll order) (ht, b) = ht_CloseAll close order ht b"

definition handle_run :: "('b, 'f) closer \<Rightarrow> 'f handle_op list \<Rightarrow> 'b \<Rightarrow> 'f HandleTracker \<times> 'b" where
  "handle_run close ops b = fold (handle_step close) ops (NewHandleTracker, b)"

section \<open>The invariant\<close>

text \<open>Numbers in use lie above 0 and up to the counter, and every reference count is 1.\<close>

definition ht_inv :: "nat \<Rightarrow> 'f HandleTracker \<Rightarrow> bool" where
  "ht_inv n ht \<longleftrightarrow> unat (nextHandle ht) \<le> n \<and>
     (\<forall>fh entry. fmlookup (handles ht) fh = Some entry \<longrightarrow>
        0 < unat fh \<and> unat fh \<le> unat (nextHandle ht) \<and> he_refCount entry = 1)"

definition handle_limit :: nat where "handle_limit = 2 ^ 64 - 1"

lemma ht_invD:
  "ht_inv n ht \<Longrightarrow> fmlookup (handles ht) fh = Some entry \<Longrightarrow>
     0 < unat fh \<and> unat fh \<le> unat (nextHandle ht) \<and> he_refCount entry = 1"
  by (simp add: ht_inv_def)

lemma ht_Add_counter:
  "ht_inv n ht \<Longrightarrow> n < handle_limit \<Longrightarrow> unat (nextHandle ht + 1) = Suc (unat (nextHandle ht))"
  by (rule unat_Suc_no_wrap) (simp add: ht_inv_def handle_limit_def)

lemma ht_Release_known:
  assumes "ht_inv n ht" and "fmlookup (handles ht) fh = Some entry"
  shows "ht_Release close fh ht b = (mapError (fst (close (he_file entry) b)),
    ht\<lparr>handles := fmdrop fh (handles ht)\<rparr>, snd (close (he_file entry) b))"
  using assms ht_invD [OF assms] by (auto simp: ht_Release_def Let_def split: prod.split)

lemma ht_Release_unknown:
  "fmlookup (handles ht) fh = None \<Longrightarrow> ht_Release close fh ht b = (EBADF, ht, b)"
  by (simp add: ht_Release_def)

lemma ht_inv_drop: "ht_inv n ht \<Longrightarrow> ht_inv n (ht\<lparr>handles := fmdrop fh (handles ht)\<rparr>)"
  by (auto simp: ht_inv_def)

lemma ht_inv_mono: "ht_inv n ht \<Longrightarrow> n \<le> m \<Longrightarrow> ht_inv m ht"
  by (auto simp: ht_inv_def)

lemma ht_CloseAll_inv:
  "ht_inv n ht \<Longrightarrow> ht_inv n (fst (ht_CloseAll close order ht b)) \<and>
     nextHandle (fst (ht_CloseAll close order ht b)) = nextHandle ht \<and>
     fmdom (handles (fst (ht_CloseAll close order ht b))) |\<subseteq>| fmdom (handles ht)"
proof (induction order arbitrary: ht b)
  case Nil
  then show ?case by simp
next
  case (Cons fh order)
  show ?case
  proof (cases "fmlookup (handles ht) fh")
    case None
    with Cons show ?thesis by simp
  next
    case (Some entry)
    with Cons.IH [OF ht_inv_drop [OF Cons.prems, of fh]] show ?thesis by auto
  qed
qed

lemma handle_step_facts:
  assumes "ht_inv n (fst s)" and "n < handle_limit"
  shows "ht_inv (Suc n) (fst (handle_step close op s)) \<and>
    unat (nextHandle (fst s)) \<le> unat (nextHandle (fst (handle_step close op s))) \<and>
    fset (fmdom (handles (fst (handle_step close op s)))) \<subseteq>
      insert (nextHandle (fst s) + 1) (fset (fmdom (handles (fst s))))"
proof -
  obtain ht b where s: "s = (ht, b)" by (cases s)
  with assms have inv: "ht_inv n ht" by simp
  note next_eq = ht_Add_counter [OF inv assms(2)]
  show ?thesis
  proof (cases op)
    case (OpAdd f flags path)
    with s inv next_eq show ?thesis by (fastforce simp: ht_Add_def ht_inv_def Let_def intro: le_SucI)
  next
    case (OpRelease fh)
    with s inv ht_inv_mono [OF inv] ht_inv_mono [OF ht_inv_drop [OF inv]] show ?thesis
      by (cases "fmlookup (handles ht) fh")
         (auto simp: ht_Release_known [OF inv] ht_Release_unknown)
  next
    case (OpCloseAll order)
    with s ht_CloseAll_inv [OF inv, of close order b] ht_inv_mono show ?thesis by fastforce
  qed
qed

interpretation handles: fresh_ids "handle_step close" "(NewHandleTracker, b)" "\<lambda>n s. ht_inv n (fst s)"
  handle_limit "\<lambda>s. fset (fmdom (handles (fst s)))" "\<lambda>s. unat (nextHandle (fst s))"
proof (unfold_locales, goal_cases)
  case 1
  show ?case by (simp add: ht_inv_def NewHandleTracker_def)
next
  case (2 n s op)
  then show ?case using handle_step_facts by blast
next
  case (3 n s i)
  then show ?case using ht_invD by (fastforce simp: fmlookup_dom_iff)
next
  case (4 n s op)
  then show ?case using handle_step_facts by blast
next
  case (5 n s i op)
  with ht_Add_counter [OF 5(1,2)] handle_step_facts [OF 5(1,2), of close op] show ?case by auto
qed

lemma handle_run_inv: "length ops \<le> handle_limit \<Longrightarrow> ht_inv (length ops) (fst (handle_run close ops b))"
  unfolding handle_run_def by (rule handles.inv_run)

section \<open>Which files are open, and which were closed\<close>

text \<open>The files behind the handles in use, each as often as it has handles; and a closer that also
  writes down every file it is given.\<close>

definition open_files :: "'f HandleTracker \<Rightarrow> 'f multiset" where
  "open_files ht = image_mset (\<lambda>fh. he_file (the (fmlookup (handles ht) fh))) (mset_set (fset (fmdom (handles ht))))"

definition logging :: "('b, 'f) closer \<Rightarrow> ('b \<times> 'f list, 'f) closer" where
  "logging close f s = (fst (close f (fst s)), snd (close f (fst s)), f # snd s)"

fun opened :: "'f handle_op \<Rightarrow> 'f multiset" where
  "opened (OpAdd f flags path) = {#f#}"
| "opened _ = {#}"

lemma open_files_add:
  assumes "fmlookup (handles ht) fh = None"
  shows "open_files (ht\<lparr>nextHandle := n, handles := fmupd fh e (handles ht)\<rparr>) =
    add_mset (he_file e) (open_files ht)"
proof -
  have new: "fh \<notin> fset (fmdom (handles ht))" using assms by (simp add: fmdom_notI)
  have "image_mset (\<lambda>x. he_file (the (fmlookup (fmupd fh e (handles ht)) x))) (mset_set (fset (fmdom (handles ht)))) =
      open_files ht"
    unfolding open_files_def using new by (intro image_mset_cong) auto
  with new show ?thesis by (simp add: open_files_def)
qed

lemma open_files_drop:
  assumes "fmlookup (handles ht) fh = Some e"
  shows "open_files ht = add_mset (he_file e) (open_files (ht\<lparr>handles := fmdrop fh (handles ht)\<rparr>))"
proof -
  let ?D = "fset (fmdom (handles ht))"
  have mem: "fh \<in> ?D" using assms by (simp add: fmdomI)
  then have split: "mset_set ?D = add_mset fh (mset_set (?D - {fh}))"
    by (simp add: mset_set.remove)
  have "image_mset (\<lambda>x. he_file (the (fmlookup (fmdrop fh (handles ht)) x))) (mset_set (?D - {fh})) =
      image_mset (\<lambda>x. he_file (the (fmlookup (handles ht) x))) (mset_set (?D - {fh}))"
    by (intro image_mset_cong) auto
  with split assms show ?thesis by (simp add: open_files_def)
qed

lemma CloseAll_conserves:
  "mset (snd (snd (ht_CloseAll (logging close) order ht s))) +
     open_files (fst (ht_CloseAll (logging close) order ht s)) = mset (snd s) + open_files ht"
proof (induction order arbitrary: ht s)
  case Nil
  then show ?case by simp
next
  case (Cons fh order)
  show ?case
  proof (cases "fmlookup (handles ht) fh")
    case None
    with Cons show ?thesis by simp
  next
    case (Some e)
    with Cons show ?thesis by (simp add: logging_def open_files_drop [OF Some])
  qed
qed

lemma step_conserves:
  assumes "ht_inv n (fst s)" and "n < handle_limit"
  shows "mset (snd (snd (handle_step (logging close) op s))) + open_files (fst (handle_step (logging close) op s)) =
    opened op + mset (snd (snd s)) + open_files (fst s)"
proof -
  obtain ht b where s: "s = (ht, b)" by (cases s)
  with assms have inv: "ht_inv n ht" by simp
  show ?thesis
  proof (cases op)
    case (OpAdd f flags path)
    have "fmlookup (handles ht) (nextHandle ht + 1) = None"
      using ht_invD [OF inv, of "nextHandle ht + 1"] ht_Add_counter [OF inv assms(2)]
      by (cases "fmlookup (handles ht) (nextHandle ht + 1)") auto
    with OpAdd s show ?thesis by (simp add: ht_Add_def Let_def open_files_add)
  next
    case (OpRelease fh)
    with s show ?thesis
      by (cases "fmlookup (handles ht) fh")
         (auto simp: ht_Release_known [OF inv] ht_Release_unknown logging_def open_files_drop)
  next
    case (OpCloseAll order)
    with s show ?thesis by (simp add: CloseAll_conserves)
  qed
qed

lemma fold_conserves:
  assumes "ht_inv n (fst s)" and "n + length ops \<le> handle_limit"
  shows "mset (snd (snd (fold (handle_step (logging close)) ops s))) +
      open_files (fst (fold (handle_step (logging close)) ops s)) =
    sum_list (map opened ops) + mset (snd (snd s)) + open_files (fst s)"
  using assms
proof (induction ops arbitrary: n s)
  case Nil
  then show ?case by simp
next
  case (Cons op ops)
  have lim: "n < handle_limit" using Cons.prems(2) by simp
  note step = step_conserves [OF Cons.prems(1) lim, of close op]
  from Cons.IH [of "Suc n" "handle_step (logging close) op s"] Cons.prems
    handle_step_facts [OF Cons.prems(1) lim, of "logging close" op] step
  show ?case by simp
qed

lemma CloseAll_empties:
  assumes "fset (fmdom (handles ht)) \<subseteq> set order"
  shows "handles (fst (ht_CloseAll close order ht b)) = fmempty"
  using assms
proof (induction order arbitrary: ht b)
  case Nil
  then show ?case by (metis bot_fset.rep_eq empty_set fmrestrict_fset_dom fmrestrict_fset_null
      fset_inject fst_conv ht_CloseAll.simps(1) subset_empty)
next
  case (Cons fh order)
  show ?case
  proof (cases "fmlookup (handles ht) fh")
    case None
    then have "fh \<notin> fset (fmdom (handles ht))" by (simp add: fmdom_notI)
    with None Cons show ?thesis by auto
  next
    case (Some e)
    with Cons.IH [of "ht\<lparr>handles := fmdrop fh (handles ht)\<rparr>"] Cons.prems show ?thesis by auto
  qed
qed

section \<open>Properties\<close>

lemma run_conserves:
  assumes "length ops \<le> handle_limit"
  shows "mset (snd (snd (handle_run (logging close) ops (b, [])))) +
    open_files (fst (handle_run (logging close) ops (b, []))) = sum_list (map opened ops)"
  unfolding handle_run_def
  using fold_conserves [of 0 "(NewHandleTracker, (b, []))" ops close] assms handles.inv_init
  by (simp add: open_files_def NewHandleTracker_def)

lemma CloseAll_inv_run:
  assumes "length ops < handle_limit"
  shows "ht_inv (length ops) (fst (handle_run close ops b))"
  using handle_run_inv [of ops close b] assms by simp

text \<open>Opening a file after any sequence of opens, releases and close-alls hands out a handle that
  is not 0 and not in use, leads to exactly that file with one reference and the given flags and
  path, and disturbs no other handle.\<close>

theorem Add_fresh_handle:
  assumes "length ops < handle_limit"
    and "handle_run close ops b = (ht, b')"
    and "ht_Add f flags path ht = (fh, ht')"
  shows "fh \<noteq> 0 \<and> ht_Get fh ht = None \<and> ht_Get fh ht' = Some f \<and>
    ht_GetEntry fh ht' = Some \<lparr>he_file = f, he_refCount = 1, he_flags = flags, he_path = path\<rparr> \<and>
    (\<forall>g. g = fh \<or> ht_GetEntry g ht' = ht_GetEntry g ht) \<and> ht_Count ht' = Suc (ht_Count ht)"
proof -
  have inv: "ht_inv (length ops) ht" using CloseAll_inv_run [OF assms(1), of close b] assms(2) by simp
  note next_eq = ht_Add_counter [OF inv assms(1)]
  have none: "fmlookup (handles ht) (nextHandle ht + 1) = None"
    using ht_invD [OF inv, of "nextHandle ht + 1"] next_eq
    by (cases "fmlookup (handles ht) (nextHandle ht + 1)") auto
  have "nextHandle ht + 1 \<noteq> 0" using next_eq by (metis nat.distinct(1) unat_0)
  with none assms(3) show ?thesis
    by (auto simp: ht_Add_def Let_def ht_Get_def ht_GetEntry_def ht_Count_def fmdom_notI
          fcard_finsert_disjoint split: if_splits)
qed

lemma Add_fresh_handle_witness:
  "ht_Get 2 (snd (ht_Add (7 :: nat) 0 ''/b'' (fst (handle_run (\<lambda>f n :: nat. (None, n + f)) [OpAdd 5 0 ''/a''] 0)))) = Some 7"
  using Add_fresh_handle [of "[OpAdd 5 0 ''/a'']" "\<lambda>f n :: nat. (None, n + f)" 0
      "\<lparr>handles = fmupd 1 \<lparr>he_file = 5, he_refCount = 1, he_flags = 0, he_path = ''/a''\<rparr> fmempty, nextHandle = 1\<rparr>" 0
      7 0 "''/b''" 2]
  by (simp add: handle_run_def ht_Add_def NewHandleTracker_def handle_limit_def Let_def)

text \<open>C26: releasing a handle that is not in use answers EBADF and touches nothing. Releasing one that
  is in use calls Close on its file once, answers what the error mapper makes of its result, and
  frees the handle even when Close fails, so that a second release answers EBADF.\<close>

theorem Release_closes_once:
  assumes "length ops \<le> handle_limit"
    and "handle_run close ops b = (ht, b')"
    and "ht_Release close fh ht b' = (err, ht', b'')"
  shows "(case ht_GetEntry fh ht of
      None \<Rightarrow> err = EBADF \<and> ht' = ht \<and> b'' = b'
    | Some entry \<Rightarrow> err = mapError (fst (close (he_file entry) b')) \<and> b'' = snd (close (he_file entry) b')) \<and>
    ht_GetEntry fh ht' = None \<and> (\<forall>g. g = fh \<or> ht_GetEntry g ht' = ht_GetEntry g ht) \<and>
    ht_Release close fh ht' b'' = (EBADF, ht', b'')"
proof -
  have inv: "ht_inv (length ops) ht" using handle_run_inv [OF assms(1), of close b] assms(2) by simp
  show ?thesis
  proof (cases "fmlookup (handles ht) fh")
    case None
    with assms(3) show ?thesis by (auto simp: ht_Release_unknown ht_GetEntry_def)
  next
    case (Some entry)
    with assms(3) show ?thesis
      by (auto simp: ht_Release_known [OF inv Some] ht_GetEntry_def ht_Release_unknown split: if_splits)
  qed
qed

lemma Release_closes_once_witness:
  "ht_GetEntry 1 (fst (snd (ht_Release (\<lambda>f n :: nat. (Some ErrClosed, n + f)) 1
     (fst (handle_run (\<lambda>f n :: nat. (Some ErrClosed, n + f)) [OpAdd 5 0 ''/a''] 0)) 0))) = None"
  using Release_closes_once [of "[OpAdd 5 0 ''/a'']" "\<lambda>f n :: nat. (Some ErrClosed, n + f)" 0
      "\<lparr>handles = fmupd 1 \<lparr>he_file = 5, he_refCount = 1, he_flags = 0, he_path = ''/a''\<rparr> fmempty, nextHandle = 1\<rparr>" 0
      1 EBADF "\<lparr>handles = fmdrop 1 (fmupd 1 \<lparr>he_file = 5, he_refCount = 1, he_flags = 0, he_path = ''/a''\<rparr> fmempty), nextHandle = 1\<rparr>" 5]
  by (simp add: handle_run_def ht_Add_def NewHandleTracker_def handle_limit_def Let_def ht_Release_def mapError_def)

text \<open>A handle number that was in use and is no longer is never handed out again.\<close>

theorem handle_never_reused:
  assumes "length (ops1 @ ops2 @ ops3) \<le> handle_limit"
    and "ht_GetEntry fh (fst (handle_run close ops1 b)) \<noteq> None"
    and "ht_GetEntry fh (fst (handle_run close (ops1 @ ops2) b)) = None"
  shows "ht_GetEntry fh (fst (handle_run close (ops1 @ ops2 @ ops3) b)) = None"
  using handles.never_reused [OF assms(1), of fh close b] assms(2,3)
  by (auto simp: handle_run_def ht_GetEntry_def fmlookup_dom_iff)

lemma handle_never_reused_witness:
  "ht_GetEntry 1 (fst (handle_run (\<lambda>f n :: nat. (None, n + f))
     ([OpAdd (5 :: nat) 0 ''/a''] @ [OpRelease 1] @ [OpAdd 6 0 ''/b'']) 0)) = None"
  using handle_never_reused [of "[OpAdd 5 0 ''/a'']" "[OpRelease 1]" "[OpAdd 6 0 ''/b'']" 1 "\<lambda>f n :: nat. (None, n + f)" 0]
  by (simp add: handle_run_def ht_Add_def NewHandleTracker_def handle_limit_def Let_def ht_GetEntry_def ht_Release_def)

text \<open>When \<^verbatim>\<open>CloseAll\<close> follows any sequence of opens, releases and close-alls, no handle is left and
  every file handed to the tracker has been closed exactly as often as it was opened: none leaks and
  none is closed twice, whatever the files' \<^verbatim>\<open>Close\<close> methods answer and in whatever order the map is
  ranged over.\<close>

theorem CloseAll_no_leak:
  assumes "length ops < handle_limit"
    and "handle_run (logging close) ops (b, []) = (ht, s)"
    and "fset (fmdom (handles ht)) \<subseteq> set order"
  shows "ht_Count (fst (ht_CloseAll (logging close) order ht s)) = 0 \<and>
    mset (snd (snd (ht_CloseAll (logging close) order ht s))) = sum_list (map opened ops)"
proof -
  note empty = CloseAll_empties [OF assms(3), of "logging close" s]
  have "mset (snd s) + open_files ht = sum_list (map opened ops)"
    using run_conserves [of ops close b] assms(1,2) by simp
  with CloseAll_conserves [of close order ht s] empty show ?thesis
    by (simp add: open_files_def ht_Count_def)
qed

lemma CloseAll_no_leak_witness:
  "ht_Count (fst (ht_CloseAll (logging (\<lambda>f n :: nat. (None, n))) [1]
     (fst (handle_run (logging (\<lambda>f n :: nat. (None, n))) [OpAdd (5 :: nat) 0 ''/a''] (0, []))) (0, []))) = 0"
  using CloseAll_no_leak [of "[OpAdd (5 :: nat) 0 ''/a'']" "\<lambda>f n :: nat. (None, n)" 0
      "\<lparr>handles = fmupd 1 \<lparr>he_file = 5, he_refCount = 1, he_flags = 0, he_path = ''/a''\<rparr> fmempty, nextHandle = 1\<rparr>" "(0, [])" "[1]"]
  by (simp add: handle_run_def ht_Add_def NewHandleTracker_def handle_limit_def Let_def)

end
