(* ===== verification/Fuse_State.thy ===== *)
theory Fuse_State
  imports Mount_Options Go_Path Lock_Manager Stats_Collector Handle_Tracker
begin

text \<open>
  The adapter's shared state (\<^verbatim>\<open>FuseFS\<close> of \<^verbatim>\<open>fuse.go\<close>) and what its handlers reach besides it: the
  backend's state, the clock, the process's ids, and the reply buffers (\<^verbatim>\<open>out\<close> parameters). A
  reply buffer is named by its address because \<^verbatim>\<open>Getattr\<close> keeps a pointer into one; what a pointer
  reads is whatever the buffer holds by then.

  Handlers are functions on this state in explicit passing style. The operations below are the
  primitive accesses they are made of.
\<close>

section \<open>Reply buffers\<close>

text \<open>The fields of \<^verbatim>\<open>fuse.Attr\<close> that the code sets; \<^verbatim>\<open>AttrOut\<close> and \<^verbatim>\<open>EntryOut\<close> are such a record and
  time-outs.\<close>

record Attr =
  a_Ino :: uint64
  a_Size :: uint64
  a_Blocks :: uint64
  a_Mtime :: uint64
  a_Mtimensec :: uint32
  a_Mode :: uint32
  a_Uid :: uint32
  a_Gid :: uint32
  a_Blksize :: uint32

record fuseOut =
  o_Attr :: Attr
  o_AttrTimeout :: int
  o_EntryTimeout :: int

section \<open>The adapter\<close>

text \<open>The first group of fields is the struct; \<open>server\<close> says whether the go-fuse server is there. The
  second group is what the handlers reach: \<open>clock k\<close> is the \<open>k\<close>-th reading of the clock and \<open>ticks\<close>
  counts the readings.\<close>

record ('b, 'f) FuseFS =
  absFS :: "('b, 'f) absFS"
  opts :: MountOptions
  server :: bool
  inodeManager :: InodeManager
  handleTracker :: "'f HandleTracker"
  lockManager :: LockManager
  stats :: statsCollector
  unmounting :: bool
  backend :: 'b
  clock :: "nat \<Rightarrow> int"
  ticks :: nat
  outs :: "nat \<Rightarrow> fuseOut"
  os_Getuid :: uint32
  os_Getgid :: uint32

record fuseNode =
  node_path :: string

record fuseFileHandle =
  fh_node :: fuseNode
  fh_handle :: uint64

text \<open>A parameter of type \<^verbatim>\<open>fs.FileHandle\<close>: nil, one of the adapter's, or of another type.\<close>

datatype fileHandle = NilHandle | FuseHandle fuseFileHandle | OtherHandle

text \<open>What a process is given from outside, and \<^verbatim>\<open>newFuseFS\<close> in such a process.\<close>

record 'b process =
  p_backend :: 'b
  p_clock :: "nat \<Rightarrow> int"
  p_outs :: "nat \<Rightarrow> fuseOut"
  p_Uid :: uint32
  p_Gid :: uint32

definition newFuseFS :: "'b process \<Rightarrow> ('b, 'f) absFS \<Rightarrow> MountOptions \<Rightarrow> ('b, 'f) FuseFS" where
  "newFuseFS p fs mopts = \<lparr>
     absFS = fs, opts = mopts, server = False,
     inodeManager = NewInodeManager (MaxCachedInodes mopts) (MaxCachedDirs mopts)
                      (AttrCacheTTL mopts) (DirCacheTTL mopts),
     handleTracker = NewHandleTracker, lockManager = NewLockManager, stats = newStatsCollector,
     unmounting = False,
     backend = p_backend p, clock = p_clock p, ticks = 0, outs = p_outs p,
     os_Getuid = p_Uid p, os_Getgid = p_Gid p\<rparr>"

definition root_node :: fuseNode where
  "root_node = \<lparr>node_path = ''/''\<rparr>"

definition FuseFS_Stats :: "('b, 'f) FuseFS \<Rightarrow> Stats" where
  "FuseFS_Stats f =
     (let stats = snapshot (stats f);
          stats = stats\<lparr>st_Mountpoint := Mountpoint (opts f)\<rparr>;
          stats = stats\<lparr>st_OpenFiles := ht_Count (handleTracker f)\<rparr>;
          stats = stats\<lparr>st_InodeStats := im_Stats (inodeManager f)\<rparr>
      in stats)"

definition checkUnmounting :: "('b, 'f) FuseFS \<Rightarrow> bool" where
  "checkUnmounting f = unmounting f"

section \<open>Primitive accesses\<close>

definition recordOperation :: "('b, 'f) FuseFS \<Rightarrow> ('b, 'f) FuseFS" where
  "recordOperation w = w\<lparr>stats := stats_recordOperation (stats w)\<rparr>"

definition recordError :: "('b, 'f) FuseFS \<Rightarrow> ('b, 'f) FuseFS" where
  "recordError w = w\<lparr>stats := stats_recordError (stats w)\<rparr>"

text \<open>A call of the backend, and of a method of the inode manager that returns something.\<close>

definition call :: "('b \<Rightarrow> 'r \<times> 'b) \<Rightarrow> ('b, 'f) FuseFS \<Rightarrow> 'r \<times> ('b, 'f) FuseFS" where
  "call m w = (case m (backend w) of (r, b) \<Rightarrow> (r, w\<lparr>backend := b\<rparr>))"

definition on_inodes :: "(InodeManager \<Rightarrow> 'r \<times> InodeManager) \<Rightarrow> ('b, 'f) FuseFS \<Rightarrow> 'r \<times> ('b, 'f) FuseFS" where
  "on_inodes m w = (case m (inodeManager w) of (r, im) \<Rightarrow> (r, w\<lparr>inodeManager := im\<rparr>))"

definition time_Now :: "('b, 'f) FuseFS \<Rightarrow> int \<times> ('b, 'f) FuseFS" where
  "time_Now w = (clock w (ticks w), w\<lparr>ticks := ticks w + 1\<rparr>)"

definition read_cached :: "string \<Rightarrow> ('b, 'f) FuseFS \<Rightarrow> attr_ptr \<times> ('b, 'f) FuseFS" where
  "read_cached path w = (let (t, w) = time_Now w in on_inodes (GetCached t path) w)"

definition write_cached :: "string \<Rightarrow> attr_ptr \<Rightarrow> ('b, 'f) FuseFS \<Rightarrow> ('b, 'f) FuseFS" where
  "write_cached path attr w =
     (let (t1, w) = time_Now w; (t2, w) = time_Now w
      in w\<lparr>inodeManager := Cache t1 t2 path attr (inodeManager w)\<rparr>)"

definition read_dircache :: "string \<Rightarrow> ('b, 'f) FuseFS \<Rightarrow> DirEntry list option \<times> ('b, 'f) FuseFS" where
  "read_dircache path w = (let (t, w) = time_Now w in on_inodes (GetDirCache t path) w)"

definition write_dircache :: "string \<Rightarrow> DirEntry list option \<Rightarrow> ('b, 'f) FuseFS \<Rightarrow> ('b, 'f) FuseFS" where
  "write_dircache path entries w =
     (let (t1, w) = time_Now w; (t2, w) = time_Now w
      in w\<lparr>inodeManager := CacheDir t1 t2 path entries (inodeManager w)\<rparr>)"

definition invalidate_dir :: "string \<Rightarrow> ('b, 'f) FuseFS \<Rightarrow> ('b, 'f) FuseFS" where
  "invalidate_dir path w = w\<lparr>inodeManager := InvalidateDir path (inodeManager w)\<rparr>"

text \<open>Writes to a reply buffer.\<close>

definition set_attr :: "nat \<Rightarrow> Attr \<Rightarrow> ('b, 'f) FuseFS \<Rightarrow> ('b, 'f) FuseFS" where
  "set_attr out a w = w\<lparr>outs := (outs w)(out := (outs w out)\<lparr>o_Attr := a\<rparr>)\<rparr>"

definition SetAttrTimeout :: "nat \<Rightarrow> int \<Rightarrow> ('b, 'f) FuseFS \<Rightarrow> ('b, 'f) FuseFS" where
  "SetAttrTimeout out t w = w\<lparr>outs := (outs w)(out := (outs w out)\<lparr>o_AttrTimeout := t\<rparr>)\<rparr>"

definition SetEntryTimeout :: "nat \<Rightarrow> int \<Rightarrow> ('b, 'f) FuseFS \<Rightarrow> ('b, 'f) FuseFS" where
  "SetEntryTimeout out t w = w\<lparr>outs := (outs w)(out := (outs w out)\<lparr>o_EntryTimeout := t\<rparr>)\<rparr>"

section \<open>What the accesses touch\<close>

text \<open>Each access changes its own part of the state. The collection \<open>world_defs\<close> unfolds the ones that
  have no further structure.\<close>

lemmas access_defs [world_defs] = recordOperation_def recordError_def time_Now_def invalidate_dir_def
  set_attr_def SetAttrTimeout_def SetEntryTimeout_def

lemma recordOperation_sel [simp]:
  "absFS (recordOperation w) = absFS w" "opts (recordOperation w) = opts w" "server (recordOperation w) = server w"
  "inodeManager (recordOperation w) = inodeManager w" "handleTracker (recordOperation w) = handleTracker w"
  "lockManager (recordOperation w) = lockManager w" "unmounting (recordOperation w) = unmounting w"
  "backend (recordOperation w) = backend w" "clock (recordOperation w) = clock w" "ticks (recordOperation w) = ticks w"
  "outs (recordOperation w) = outs w" "os_Getuid (recordOperation w) = os_Getuid w"
  "os_Getgid (recordOperation w) = os_Getgid w" "stats (recordOperation w) = stats_recordOperation (stats w)"
  by (simp_all add: recordOperation_def)

lemma recordError_sel [simp]:
  "absFS (recordError w) = absFS w" "opts (recordError w) = opts w" "server (recordError w) = server w"
  "inodeManager (recordError w) = inodeManager w" "handleTracker (recordError w) = handleTracker w"
  "lockManager (recordError w) = lockManager w" "unmounting (recordError w) = unmounting w"
  "backend (recordError w) = backend w" "clock (recordError w) = clock w" "ticks (recordError w) = ticks w"
  "outs (recordError w) = outs w" "os_Getuid (recordError w) = os_Getuid w"
  "os_Getgid (recordError w) = os_Getgid w" "stats (recordError w) = stats_recordError (stats w)"
  by (simp_all add: recordError_def)

lemma callE:
  assumes "call m w = (r, w')"
  obtains b where "m (backend w) = (r, b)" and "w' = w\<lparr>backend := b\<rparr>"
  using assms by (auto simp: call_def split: prod.splits)

lemma call_eq: "call m w = (fst (m (backend w)), w\<lparr>backend := snd (m (backend w))\<rparr>)"
  by (simp add: call_def split: prod.split)

lemma on_inodes_eq: "on_inodes m w = (fst (m (inodeManager w)), w\<lparr>inodeManager := snd (m (inodeManager w))\<rparr>)"
  by (simp add: on_inodes_def split: prod.split)

lemma read_cached_eq:
  "read_cached path w = (fst (GetCached (clock w (ticks w)) path (inodeManager w)),
     w\<lparr>inodeManager := snd (GetCached (clock w (ticks w)) path (inodeManager w)), ticks := ticks w + 1\<rparr>)"
  by (simp add: read_cached_def time_Now_def on_inodes_eq)

lemma read_dircache_eq:
  "read_dircache path w = (fst (GetDirCache (clock w (ticks w)) path (inodeManager w)),
     w\<lparr>inodeManager := snd (GetDirCache (clock w (ticks w)) path (inodeManager w)), ticks := ticks w + 1\<rparr>)"
  by (simp add: read_dircache_def time_Now_def on_inodes_eq)

lemma write_cached_eq:
  "write_cached path attr w =
     w\<lparr>inodeManager := Cache (clock w (ticks w)) (clock w (ticks w + 1)) path attr (inodeManager w), ticks := ticks w + 2\<rparr>"
  by (simp add: write_cached_def time_Now_def)

lemma write_dircache_eq:
  "write_dircache path es w =
     w\<lparr>inodeManager := CacheDir (clock w (ticks w)) (clock w (ticks w + 1)) path es (inodeManager w), ticks := ticks w + 2\<rparr>"
  by (simp add: write_dircache_def time_Now_def)

lemmas world_eqs = call_eq on_inodes_eq read_cached_eq read_dircache_eq write_cached_eq write_dircache_eq

end
