(* ===== verification/File_Ops.thy ===== *)
theory File_Ops
  imports Fuse_State
begin

text \<open>
  The operations on an open file: the methods of \<^verbatim>\<open>fuseFileHandle\<close> in \<^verbatim>\<open>operations.go\<close> and
  \<^verbatim>\<open>locks.go\<close>. None of them asks whether the file system is unmounting. A method that returns
  data and an errno answers \<open>Inr\<close> the data (errno 0) or \<open>Inl\<close> the errno.
\<close>

section \<open>Reading and writing\<close>

text \<open>"Seek to offset if file supports seeking": the same block opens \<^verbatim>\<open>Read\<close> and \<^verbatim>\<open>Write\<close>.\<close>

definition seek_start :: "'f \<Rightarrow> int64 \<Rightarrow> ('b, 'f) FuseFS \<Rightarrow> goerr option \<times> ('b, 'f) FuseFS" where
  "seek_start f off w = (case f_Seek (absFS w) f of
     None \<Rightarrow> (None, w)
   | Some seek \<Rightarrow> call (seek off) w)"

definition fuse_Read :: "fuseFileHandle \<Rightarrow> nat \<Rightarrow> int64 \<Rightarrow> ('b, 'f) FuseFS \<Rightarrow>
    (errno + bytes) \<times> ('b, 'f) FuseFS" where
  "fuse_Read fh dest_len off w =
     (let w = recordOperation w in
      case ht_Get (fh_handle fh) (handleTracker w) of
        None \<Rightarrow> (Inl EBADF, recordError w)
      | Some f \<Rightarrow>
          (case seek_start f off w of
             (Some err, w) \<Rightarrow> (Inl (mapError (Some err)), recordError w)
           | (None, w) \<Rightarrow>
               (case call (f_Read (absFS w) f dest_len) w of
                  ((data, err), w) \<Rightarrow>
                    if err \<noteq> None \<and> err \<noteq> Some EOF
                    then (Inl (mapError err), recordError w)
                    else (Inr data, w\<lparr>stats := stats_recordRead (of_nat (length data)) (stats w)\<rparr>))))"

definition fuse_Write :: "fuseFileHandle \<Rightarrow> bytes \<Rightarrow> int64 \<Rightarrow> ('b, 'f) FuseFS \<Rightarrow>
    (errno + uint32) \<times> ('b, 'f) FuseFS" where
  "fuse_Write fh data off w =
     (let w = recordOperation w in
      case ht_Get (fh_handle fh) (handleTracker w) of
        None \<Rightarrow> (Inl EBADF, recordError w)
      | Some f \<Rightarrow>
          (case seek_start f off w of
             (Some err, w) \<Rightarrow> (Inl (mapError (Some err)), recordError w)
           | (None, w) \<Rightarrow>
               (case call (f_Write (absFS w) f data) w of
                  ((n, err), w) \<Rightarrow>
                    if err \<noteq> None then (Inl (mapError err), recordError w)
                    else (Inr (ucast n), w\<lparr>stats := stats_recordWrite n (stats w)\<rparr>))))"

section \<open>Release, flush, allocate\<close>

definition fuse_Release :: "fuseFileHandle \<Rightarrow> ('b, 'f) FuseFS \<Rightarrow> errno \<times> ('b, 'f) FuseFS" where
  "fuse_Release fh w =
     (let w = recordOperation w;
          w = w\<lparr>lockManager := ReleaseOwner (fh_handle fh) (lockManager w)\<rparr>
      in case ht_Release (f_Close (absFS w)) (fh_handle fh) (handleTracker w) (backend w) of
           (errno, ht, b) \<Rightarrow> (errno, w\<lparr>handleTracker := ht, backend := b\<rparr>))"

definition fuse_Flush :: "fuseFileHandle \<Rightarrow> ('b, 'f) FuseFS \<Rightarrow> errno \<times> ('b, 'f) FuseFS" where
  "fuse_Flush fh w =
     (let w = recordOperation w in
      case ht_Get (fh_handle fh) (handleTracker w) of
        None \<Rightarrow> (EBADF, w)
      | Some f \<Rightarrow>
          (case f_Sync (absFS w) f of
             None \<Rightarrow> (OK, w)
           | Some sync \<Rightarrow>
               (case call sync w of
                  (Some err, w) \<Rightarrow> (mapError (Some err), recordError w)
                | (None, w) \<Rightarrow> (OK, w))))"

definition fuse_Allocate :: "fuseFileHandle \<Rightarrow> uint64 \<Rightarrow> uint64 \<Rightarrow> uint32 \<Rightarrow> ('b, 'f) FuseFS \<Rightarrow>
    errno \<times> ('b, 'f) FuseFS" where
  "fuse_Allocate fh off sz mode w =
     (let w = recordOperation w in
      case ht_Get (fh_handle fh) (handleTracker w) of
        None \<Rightarrow> (EBADF, recordError w)
      | Some f \<Rightarrow>
          (case f_Allocate (absFS w) f of
             None \<Rightarrow>
               if mode = 0 then
                 (case f_Truncate (absFS w) f of
                    None \<Rightarrow> (ENOTSUP, w)
                  | Some trunc \<Rightarrow>
                      (case call (f_Stat (absFS w) f) w of
                         (Inl err, w) \<Rightarrow> (mapError (Some err), recordError w)
                       | (Inr info, w) \<Rightarrow>
                           let newSize = off + sz in
                           if sint newSize > sint (fi_Size info) then
                             (case call (trunc newSize) w of
                                (Some err, w) \<Rightarrow> (mapError (Some err), recordError w)
                              | (None, w) \<Rightarrow> (OK, w))
                           else (OK, w)))
               else (ENOTSUP, w)
           | Some allocate \<Rightarrow>
               (case call (allocate off sz) w of
                  (Some err, w) \<Rightarrow> (mapError (Some err), recordError w)
                | (None, w) \<Rightarrow> (OK, w))))"

section \<open>Locks\<close>

text \<open>\<^verbatim>\<open>Getlk\<close> copies the request to \<^verbatim>\<open>out\<close>, which the lock manager then overwrites; the answer is
  what \<^verbatim>\<open>out\<close> holds at the end.\<close>

definition fuse_Getlk :: "fuseFileHandle \<Rightarrow> uint64 \<Rightarrow> FileLock \<Rightarrow> ('b, 'f) FuseFS \<Rightarrow>
    (errno \<times> FileLock) \<times> ('b, 'f) FuseFS" where
  "fuse_Getlk fh owner lk w =
     (let w = recordOperation w
      in (Getlk (node_path (fh_node fh)) owner lk (lockManager w), w))"

definition on_locks :: "(LockManager \<Rightarrow> errno \<times> LockManager) \<Rightarrow> ('b, 'f) FuseFS \<Rightarrow> errno \<times> ('b, 'f) FuseFS" where
  "on_locks m w = (case m (lockManager w) of (errno, lm) \<Rightarrow> (errno, w\<lparr>lockManager := lm\<rparr>))"

definition fuse_Setlk :: "fuseFileHandle \<Rightarrow> uint64 \<Rightarrow> FileLock \<Rightarrow> ('b, 'f) FuseFS \<Rightarrow>
    errno \<times> ('b, 'f) FuseFS" where
  "fuse_Setlk fh owner lk w =
     (let w = recordOperation w in on_locks (Setlk (node_path (fh_node fh)) owner lk) w)"

definition fuse_Setlkw :: "fuseFileHandle \<Rightarrow> uint64 \<Rightarrow> FileLock \<Rightarrow> ('b, 'f) FuseFS \<Rightarrow>
    errno \<times> ('b, 'f) FuseFS" where
  "fuse_Setlkw fh owner lk w =
     (let w = recordOperation w in on_locks (Setlkw (node_path (fh_node fh)) owner lk) w)"

definition fuse_Flock :: "fuseFileHandle \<Rightarrow> uint64 \<Rightarrow> uint32 \<Rightarrow> ('b, 'f) FuseFS \<Rightarrow>
    errno \<times> ('b, 'f) FuseFS" where
  "fuse_Flock fh owner flags w =
     (let w = recordOperation w in on_locks (Flock (node_path (fh_node fh)) owner flags) w)"

lemmas file_handlers [handler_defs] = fuse_Read_def fuse_Write_def fuse_Release_def fuse_Flush_def
  fuse_Allocate_def fuse_Getlk_def fuse_Setlk_def fuse_Setlkw_def fuse_Flock_def on_locks_def

end
