(* ===== verification/Node_Ops.thy ===== *)
theory Node_Ops
  imports File_Ops
begin

text \<open>
  The operations on a node: the methods of \<^verbatim>\<open>fuseNode\<close> in \<^verbatim>\<open>operations.go\<close>. A method that creates or
  finds a child answers the node, file type and number it hands to go-fuse's \<^verbatim>\<open>NewInode\<close>; a
  nil node with an errno is \<open>Inl\<close> the errno. \<open>out\<close> is the address of the reply buffer.
\<close>

abbreviation (input) S_IFREG :: uint32 where "S_IFREG \<equiv> 0x8000"
abbreviation (input) S_IFDIR :: uint32 where "S_IFDIR \<equiv> 0x4000"
abbreviation (input) S_IFLNK :: uint32 where "S_IFLNK \<equiv> 0xA000"

text \<open>The arguments of \<^verbatim>\<open>n.NewInode(ctx, child, fs.StableAttr{Mode, Ino})\<close>.\<close>

record childInode =
  ci_node :: fuseNode
  ci_Mode :: uint32
  ci_Ino :: uint64

section \<open>Helpers\<close>

text \<open>Flag bits of \<^verbatim>\<open>syscall\<close> and \<^verbatim>\<open>os\<close> (the same numbers on linux).\<close>

abbreviation (input) O_WRONLY :: "'a::len word" where "O_WRONLY \<equiv> 1"
abbreviation (input) O_RDWR :: "'a::len word" where "O_RDWR \<equiv> 2"
abbreviation (input) O_CREAT :: "'a::len word" where "O_CREAT \<equiv> 0x40"
abbreviation (input) O_EXCL :: "'a::len word" where "O_EXCL \<equiv> 0x80"
abbreviation (input) O_TRUNC :: "'a::len word" where "O_TRUNC \<equiv> 0x200"
abbreviation (input) O_APPEND :: "'a::len word" where "O_APPEND \<equiv> 0x400"

definition mapOpenFlags :: "uint32 \<Rightarrow> uint64" where
  "mapOpenFlags flags =
     (let absFlags = 0;
          absFlags = (if flags AND O_WRONLY \<noteq> 0 then absFlags OR O_WRONLY
                      else if flags AND O_RDWR \<noteq> 0 then absFlags OR O_RDWR
                      else absFlags OR 0);
          absFlags = (if flags AND O_APPEND \<noteq> 0 then absFlags OR O_APPEND else absFlags);
          absFlags = (if flags AND O_CREAT \<noteq> 0 then absFlags OR O_CREAT else absFlags);
          absFlags = (if flags AND O_TRUNC \<noteq> 0 then absFlags OR O_TRUNC else absFlags);
          absFlags = (if flags AND O_EXCL \<noteq> 0 then absFlags OR O_EXCL else absFlags)
      in absFlags)"

text \<open>\<^verbatim>\<open>time.Time.Unix\<close> rounds towards minus infinity and \<^verbatim>\<open>Nanosecond\<close> lies in 0 to 999999999.\<close>

definition fillAttr :: "nat \<Rightarrow> FileInfo \<Rightarrow> uint64 \<Rightarrow> ('b, 'f) FuseFS \<Rightarrow> ('b, 'f) FuseFS" where
  "fillAttr out info ino w =
     (let attr = o_Attr (outs w out);
          attr = attr\<lparr>a_Ino := ino\<rparr>;
          attr = attr\<lparr>a_Size := fi_Size info\<rparr>;
          attr = attr\<lparr>a_Mode := fi_Mode info\<rparr>;
          attr = attr\<lparr>a_Mtime := of_int (fi_ModTime info div 1000000000)\<rparr>;
          attr = attr\<lparr>a_Mtimensec := of_int (fi_ModTime info mod 1000000000)\<rparr>;
          attr = attr\<lparr>a_Uid := (if UID (opts w) \<noteq> 0 then UID (opts w) else os_Getuid w)\<rparr>;
          attr = attr\<lparr>a_Gid := (if GID (opts w) \<noteq> 0 then GID (opts w) else os_Getgid w)\<rparr>;
          blocks = (a_Size attr + 511) div 512;
          attr = attr\<lparr>a_Blocks := blocks\<rparr>;
          attr = attr\<lparr>a_Blksize := 4096\<rparr>
      in set_attr out attr w)"

definition convertDirEntries :: "DirEntry list \<Rightarrow> DirEntry list" where
  "convertDirEntries entries = entries"

text \<open>The block every method that answers an entry ends with: number, attributes, time-outs, child.\<close>

definition new_entry :: "string \<Rightarrow> uint32 \<Rightarrow> FileInfo \<Rightarrow> nat \<Rightarrow> ('b, 'f) FuseFS \<Rightarrow>
    childInode \<times> ('b, 'f) FuseFS" where
  "new_entry fullPath mode info out w =
     (let (ino, w) = on_inodes (GetInode fullPath info) w;
          w = fillAttr out info ino w;
          w = SetEntryTimeout out (EntryTimeout (opts w)) w;
          w = SetAttrTimeout out (AttrTimeout (opts w)) w;
          child = \<lparr>node_path = fullPath\<rparr>
      in (\<lparr>ci_node = child, ci_Mode = mode, ci_Ino = ino\<rparr>, w))"

section \<open>Lookup and attributes\<close>

definition Lookup :: "fuseNode \<Rightarrow> string \<Rightarrow> nat \<Rightarrow> ('b, 'f) FuseFS \<Rightarrow>
    (errno + childInode) \<times> ('b, 'f) FuseFS" where
  "Lookup n name out w =
     (let w = recordOperation w in
      if checkUnmounting w then (Inl ENOTCONN, w)
      else let fullPath = path_Join (node_path n) name in
        case call (fs_Stat (absFS w) fullPath) w of
          (Inl err, w) \<Rightarrow> (Inl (mapError (Some err)), recordError w)
        | (Inr info, w) \<Rightarrow>
            let mode = (if fi_IsDir info then S_IFDIR else S_IFREG);
                (child, w) = new_entry fullPath mode info out w
            in (Inr child, w))"

definition Getattr :: "fuseNode \<Rightarrow> nat \<Rightarrow> ('b, 'f) FuseFS \<Rightarrow> errno \<times> ('b, 'f) FuseFS" where
  "Getattr n out w =
     (let w = recordOperation w in
      if checkUnmounting w then (ENOTCONN, w)
      else case read_cached (node_path n) w of
        (Some cached, w) \<Rightarrow>
          let w = set_attr out (o_Attr (outs w cached)) w;
              w = SetAttrTimeout out (AttrTimeout (opts w)) w
          in (OK, w)
      | (None, w) \<Rightarrow>
          (case call (fs_Stat (absFS w) (node_path n)) w of
             (Inl err, w) \<Rightarrow> (mapError (Some err), recordError w)
           | (Inr info, w) \<Rightarrow>
               let (ino, w) = on_inodes (GetInode (node_path n) info) w;
                   w = fillAttr out info ino w;
                   w = SetAttrTimeout out (AttrTimeout (opts w)) w;
                   w = write_cached (node_path n) (Some out) w
               in (OK, w)))"

text \<open>The request of \<^verbatim>\<open>Setattr\<close>: what \<^verbatim>\<open>GetSize\<close>, \<^verbatim>\<open>GetMode\<close> and \<^verbatim>\<open>GetMTime\<close> find in it.\<close>

record SetAttrIn =
  sa_Size :: "uint64 option"
  sa_Mode :: "uint32 option"
  sa_MTime :: "int option"

text \<open>The three blocks of \<^verbatim>\<open>Setattr\<close> as functions of the state, each returning the error that stops the
  method, if any. A file that is nil or cannot truncate is passed over.\<close>

definition setattr_size :: "fileHandle \<Rightarrow> SetAttrIn \<Rightarrow> ('b, 'f) FuseFS \<Rightarrow> goerr option \<times> ('b, 'f) FuseFS" where
  "setattr_size f sain w = (case sa_Size sain of
     None \<Rightarrow> (None, w)
   | Some sz \<Rightarrow>
       (case f of
          FuseHandle fh \<Rightarrow>
            (case ht_Get (fh_handle fh) (handleTracker w) of
               None \<Rightarrow> (None, w)
             | Some ff \<Rightarrow>
                 (case f_Truncate (absFS w) ff of
                    None \<Rightarrow> (None, w)
                  | Some trunc \<Rightarrow> call (trunc sz) w))
        | NilHandle \<Rightarrow> (None, w)
        | OtherHandle \<Rightarrow> (None, w)))"

definition setattr_mode :: "fuseNode \<Rightarrow> SetAttrIn \<Rightarrow> ('b, 'f) FuseFS \<Rightarrow> goerr option \<times> ('b, 'f) FuseFS" where
  "setattr_mode n sain w = (case sa_Mode sain of
     None \<Rightarrow> (None, w)
   | Some mode \<Rightarrow>
       (case fs_Chmod (absFS w) of
          None \<Rightarrow> (None, w)
        | Some chmod \<Rightarrow> call (chmod (node_path n) mode) w))"

definition setattr_mtime :: "fuseNode \<Rightarrow> SetAttrIn \<Rightarrow> ('b, 'f) FuseFS \<Rightarrow> ('b, 'f) FuseFS" where
  "setattr_mtime n sain w = (case sa_MTime sain of
     None \<Rightarrow> w
   | Some mtime \<Rightarrow> snd (call (fs_Chtimes (absFS w) (node_path n) mtime mtime) w))"

definition Setattr :: "fuseNode \<Rightarrow> fileHandle \<Rightarrow> SetAttrIn \<Rightarrow> nat \<Rightarrow> ('b, 'f) FuseFS \<Rightarrow>
    errno \<times> ('b, 'f) FuseFS" where
  "Setattr n f sain out w =
     (let w = recordOperation w in
      if checkUnmounting w then (ENOTCONN, w)
      else case setattr_size f sain w of
        (Some err, w) \<Rightarrow> (mapError (Some err), recordError w)
      | (None, w) \<Rightarrow>
          (case setattr_mode n sain w of
             (Some err, w) \<Rightarrow> (mapError (Some err), recordError w)
           | (None, w) \<Rightarrow>
               let w = setattr_mtime n sain w
               in Getattr n out w))"

section \<open>Open and directories\<close>

definition fuse_Open :: "fuseNode \<Rightarrow> uint32 \<Rightarrow> ('b, 'f) FuseFS \<Rightarrow> (errno + fuseFileHandle) \<times> ('b, 'f) FuseFS" where
  "fuse_Open n flags w =
     (let w = recordOperation w in
      if checkUnmounting w then (Inl ENOTCONN, w)
      else let absFlags = mapOpenFlags flags in
        case call (fs_OpenFile (absFS w) (node_path n) absFlags 0) w of
          (Inl err, w) \<Rightarrow> (Inl (mapError (Some err)), recordError w)
        | (Inr f, w) \<Rightarrow>
            (case ht_Add f absFlags (node_path n) (handleTracker w) of
               (handle, ht) \<Rightarrow>
                 (Inr \<lparr>fh_node = n, fh_handle = handle\<rparr>, w\<lparr>handleTracker := ht\<rparr>)))"

text \<open>The loop over the entries of a directory.\<close>

fun readdir_loop :: "string \<Rightarrow> FileInfo list \<Rightarrow> DirEntry list \<Rightarrow> ('b, 'f) FuseFS \<Rightarrow>
    DirEntry list \<times> ('b, 'f) FuseFS" where
  "readdir_loop dir [] fuseEntries w = (fuseEntries, w)"
| "readdir_loop dir (info # infos) fuseEntries w =
     (let fullPath = path_Join dir (fi_Name info);
          (ino, w) = on_inodes (GetInode fullPath info) w;
          mode = (if fi_IsDir info then S_IFDIR else S_IFREG);
          fuseEntries = fuseEntries @ [\<lparr>de_Name = fi_Name info, de_Ino = ino, de_Mode = mode\<rparr>]
      in readdir_loop dir infos fuseEntries w)"

text \<open>The deferred \<^verbatim>\<open>dir.Close()\<close> runs last, on either way out, and its error is dropped.\<close>

definition fuse_Readdir :: "fuseNode \<Rightarrow> ('b, 'f) FuseFS \<Rightarrow> (errno + DirEntry list) \<times> ('b, 'f) FuseFS" where
  "fuse_Readdir n w =
     (let w = recordOperation w in
      if checkUnmounting w then (Inl ENOTCONN, w)
      else case read_dircache (node_path n) w of
        (Some entries, w) \<Rightarrow> (Inr (convertDirEntries entries), w)
      | (None, w) \<Rightarrow>
          (case call (fs_Open (absFS w) (node_path n)) w of
             (Inl err, w) \<Rightarrow> (Inl (mapError (Some err)), recordError w)
           | (Inr dir, w) \<Rightarrow>
               (case call (f_Readdir (absFS w) dir) w of
                  (Inl err, w) \<Rightarrow>
                    let w = recordError w;
                        w = snd (call (f_Close (absFS w) dir) w)
                    in (Inl (mapError (Some err)), w)
                | (Inr infos, w) \<Rightarrow>
                    let (fuseEntries, w) = readdir_loop (node_path n) infos [] w;
                        w = write_dircache (node_path n) (Some fuseEntries) w;
                        w = snd (call (f_Close (absFS w) dir) w)
                    in (Inr (convertDirEntries fuseEntries), w))))"

section \<open>Changing the name space\<close>

definition Create :: "fuseNode \<Rightarrow> string \<Rightarrow> uint32 \<Rightarrow> uint32 \<Rightarrow> nat \<Rightarrow> ('b, 'f) FuseFS \<Rightarrow>
    (errno + childInode \<times> fuseFileHandle) \<times> ('b, 'f) FuseFS" where
  "Create n name flags mode out w =
     (let w = recordOperation w in
      if checkUnmounting w then (Inl ENOTCONN, w)
      else let fullPath = path_Join (node_path n) name;
               absFlags = mapOpenFlags flags OR O_CREAT in
        case call (fs_OpenFile (absFS w) fullPath absFlags mode) w of
          (Inl err, w) \<Rightarrow> (Inl (mapError (Some err)), recordError w)
        | (Inr f, w) \<Rightarrow>
            let w = invalidate_dir (node_path n) w in
            (case call (fs_Stat (absFS w) fullPath) w of
               (Inl err, w) \<Rightarrow>
                 let w = snd (call (f_Close (absFS w) f) w)
                 in (Inl (mapError (Some err)), recordError w)
             | (Inr info, w) \<Rightarrow>
                 let (child, w) = new_entry fullPath S_IFREG info out w
                 in (case ht_Add f absFlags fullPath (handleTracker w) of
                       (handle, ht) \<Rightarrow>
                         (Inr (child, \<lparr>fh_node = ci_node child, fh_handle = handle\<rparr>),
                          w\<lparr>handleTracker := ht\<rparr>))))"

definition fuse_Mkdir :: "fuseNode \<Rightarrow> string \<Rightarrow> uint32 \<Rightarrow> nat \<Rightarrow> ('b, 'f) FuseFS \<Rightarrow>
    (errno + childInode) \<times> ('b, 'f) FuseFS" where
  "fuse_Mkdir n name mode out w =
     (let w = recordOperation w in
      if checkUnmounting w then (Inl ENOTCONN, w)
      else let fullPath = path_Join (node_path n) name in
        case call (fs_Mkdir (absFS w) fullPath mode) w of
          (Some err, w) \<Rightarrow> (Inl (mapError (Some err)), recordError w)
        | (None, w) \<Rightarrow>
            let w = invalidate_dir (node_path n) w in
            (case call (fs_Stat (absFS w) fullPath) w of
               (Inl err, w) \<Rightarrow> (Inl (mapError (Some err)), recordError w)
             | (Inr info, w) \<Rightarrow>
                 let (child, w) = new_entry fullPath S_IFDIR info out w
                 in (Inr child, w)))"

definition Unlink :: "fuseNode \<Rightarrow> string \<Rightarrow> ('b, 'f) FuseFS \<Rightarrow> errno \<times> ('b, 'f) FuseFS" where
  "Unlink n name w =
     (let w = recordOperation w in
      if checkUnmounting w then (ENOTCONN, w)
      else let fullPath = path_Join (node_path n) name in
        case call (fs_Remove (absFS w) fullPath) w of
          (Some err, w) \<Rightarrow> (mapError (Some err), recordError w)
        | (None, w) \<Rightarrow> (OK, invalidate_dir (node_path n) w))"

definition Rmdir :: "fuseNode \<Rightarrow> string \<Rightarrow> ('b, 'f) FuseFS \<Rightarrow> errno \<times> ('b, 'f) FuseFS" where
  "Rmdir n name w =
     (let w = recordOperation w in
      if checkUnmounting w then (ENOTCONN, w)
      else let fullPath = path_Join (node_path n) name in
        case call (fs_Remove (absFS w) fullPath) w of
          (Some err, w) \<Rightarrow> (mapError (Some err), recordError w)
        | (None, w) \<Rightarrow> (OK, invalidate_dir (node_path n) w))"

text \<open>\<open>newParent\<close> is \<open>None\<close> when the dynamic type of the argument is not \<^verbatim>\<open>*fuseNode\<close>.\<close>

definition fuse_Rename :: "fuseNode \<Rightarrow> string \<Rightarrow> fuseNode option \<Rightarrow> string \<Rightarrow> ('b, 'f) FuseFS \<Rightarrow>
    errno \<times> ('b, 'f) FuseFS" where
  "fuse_Rename n name newParent newName w =
     (let w = recordOperation w in
      if checkUnmounting w then (ENOTCONN, w)
      else let oldPath = path_Join (node_path n) name in
        case newParent of
          None \<Rightarrow> (EINVAL, w)
        | Some newParentNode \<Rightarrow>
            let newPath = path_Join (node_path newParentNode) newName in
            (case call (fs_Rename (absFS w) oldPath newPath) w of
               (Some err, w) \<Rightarrow> (mapError (Some err), recordError w)
             | (None, w) \<Rightarrow>
                 (OK, invalidate_dir (node_path newParentNode) (invalidate_dir (node_path n) w))))"

definition Fsync :: "fuseNode \<Rightarrow> fileHandle \<Rightarrow> ('b, 'f) FuseFS \<Rightarrow> errno \<times> ('b, 'f) FuseFS" where
  "Fsync n f w =
     (let w = recordOperation w in
      if checkUnmounting w then (ENOTCONN, w)
      else case f of
        FuseHandle fh \<Rightarrow>
          (case ht_Get (fh_handle fh) (handleTracker w) of
             None \<Rightarrow> (EBADF, w)
           | Some ff \<Rightarrow>
               (case f_Sync (absFS w) ff of
                  None \<Rightarrow> (OK, w)
                | Some sync \<Rightarrow>
                    (case call sync w of
                       (Some err, w) \<Rightarrow> (mapError (Some err), recordError w)
                     | (None, w) \<Rightarrow> (OK, w))))
      | NilHandle \<Rightarrow> (OK, w)
      | OtherHandle \<Rightarrow> (OK, w))"

section \<open>Links\<close>

definition fuse_Symlink :: "fuseNode \<Rightarrow> string \<Rightarrow> string \<Rightarrow> nat \<Rightarrow> ('b, 'f) FuseFS \<Rightarrow>
    (errno + childInode) \<times> ('b, 'f) FuseFS" where
  "fuse_Symlink n target name out w =
     (let w = recordOperation w in
      if checkUnmounting w then (Inl ENOTCONN, w)
      else let fullPath = path_Join (node_path n) name in
        case fs_Symlink (absFS w) of
          None \<Rightarrow> (Inl ENOTSUP, w)
        | Some symlink \<Rightarrow>
            (case call (symlink target fullPath) w of
               (Some err, w) \<Rightarrow> (Inl (mapError (Some err)), recordError w)
             | (None, w) \<Rightarrow>
                 let w = invalidate_dir (node_path n) w;
                     stat = (case fs_Lstat (absFS w) of
                               Some lstat \<Rightarrow> lstat fullPath
                             | None \<Rightarrow> fs_Stat (absFS w) fullPath)
                 in (case call stat w of
                       (Inl err, w) \<Rightarrow> (Inl (mapError (Some err)), recordError w)
                     | (Inr info, w) \<Rightarrow>
                         let (child, w) = new_entry fullPath S_IFLNK info out w
                         in (Inr child, w))))"

text \<open>\<open>target\<close> is \<open>None\<close> when its dynamic type is not \<^verbatim>\<open>*fuseNode\<close>.\<close>

definition fuse_Link :: "fuseNode \<Rightarrow> fuseNode option \<Rightarrow> string \<Rightarrow> nat \<Rightarrow> ('b, 'f) FuseFS \<Rightarrow>
    (errno + childInode) \<times> ('b, 'f) FuseFS" where
  "fuse_Link n target name out w =
     (let w = recordOperation w in
      if checkUnmounting w then (Inl ENOTCONN, w)
      else case target of
        None \<Rightarrow> (Inl EINVAL, w)
      | Some targetNode \<Rightarrow>
          let newPath = path_Join (node_path n) name in
          (case fs_Link (absFS w) of
             None \<Rightarrow> (Inl ENOTSUP, w)
           | Some link \<Rightarrow>
               (case call (link (node_path targetNode) newPath) w of
                  (Some err, w) \<Rightarrow> (Inl (mapError (Some err)), recordError w)
                | (None, w) \<Rightarrow>
                    let w = invalidate_dir (node_path n) w in
                    (case call (fs_Stat (absFS w) newPath) w of
                       (Inl err, w) \<Rightarrow> (Inl (mapError (Some err)), recordError w)
                     | (Inr info, w) \<Rightarrow>
                         let (child, w) = new_entry newPath S_IFREG info out w
                         in (Inr child, w)))))"

definition fuse_Readlink :: "fuseNode \<Rightarrow> ('b, 'f) FuseFS \<Rightarrow> (errno + bytes) \<times> ('b, 'f) FuseFS" where
  "fuse_Readlink n w =
     (let w = recordOperation w in
      if checkUnmounting w then (Inl ENOTCONN, w)
      else case fs_Readlink (absFS w) of
        None \<Rightarrow> (Inl ENOTSUP, w)
      | Some readlink \<Rightarrow>
          (case call (readlink (node_path n)) w of
             (Inl err, w) \<Rightarrow> (Inl (mapError (Some err)), recordError w)
           | (Inr target, w) \<Rightarrow> (Inr target, w)))"

lemmas node_handlers [handler_defs] = Lookup_def Getattr_def Setattr_def fuse_Open_def fuse_Readdir_def
  Create_def fuse_Mkdir_def Unlink_def Rmdir_def fuse_Rename_def Fsync_def fuse_Symlink_def fuse_Link_def
  fuse_Readlink_def

end
