(* ===== verification/Node_Info.thy ===== *)
theory Node_Info
  imports Node_Ops
begin

text \<open>
  The rest of the node operations: permission checks (\<^verbatim>\<open>access.go\<close>), extended attributes
  (\<^verbatim>\<open>xattr.go\<close>) and file system statistics (\<^verbatim>\<open>statfs.go\<close>).
\<close>

section \<open>Access\<close>

abbreviation (input) F_OK :: uint32 where "F_OK \<equiv> 0"
abbreviation (input) X_OK :: uint32 where "X_OK \<equiv> 1"
abbreviation (input) W_OK :: uint32 where "W_OK \<equiv> 2"
abbreviation (input) R_OK :: uint32 where "R_OK \<equiv> 4"

definition isOwner :: "FileInfo \<Rightarrow> uint32 \<Rightarrow> bool" where
  "isOwner info uid = (case fi_Sys info of
     Some (stat_Uid, stat_Gid) \<Rightarrow> stat_Uid = uid
   | None \<Rightarrow> True)"

definition isGroup :: "FileInfo \<Rightarrow> uint32 \<Rightarrow> bool" where
  "isGroup info gid = (case fi_Sys info of
     Some (stat_Uid, stat_Gid) \<Rightarrow> stat_Gid = gid
   | None \<Rightarrow> False)"

text \<open>\<open>caller\<close> is the uid and gid \<^verbatim>\<open>fuse.FromContext\<close> finds, if any.\<close>

definition Access :: "fuseNode \<Rightarrow> (uint32 \<times> uint32) option \<Rightarrow> uint32 \<Rightarrow> ('b, 'f) FuseFS \<Rightarrow>
    errno \<times> ('b, 'f) FuseFS" where
  "Access n caller accmask w =
     (let w = recordOperation w in
      if checkUnmounting w then (ENOTCONN, w)
      else if DefaultPermissions (opts w) then (OK, w)
      else case call (fs_Stat (absFS w) (node_path n)) w of
        (Inl err, w) \<Rightarrow> (mapError (Some err), recordError w)
      | (Inr info, w) \<Rightarrow>
          (case caller of
             None \<Rightarrow> (EACCES, w)
           | Some (uid, gid) \<Rightarrow>
               if accmask = F_OK then (OK, w)
               else let perm = fi_Mode info AND 0x1FF;
                        checkPerm = (if isOwner info uid then drop_bit 6 perm AND 7
                                     else if isGroup info gid then drop_bit 3 perm AND 7
                                     else perm AND 7)
                    in if accmask AND R_OK \<noteq> 0 \<and> checkPerm AND 4 = 0 then (EACCES, w)
                       else if accmask AND W_OK \<noteq> 0 \<and> checkPerm AND 2 = 0 then (EACCES, w)
                       else if accmask AND X_OK \<noteq> 0 \<and> checkPerm AND 1 = 0 then (EACCES, w)
                       else (OK, w)))"

section \<open>Extended attributes\<close>

text \<open>Go's \<^verbatim>\<open>copy(dest[off:], src)\<close>: the bytes of \<^verbatim>\<open>dest\<close> afterwards.\<close>

definition copy_at :: "nat \<Rightarrow> bytes \<Rightarrow> bytes \<Rightarrow> bytes" where
  "copy_at off src dest =
     (let n = min (length src) (length dest - off)
      in take off dest @ take n src @ drop (off + n) dest)"

text \<open>A nil \<^verbatim>\<open>dest\<close> is \<open>None\<close>. The answer is the number and what \<^verbatim>\<open>dest\<close> holds afterwards.\<close>

definition Getxattr :: "fuseNode \<Rightarrow> string \<Rightarrow> bytes option \<Rightarrow> ('b, 'f) FuseFS \<Rightarrow>
    (errno + uint32 \<times> bytes option) \<times> ('b, 'f) FuseFS" where
  "Getxattr n attr dest w =
     (let w = recordOperation w in
      if checkUnmounting w then (Inl ENOTCONN, w)
      else case fs_XAttr (absFS w) of
        None \<Rightarrow> (Inl ENOTSUP, w)
      | Some xattrFS \<Rightarrow>
          (case call (xa_Get xattrFS (node_path n) attr) w of
             (Inl err, w) \<Rightarrow> (Inl (mapError (Some err)), recordError w)
           | (Inr value, w) \<Rightarrow>
               (case dest of
                  None \<Rightarrow> (Inr (of_nat (length value), None), w)
                | Some dest \<Rightarrow>
                    let copied = min (length value) (length dest)
                    in (Inr (of_nat copied, Some (copy_at 0 value dest)), w))))"

definition Setxattr :: "fuseNode \<Rightarrow> string \<Rightarrow> bytes \<Rightarrow> uint32 \<Rightarrow> ('b, 'f) FuseFS \<Rightarrow>
    errno \<times> ('b, 'f) FuseFS" where
  "Setxattr n attr data flags w =
     (let w = recordOperation w in
      if checkUnmounting w then (ENOTCONN, w)
      else case fs_XAttr (absFS w) of
        None \<Rightarrow> (ENOTSUP, w)
      | Some xattrFS \<Rightarrow>
          (case call (xa_Set xattrFS (node_path n) attr data (ucast flags)) w of
             (Some err, w) \<Rightarrow> (mapError (Some err), recordError w)
           | (None, w) \<Rightarrow> (OK, w)))"

text \<open>The copy loop of \<^verbatim>\<open>Listxattr\<close>; \<open>None\<close> is the run-time panic of an index or slice out of range.\<close>

fun listxattr_loop :: "bytes list \<Rightarrow> nat \<Rightarrow> bytes \<Rightarrow> (nat \<times> bytes) option" where
  "listxattr_loop [] offset dest = Some (offset, dest)"
| "listxattr_loop (attr # attrs) offset dest =
     (if offset > length dest then None
      else let dest = copy_at offset attr dest;
               offset = offset + length attr
           in if offset \<ge> length dest then None
              else listxattr_loop attrs (offset + 1) (dest[offset := 0]))"

text \<open>The outcome is \<open>None\<close> when the method panics.\<close>

definition Listxattr :: "fuseNode \<Rightarrow> bytes option \<Rightarrow> ('b, 'f) FuseFS \<Rightarrow>
    (errno + uint32 \<times> bytes option) option \<times> ('b, 'f) FuseFS" where
  "Listxattr n dest w =
     (let w = recordOperation w in
      if checkUnmounting w then (Some (Inl ENOTCONN), w)
      else case fs_XAttr (absFS w) of
        None \<Rightarrow> (Some (Inl ENOTSUP), w)
      | Some xattrFS \<Rightarrow>
          (case call (xa_List xattrFS (node_path n)) w of
             (Inl err, w) \<Rightarrow> (Some (Inl (mapError (Some err))), recordError w)
           | (Inr attrs, w) \<Rightarrow>
               let totalSize = sum_list (map (\<lambda>attr. length attr + 1) attrs) in
               (case dest of
                  None \<Rightarrow> (Some (Inr (of_nat totalSize, None)), w)
                | Some dest \<Rightarrow>
                    (case listxattr_loop attrs 0 dest of
                       None \<Rightarrow> (None, w)
                     | Some (offset, dest) \<Rightarrow> (Some (Inr (of_nat offset, Some dest)), w)))))"

definition Removexattr :: "fuseNode \<Rightarrow> string \<Rightarrow> ('b, 'f) FuseFS \<Rightarrow> errno \<times> ('b, 'f) FuseFS" where
  "Removexattr n attr w =
     (let w = recordOperation w in
      if checkUnmounting w then (ENOTCONN, w)
      else case fs_XAttr (absFS w) of
        None \<Rightarrow> (ENOTSUP, w)
      | Some xattrFS \<Rightarrow>
          (case call (xa_Remove xattrFS (node_path n) attr) w of
             (Some err, w) \<Rightarrow> (mapError (Some err), recordError w)
           | (None, w) \<Rightarrow> (OK, w)))"

section \<open>File system statistics\<close>

text \<open>The fields of \<^verbatim>\<open>fuse.StatfsOut\<close> that the method sets.\<close>

record StatfsOut =
  Blocks :: uint64
  Bfree :: uint64
  Bavail :: uint64
  Files :: uint64
  Ffree :: uint64
  Bsize :: uint32
  NameLen :: uint32
  Frsize :: uint32

definition Statfs :: "fuseNode \<Rightarrow> StatfsOut \<Rightarrow> ('b, 'f) FuseFS \<Rightarrow> (errno \<times> StatfsOut) \<times> ('b, 'f) FuseFS" where
  "Statfs n out w =
     (let w = recordOperation w in
      if checkUnmounting w then ((ENOTCONN, out), w)
      else case fs_StatFS (absFS w) of
        Some statfser \<Rightarrow>
          (case call statfser w of
             (Inl err, w) \<Rightarrow> ((mapError (Some err), out), recordError w)
           | (Inr s, w) \<Rightarrow>
               ((OK, out\<lparr>Blocks := sf_total s, Bfree := sf_free s, Bavail := sf_avail s,
                         Files := sf_totalInodes s, Ffree := sf_freeInodes s, Bsize := sf_blockSize s,
                         NameLen := sf_nameMax s, Frsize := sf_blockSize s\<rparr>), w))
      | None \<Rightarrow>
          ((OK, out\<lparr>Blocks := 1024 * 1024 * 1024, Bfree := 1024 * 1024 * 1024,
                    Bavail := 1024 * 1024 * 1024, Files := 1024 * 1024, Ffree := 1024 * 1024,
                    Bsize := 4096, NameLen := 255, Frsize := 4096\<rparr>), w))"

lemmas info_handlers [handler_defs] = Access_def Getxattr_def Setxattr_def Listxattr_def Removexattr_def
  Statfs_def

end
