(* ===== verification/Mount_Ops.thy ===== *)
theory Mount_Ops
  imports Node_Info
begin

text \<open>
  Mounting and unmounting (\<^verbatim>\<open>mount.go\<close>). The host is a parameter: \<open>os.MkdirAll\<close>, \<open>os.ReadDir\<close>,
  go-fuse's \<open>fs.Mount\<close> and the server's \<open>Unmount\<close> act on a state \<open>'h\<close> of their own. The server's
  \<open>Wait\<close> only blocks.
\<close>

text \<open>The fields of \<^verbatim>\<open>fs.Options\<close> that \<^verbatim>\<open>Mount\<close> sets; the two time-outs are pointers into \<^verbatim>\<open>opts\<close>.\<close>

record fsOptions =
  fo_Name :: string
  fo_FsName :: string
  fo_DirectMount :: bool
  fo_Debug :: bool
  fo_AllowOther :: bool
  fo_Options :: "string list"
  fo_MaxBackground :: int
  fo_MaxReadAhead :: int
  fo_MaxWrite :: int
  fo_AttrTimeout :: int
  fo_EntryTimeout :: int

record 'h host =
  os_MkdirAll :: "string \<Rightarrow> uint32 \<Rightarrow> 'h \<Rightarrow> goerr option \<times> 'h"
  os_ReadDir :: "string \<Rightarrow> 'h \<Rightarrow> (goerr + string list) \<times> 'h"
  go_fuse_Mount :: "string \<Rightarrow> fuseNode \<Rightarrow> fsOptions \<Rightarrow> 'h \<Rightarrow> goerr option \<times> 'h"
  server_Unmount :: "'h \<Rightarrow> goerr option \<times> 'h"

definition build_options :: "MountOptions \<Rightarrow> fsOptions" where
  "build_options mopts =
     (let fuseOpts = \<lparr>fo_Name = FSName mopts, fo_FsName = FSName mopts, fo_DirectMount = False,
            fo_Debug = Debug mopts, fo_AllowOther = AllowOther mopts, fo_Options = Options mopts,
            fo_MaxBackground = 12, fo_MaxReadAhead = uint (MaxReadahead mopts),
            fo_MaxWrite = uint (MaxWrite mopts), fo_AttrTimeout = AttrTimeout mopts,
            fo_EntryTimeout = EntryTimeout mopts\<rparr>;
          fuseOpts = (if ReadOnly mopts
            then fuseOpts\<lparr>fo_Options := fo_Options fuseOpts @ [''ro'']\<rparr> else fuseOpts);
          fuseOpts = (if DirectIO mopts
            then fuseOpts\<lparr>fo_Options := fo_Options fuseOpts @ [''direct_io'']\<rparr> else fuseOpts);
          fuseOpts = (if DefaultPermissions mopts
            then fuseOpts\<lparr>fo_Options := fo_Options fuseOpts @ [''default_permissions'']\<rparr> else fuseOpts);
          fuseOpts = (if AllowRoot mopts
            then fuseOpts\<lparr>fo_Options := fo_Options fuseOpts @ [''allow_root'']\<rparr> else fuseOpts)
      in fuseOpts)"

text \<open>\<^verbatim>\<open>Mount\<close>. A nil \<^verbatim>\<open>opts\<close> is \<open>None\<close>.\<close>

definition Mount :: "'h host \<Rightarrow> 'b process \<Rightarrow> ('b, 'f) absFS \<Rightarrow> MountOptions option \<Rightarrow> 'h \<Rightarrow>
    (goerr + ('b, 'f) FuseFS) \<times> 'h" where
  "Mount os p fs mopts h = (case mopts of
     None \<Rightarrow> (Inl (ErrorString ''mount options cannot be nil''), h)
   | Some mopts \<Rightarrow>
       if Mountpoint mopts = '''' then (Inl (ErrorString ''mountpoint cannot be empty''), h)
       else case os_MkdirAll os (Mountpoint mopts) 0x1ED h of
         (Some err, h) \<Rightarrow> (Inl (Wrap ''failed to create mountpoint: '' err), h)
       | (None, h) \<Rightarrow>
           (case os_ReadDir os (Mountpoint mopts) h of
              (Inl err, h) \<Rightarrow> (Inl (Wrap ''failed to read mountpoint: '' err), h)
            | (Inr entries, h) \<Rightarrow>
                if length entries > 0 then (Inl (ErrorString ''mountpoint is not empty''), h)
                else let fuseFS = newFuseFS p fs mopts;
                         fuseOpts = build_options mopts
                     in (case go_fuse_Mount os (Mountpoint mopts) root_node fuseOpts h of
                           (Some err, h) \<Rightarrow> (Inl (Wrap ''failed to mount filesystem: '' err), h)
                         | (None, h) \<Rightarrow> (Inr (fuseFS\<lparr>server := True\<rparr>), h))))"

text \<open>\<open>order\<close> is the order in which \<^verbatim>\<open>CloseAll\<close> ranges over the handle table.\<close>

definition Unmount :: "'h host \<Rightarrow> uint64 list \<Rightarrow> ('b, 'f) FuseFS \<Rightarrow> 'h \<Rightarrow>
    goerr option \<times> ('b, 'f) FuseFS \<times> 'h" where
  "Unmount os order f h =
     (let f = f\<lparr>unmounting := True\<rparr>;
          f = (case ht_CloseAll (f_Close (absFS f)) order (handleTracker f) (backend f) of
                 (ht, b) \<Rightarrow> f\<lparr>handleTracker := ht, backend := b\<rparr>);
          f = f\<lparr>inodeManager := im_Clear (inodeManager f)\<rparr>
      in if server f then (case server_Unmount os h of (err, h) \<Rightarrow> (err, f, h))
         else (None, f, h))"

definition fuse_Wait :: "('b, 'f) FuseFS \<Rightarrow> goerr option" where
  "fuse_Wait f = (if \<not> server f then Some (ErrorString ''filesystem not mounted'') else None)"

definition MountAndWait :: "'h host \<Rightarrow> 'b process \<Rightarrow> ('b, 'f) absFS \<Rightarrow> MountOptions option \<Rightarrow> 'h \<Rightarrow>
    goerr option \<times> 'h" where
  "MountAndWait os p fs mopts h = (case Mount os p fs mopts h of
     (Inl err, h) \<Rightarrow> (Some err, h)
   | (Inr fuseFS, h) \<Rightarrow> (fuse_Wait fuseFS, h))"

text \<open>\<open>filepath.Abs\<close> and the device number \<open>syscall.Stat\<close> finds are parameters.\<close>

definition IsMounted :: "(string \<Rightarrow> goerr + string) \<Rightarrow> (string \<Rightarrow> goerr + uint64) \<Rightarrow> string \<Rightarrow> goerr + bool" where
  "IsMounted filepath_Abs stat_Dev path = (case filepath_Abs path of
     Inl err \<Rightarrow> Inl err
   | Inr absPath \<Rightarrow>
       (case stat_Dev absPath of
          Inl err \<Rightarrow> Inl err
        | Inr dev \<Rightarrow>
            let parent = path_Dir absPath in
            (case stat_Dev parent of
               Inl err \<Rightarrow> Inl err
             | Inr parentDev \<Rightarrow> Inr (dev \<noteq> parentDev))))"

end
