(* ===== verification/Session.thy ===== *)
theory Session
  imports Mount_Ops
begin

text \<open>
  A mounted file system as a system: the requests go-fuse delivers, the function that serves one,
  and the sessions they make up. Each handler runs to its end before the next request is served;
  theory \<open>Interleaving\<close> has handlers that run at the same time.
\<close>

section \<open>Requests\<close>

datatype request =
    ReqLookup fuseNode string nat
  | ReqGetattr fuseNode nat
  | ReqSetattr fuseNode fileHandle SetAttrIn nat
  | ReqOpen fuseNode uint32
  | ReqReaddir fuseNode
  | ReqCreate fuseNode string uint32 uint32 nat
  | ReqMkdir fuseNode string uint32 nat
  | ReqUnlink fuseNode string
  | ReqRmdir fuseNode string
  | ReqRename fuseNode string "fuseNode option" string
  | ReqFsync fuseNode fileHandle
  | ReqSymlink fuseNode string string nat
  | ReqLink fuseNode "fuseNode option" string nat
  | ReqReadlink fuseNode
  | ReqAccess fuseNode "(uint32 \<times> uint32) option" uint32
  | ReqGetxattr fuseNode string "bytes option"
  | ReqSetxattr fuseNode string bytes uint32
  | ReqListxattr fuseNode "bytes option"
  | ReqRemovexattr fuseNode string
  | ReqStatfs fuseNode StatfsOut
  | ReqRead fuseFileHandle nat int64
  | ReqWrite fuseFileHandle bytes int64
  | ReqRelease fuseFileHandle
  | ReqFlush fuseFileHandle
  | ReqAllocate fuseFileHandle uint64 uint64 uint32
  | ReqGetlk fuseFileHandle uint64 FileLock
  | ReqSetlk fuseFileHandle uint64 FileLock
  | ReqSetlkw fuseFileHandle uint64 FileLock
  | ReqFlock fuseFileHandle uint64 uint32

datatype response =
    RErrno errno
  | RNode childInode
  | RCreated childInode fuseFileHandle
  | RHandle fuseFileHandle
  | REntries "DirEntry list"
  | RData bytes
  | RCount uint32
  | RValue uint32 "bytes option"
  | RLock errno FileLock
  | RStat errno StatfsOut
  | RPanic

definition respond :: "('a \<Rightarrow> response) \<Rightarrow> (errno + 'a) \<times> 'w \<Rightarrow> response \<times> 'w" where
  "respond f rw = ((case fst rw of Inl e \<Rightarrow> RErrno e | Inr x \<Rightarrow> f x), snd rw)"

definition respond_errno :: "errno \<times> 'w \<Rightarrow> response \<times> 'w" where
  "respond_errno ew = (RErrno (fst ew), snd ew)"

fun serve :: "request \<Rightarrow> ('b, 'f) FuseFS \<Rightarrow> response \<times> ('b, 'f) FuseFS" where
  "serve (ReqLookup n name out) w = respond RNode (Lookup n name out w)"
| "serve (ReqGetattr n out) w = respond_errno (Getattr n out w)"
| "serve (ReqSetattr n f sain out) w = respond_errno (Setattr n f sain out w)"
| "serve (ReqOpen n flags) w = respond RHandle (fuse_Open n flags w)"
| "serve (ReqReaddir n) w = respond REntries (fuse_Readdir n w)"
| "serve (ReqCreate n name flags mode out) w = respond (\<lambda>(c, fh). RCreated c fh) (Create n name flags mode out w)"
| "serve (ReqMkdir n name mode out) w = respond RNode (fuse_Mkdir n name mode out w)"
| "serve (ReqUnlink n name) w = respond_errno (Unlink n name w)"
| "serve (ReqRmdir n name) w = respond_errno (Rmdir n name w)"
| "serve (ReqRename n name p newName) w = respond_errno (fuse_Rename n name p newName w)"
| "serve (ReqFsync n f) w = respond_errno (Fsync n f w)"
| "serve (ReqSymlink n target name out) w = respond RNode (fuse_Symlink n target name out w)"
| "serve (ReqLink n target name out) w = respond RNode (fuse_Link n target name out w)"
| "serve (ReqReadlink n) w = respond RData (fuse_Readlink n w)"
| "serve (ReqAccess n caller m) w = respond_errno (Access n caller m w)"
| "serve (ReqGetxattr n attr dest) w = respond (\<lambda>(k, d). RValue k d) (Getxattr n attr dest w)"
| "serve (ReqSetxattr n attr data flags) w = respond_errno (Setxattr n attr data flags w)"
| "serve (ReqListxattr n dest) w = (case Listxattr n dest w of
     (None, w) \<Rightarrow> (RPanic, w)
   | (Some r, w) \<Rightarrow> respond (\<lambda>(k, d). RValue k d) (r, w))"
| "serve (ReqRemovexattr n attr) w = respond_errno (Removexattr n attr w)"
| "serve (ReqStatfs n out) w = (case Statfs n out w of ((e, out), w) \<Rightarrow> (RStat e out, w))"
| "serve (ReqRead fh len off) w = respond RData (fuse_Read fh len off w)"
| "serve (ReqWrite fh data off) w = respond RCount (fuse_Write fh data off w)"
| "serve (ReqRelease fh) w = respond_errno (fuse_Release fh w)"
| "serve (ReqFlush fh) w = respond_errno (fuse_Flush fh w)"
| "serve (ReqAllocate fh off sz mode) w = respond_errno (fuse_Allocate fh off sz mode w)"
| "serve (ReqGetlk fh owner lk) w = (case fuse_Getlk fh owner lk w of ((e, out), w) \<Rightarrow> (RLock e out, w))"
| "serve (ReqSetlk fh owner lk) w = respond_errno (fuse_Setlk fh owner lk w)"
| "serve (ReqSetlkw fh owner lk) w = respond_errno (fuse_Setlkw fh owner lk w)"
| "serve (ReqFlock fh owner flags) w = respond_errno (fuse_Flock fh owner flags w)"

text \<open>The requests on a file handle, which do not look at \<^verbatim>\<open>unmounting\<close>.\<close>

fun on_handle :: "request \<Rightarrow> fuseFileHandle option" where
  "on_handle (ReqRead fh len off) = Some fh"
| "on_handle (ReqWrite fh data off) = Some fh"
| "on_handle (ReqRelease fh) = Some fh"
| "on_handle (ReqFlush fh) = Some fh"
| "on_handle (ReqAllocate fh off sz mode) = Some fh"
| "on_handle (ReqGetlk fh owner lk) = Some fh"
| "on_handle (ReqSetlk fh owner lk) = Some fh"
| "on_handle (ReqSetlkw fh owner lk) = Some fh"
| "on_handle (ReqFlock fh owner flags) = Some fh"
| "on_handle _ = None"

text \<open>The errno a response carries, 0 for data; \<open>None\<close> is a panic.\<close>

fun errno_of :: "response \<Rightarrow> errno option" where
  "errno_of (RErrno e) = Some e"
| "errno_of (RLock e out) = Some e"
| "errno_of (RStat e out) = Some e"
| "errno_of RPanic = None"
| "errno_of _ = Some OK"

lemmas respond_simps [simp] = respond_def respond_errno_def

section \<open>Unmounting\<close>

lemma serve_unmounting:
  assumes "unmounting w" and "on_handle r = None"
  shows "errno_of (fst (serve r w)) = Some ENOTCONN \<and> snd (serve r w) = recordOperation w"
  using assms by (cases r) (simp_all add: handler_defs checkUnmounting_def Let_def)

section \<open>Interface: what every handler preserves\<close>

text \<open>
  Handlers reach the shared state only through a few accesses. An invariant is a predicate \<open>P k\<close> that
  every access keeps; \<open>k\<close> counts how many more operations of the numbering managers it has room
  for, so that an operation on them takes one off. \<open>good\<close> is what the paths handed to the managers
  satisfy. The locale proves once that every handler keeps every such invariant; \<open>D\<close> bounds the
  entries the backend reports for one directory.
\<close>

fun inode_op_path :: "inode_op \<Rightarrow> string option" where
  "inode_op_path (OpGetInode p info) = Some p"
| "inode_op_path (OpGetCached now p) = Some p"
| "inode_op_path (OpCache now1 now2 p attr) = Some p"
| "inode_op_path (OpCacheDir now1 now2 p es) = Some p"
| "inode_op_path (OpGetDirCache now p) = Some p"
| "inode_op_path (OpInvalidateDir p) = Some p"
| "inode_op_path (OpInvalidateAttr p) = Some p"
| "inode_op_path OpInodeClear = None"

fun lock_op_path :: "lock_op \<Rightarrow> string option" where
  "lock_op_path (OpGetlk p owner lk) = Some p"
| "lock_op_path (OpSetlk p owner lk) = Some p"
| "lock_op_path (OpSetlkw p owner lk) = Some p"
| "lock_op_path (OpFlock p owner flags) = Some p"
| "lock_op_path (OpReleaseOwner owner) = None"

definition dir_bound :: "nat \<Rightarrow> ('b, 'f) absFS \<Rightarrow> bool" where
  "dir_bound D fs \<longleftrightarrow> (\<forall>f b infos. fst (f_Readdir fs f b) = Inr infos \<longrightarrow> length infos \<le> D)"

fun nodes_of :: "request \<Rightarrow> fuseNode list" where
  "nodes_of (ReqLookup n name out) = [n]"
| "nodes_of (ReqGetattr n out) = [n]"
| "nodes_of (ReqSetattr n f sain out) = [n]"
| "nodes_of (ReqOpen n flags) = [n]"
| "nodes_of (ReqReaddir n) = [n]"
| "nodes_of (ReqCreate n name flags mode out) = [n]"
| "nodes_of (ReqMkdir n name mode out) = [n]"
| "nodes_of (ReqUnlink n name) = [n]"
| "nodes_of (ReqRmdir n name) = [n]"
| "nodes_of (ReqRename n name p newName) = n # (case p of None \<Rightarrow> [] | Some m \<Rightarrow> [m])"
| "nodes_of (ReqFsync n f) = [n]"
| "nodes_of (ReqSymlink n target name out) = [n]"
| "nodes_of (ReqLink n target name out) = n # (case target of None \<Rightarrow> [] | Some m \<Rightarrow> [m])"
| "nodes_of (ReqReadlink n) = [n]"
| "nodes_of (ReqAccess n caller m) = [n]"
| "nodes_of (ReqGetxattr n attr dest) = [n]"
| "nodes_of (ReqSetxattr n attr data flags) = [n]"
| "nodes_of (ReqListxattr n dest) = [n]"
| "nodes_of (ReqRemovexattr n attr) = [n]"
| "nodes_of (ReqStatfs n out) = [n]"
| "nodes_of (ReqRead fh len off) = [fh_node fh]"
| "nodes_of (ReqWrite fh data off) = [fh_node fh]"
| "nodes_of (ReqRelease fh) = [fh_node fh]"
| "nodes_of (ReqFlush fh) = [fh_node fh]"
| "nodes_of (ReqAllocate fh off sz mode) = [fh_node fh]"
| "nodes_of (ReqGetlk fh owner lk) = [fh_node fh]"
| "nodes_of (ReqSetlk fh owner lk) = [fh_node fh]"
| "nodes_of (ReqSetlkw fh owner lk) = [fh_node fh]"
| "nodes_of (ReqFlock fh owner flags) = [fh_node fh]"

locale world_invariant =
  fixes P :: "nat \<Rightarrow> ('b, 'f) FuseFS \<Rightarrow> bool"
    and good :: "string \<Rightarrow> bool"
    and D :: nat
  assumes weaken: "P j w \<Longrightarrow> k \<le> j \<Longrightarrow> P k w"
    and at_stats: "P k w \<Longrightarrow> P k (w\<lparr>stats := st\<rparr>)"
    and at_backend: "P k w \<Longrightarrow> P k (w\<lparr>backend := b\<rparr>)"
    and at_outs: "P k w \<Longrightarrow> P k (w\<lparr>outs := buf\<rparr>)"
    and at_ticks: "P k w \<Longrightarrow> P k (w\<lparr>ticks := t\<rparr>)"
    and at_inodes: "P k w \<Longrightarrow> 0 < k \<Longrightarrow> pred_option good (inode_op_path iop) \<Longrightarrow>
      P (k - 1) (w\<lparr>inodeManager := inode_step iop (inodeManager w)\<rparr>)"
    and at_handles: "P k w \<Longrightarrow> 0 < k \<Longrightarrow> (\<forall>f flags p. hop = OpAdd f flags p \<longrightarrow> good p) \<Longrightarrow>
      P (k - 1) (w\<lparr>handleTracker := fst (handle_step close hop (handleTracker w, b))\<rparr>)"
    and at_locks: "P k w \<Longrightarrow> pred_option good (lock_op_path lop) \<Longrightarrow>
      P k (w\<lparr>lockManager := lock_step lop (lockManager w)\<rparr>)"
    and at_unmounting: "P k w \<Longrightarrow> P k (w\<lparr>unmounting := True\<rparr>)"
    and good_Join: "good p \<Longrightarrow> good (path_Join p name)"
    and bounded: "P k w \<Longrightarrow> dir_bound D (absFS w)"
begin

lemma wp_accesses:
  "P k w \<Longrightarrow> P k (recordOperation w)" "P k w \<Longrightarrow> P k (recordError w)"
  "P k w \<Longrightarrow> P k (snd (call m w))" "P k w \<Longrightarrow> P k (set_attr out a w)"
  "P k w \<Longrightarrow> P k (SetAttrTimeout out t w)" "P k w \<Longrightarrow> P k (SetEntryTimeout out t w)"
  by (simp_all add: recordOperation_def recordError_def call_eq set_attr_def SetAttrTimeout_def
      SetEntryTimeout_def at_stats at_backend at_outs)

lemma wp_inodes:
  "P k w \<Longrightarrow> good p \<Longrightarrow> 0 < k \<Longrightarrow> P (k - 1) (snd (on_inodes (GetInode p info) w))"
  "P k w \<Longrightarrow> good p \<Longrightarrow> 0 < k \<Longrightarrow> P (k - 1) (snd (read_cached p w))"
  "P k w \<Longrightarrow> good p \<Longrightarrow> 0 < k \<Longrightarrow> P (k - 1) (snd (read_dircache p w))"
  "P k w \<Longrightarrow> good p \<Longrightarrow> 0 < k \<Longrightarrow> P (k - 1) (write_cached p a w)"
  "P k w \<Longrightarrow> good p \<Longrightarrow> 0 < k \<Longrightarrow> P (k - 1) (write_dircache p es w)"
  "P k w \<Longrightarrow> good p \<Longrightarrow> 0 < k \<Longrightarrow> P (k - 1) (invalidate_dir p w)"
  using at_inodes [of k w "OpGetInode p info"]
    at_ticks [OF at_inodes [of k w "OpGetCached (clock w (ticks w)) p"], of "ticks w + 1"]
    at_ticks [OF at_inodes [of k w "OpGetDirCache (clock w (ticks w)) p"], of "ticks w + 1"]
    at_ticks [OF at_inodes [of k w "OpCache (clock w (ticks w)) (clock w (ticks w + 1)) p a"], of "ticks w + 2"]
    at_ticks [OF at_inodes [of k w "OpCacheDir (clock w (ticks w)) (clock w (ticks w + 1)) p es"], of "ticks w + 2"]
    at_inodes [of k w "OpInvalidateDir p"]
  by (simp_all add: world_eqs invalidate_dir_def)

lemma wp_ret: "P j w \<Longrightarrow> N \<le> j \<Longrightarrow> P N (snd (r, w))"
  by (simp add: weaken)

lemma wp_bind: "P k (snd x) \<Longrightarrow> (\<And>r w'. P k w' \<Longrightarrow> P N (snd (f r w'))) \<Longrightarrow> P N (snd (case_prod f x))"
  by (simp add: case_prod_beta)

lemma wp_state: "P k v \<Longrightarrow> (\<And>w'. P k w' \<Longrightarrow> P N (snd (f w'))) \<Longrightarrow> P N (snd (Let v f))"
  by simp

lemma wp_let: "P N (snd (f v)) \<Longrightarrow> P N (snd (Let v f))"
  by simp

lemma wp_if: "P N (snd a) \<Longrightarrow> P N (snd b) \<Longrightarrow> P N (snd (if c then a else b))"
  by simp

lemma wp_option: "P N (snd a) \<Longrightarrow> (\<And>x. m = Some x \<Longrightarrow> P N (snd (b x))) \<Longrightarrow> P N (snd (case_option a b m))"
  by (cases m) simp_all

lemma wp_sum: "(\<And>e. P N (snd (a e))) \<Longrightarrow> (\<And>x. P N (snd (b x))) \<Longrightarrow> P N (snd (case_sum a b m))"
  by (cases m) simp_all

lemma wp_handle: "P N (snd a) \<Longrightarrow> (\<And>x. P N (snd (b x))) \<Longrightarrow> P N (snd c) \<Longrightarrow> P N (snd (case_fileHandle a b c m))"
  by (cases m) simp_all

lemma wp_pair: "(\<And>x y. P N (snd (f x y))) \<Longrightarrow> P N (snd (case_prod f z))"
  by (simp add: case_prod_beta)

lemma wp_Add:
  "P k w \<Longrightarrow> good p \<Longrightarrow> 0 < k \<Longrightarrow> N \<le> k - 1 \<Longrightarrow>
     P N (snd (case ht_Add x flags p (handleTracker w) of (h, ht) \<Rightarrow> (f h, w\<lparr>handleTracker := ht\<rparr>)))"
  using at_handles [of k w "OpAdd x flags p"] by (simp add: case_prod_beta weaken)

lemma wp_fillAttr: "P k w \<Longrightarrow> P k (fillAttr out info ino w)"
  by (simp add: fillAttr_def Let_def wp_accesses)

lemmas wp_rules = wp_accesses wp_fillAttr wp_Add wp_let wp_if wp_option wp_sum wp_handle

lemma wp_new_entry: "P k w \<Longrightarrow> good p \<Longrightarrow> 0 < k \<Longrightarrow> P (k - 1) (snd (new_entry p mode info out w))"
  unfolding new_entry_def
  by (assumption | rule wp_state wp_inodes wp_fillAttr wp_accesses wp_let wp_bind wp_ret order_refl)+

lemma wp_setattr:
  "P k w \<Longrightarrow> P k (snd (setattr_size f sain w))" "P k w \<Longrightarrow> P k (snd (setattr_mode n sain w))"
  "P k w \<Longrightarrow> P k (setattr_mtime n sain w)"
  by (simp_all add: setattr_size_def setattr_mode_def setattr_mtime_def wp_accesses
      split: option.split fileHandle.split)

lemma wp_seek: "P k w \<Longrightarrow> P k (snd (seek_start f off w))"
  by (simp add: seek_start_def wp_accesses split: option.split)

lemma wp_Getattr: "P (k + 3) w \<Longrightarrow> good (node_path n) \<Longrightarrow> P k (snd (Getattr n out w))"
  unfolding Getattr_def
  by (assumption | rule wp_state wp_inodes wp_rules wp_bind wp_ret | simp)+

lemma wp_node_handlers:
  assumes "P (k + 3) w" and "good (node_path n)"
  shows "P k (snd (Lookup n name out w))" "P k (snd (Setattr n f sain out w))" "P k (snd (fuse_Open n flags w))"
    "P k (snd (Create n name flags mode out w))" "P k (snd (fuse_Mkdir n name mode out w))"
    "P k (snd (Unlink n name w))" "P k (snd (Rmdir n name w))" "P k (snd (Fsync n f w))"
    "P k (snd (fuse_Symlink n target name out w))" "P k (snd (fuse_Link n tn name out w))"
    "P k (snd (fuse_Readlink n w))"
  unfolding Lookup_def Setattr_def fuse_Open_def Create_def fuse_Mkdir_def Unlink_def Rmdir_def Fsync_def
    fuse_Symlink_def fuse_Link_def fuse_Readlink_def
  by (insert assms) (assumption | rule wp_state wp_inodes wp_new_entry wp_setattr wp_Getattr wp_rules wp_bind wp_ret good_Join | simp)+

lemma wp_Rename:
  assumes "P (k + 3) w" and "good (node_path n)" and "pred_option (\<lambda>m. good (node_path m)) np"
  shows "P k (snd (fuse_Rename n name np newName w))"
  unfolding fuse_Rename_def
  by (insert assms) (assumption | rule wp_state wp_inodes wp_rules wp_bind wp_ret good_Join | simp)+

lemma wp_info_handlers:
  assumes "P k w"
  shows "P k (snd (Access n caller m w))" "P k (snd (Getxattr n attr dest w))" "P k (snd (Setxattr n attr data xflags w))"
    "P k (snd (Listxattr n dest w))" "P k (snd (Removexattr n attr w))" "P k (snd (Statfs n sout w))"
  unfolding Access_def Getxattr_def Setxattr_def Listxattr_def Removexattr_def Statfs_def
  by (insert assms) (assumption | rule wp_state wp_rules wp_bind wp_pair wp_ret | simp)+

lemma wp_readdir_loop:
  "P (k + length infos) w \<Longrightarrow> good dir \<Longrightarrow> P k (snd (readdir_loop dir infos es w))"
proof (induction infos arbitrary: es w)
  case Nil
  then show ?case by simp
next
  case (Cons info infos)
  have "P (k + length infos) (snd (on_inodes (GetInode (path_Join dir (fi_Name info)) info) w))"
    using wp_inodes(1) [OF Cons.prems(1), of "path_Join dir (fi_Name info)" info] Cons.prems(2) by (simp add: good_Join)
  with Cons.IH Cons.prems(2) show ?case by (simp add: Let_def case_prod_beta)
qed

text \<open>Only the reading of a directory needs to know what the backend answers: its length is bounded.\<close>

lemma wp_read_dir:
  assumes "P j w"
    and "\<And>r w'. P j w' \<Longrightarrow> (\<And>infos. r = Inr infos \<Longrightarrow> length infos \<le> D) \<Longrightarrow> P N (snd (f r w'))"
  shows "P N (snd (case_prod f (call (f_Readdir (absFS w) dir) w)))"
proof -
  have "P j (w\<lparr>backend := snd (f_Readdir (absFS w) dir (backend w))\<rparr>)" using assms(1) by (rule at_backend)
  then show ?thesis
    unfolding call_eq prod.case by (rule assms(2)) (use bounded [OF assms(1)] in \<open>simp add: dir_bound_def\<close>)
qed

lemma wp_sum_eq: "(\<And>e. m = Inl e \<Longrightarrow> P N (snd (a e))) \<Longrightarrow> (\<And>x. m = Inr x \<Longrightarrow> P N (snd (b x))) \<Longrightarrow>
    P N (snd (case_sum a b m))"
  by (cases m) simp_all

lemma wp_found_dir:
  assumes "P (k + D + 1) w" and "good (node_path n)" and "length infos \<le> D"
  shows "P k (snd (let (es, w) = readdir_loop (node_path n) infos [] w;
      w = write_dircache (node_path n) (Some es) w;
      w = snd (call (f_Close (absFS w) dir) w) in (Inr (convertDirEntries es), w)))"
proof -
  have "P (k + 1 + length infos) w" using assms by (intro weaken [OF assms(1)]) simp
  then have "P (k + 1) (snd (readdir_loop (node_path n) infos [] w))"
    using assms(2) by (rule wp_readdir_loop)
  from wp_inodes(5) [OF this assms(2)] show ?thesis
    by (simp add: Let_def case_prod_beta wp_accesses)
qed

lemma wp_Readdir: "P (k + D + 2) w \<Longrightarrow> good (node_path n) \<Longrightarrow> P k (snd (fuse_Readdir n w))"
  unfolding fuse_Readdir_def
  by (assumption | rule wp_state wp_inodes wp_found_dir wp_read_dir wp_sum_eq wp_accesses wp_let wp_if wp_option wp_bind wp_ret
      | simp)+

lemma wp_file_handlers:
  assumes "P (k + 1) w" and "good (node_path (fh_node fh))"
  shows "P k (snd (fuse_Read fh len off w))" "P k (snd (fuse_Write fh data off w))"
    "P k (snd (fuse_Flush fh w))" "P k (snd (fuse_Allocate fh uoff sz mode w))"
    "P k (snd (fuse_Getlk fh owner lk w))"
  unfolding fuse_Read_def fuse_Write_def fuse_Flush_def fuse_Allocate_def fuse_Getlk_def
  by (insert assms) (assumption | rule wp_state wp_seek wp_accesses at_stats wp_let wp_if wp_option wp_sum wp_bind wp_pair wp_ret
      | simp)+

lemma wp_Release:
  assumes "P (k + 1) w"
  shows "P k (snd (fuse_Release fh w))"
proof -
  let ?w = "(recordOperation w)\<lparr>lockManager := ReleaseOwner (fh_handle fh) (lockManager w)\<rparr>"
  have "P (k + 1) ?w" using at_locks [OF wp_accesses(1) [OF assms], of "OpReleaseOwner (fh_handle fh)"] by simp
  from at_handles [OF this, of "OpRelease (fh_handle fh)" "f_Close (absFS w)" "backend w"]
  have "P k (?w\<lparr>handleTracker := fst (snd (ht_Release (f_Close (absFS w)) (fh_handle fh) (handleTracker w) (backend w)))\<rparr>)"
    by simp
  from at_backend [OF this] show ?thesis by (simp add: fuse_Release_def Let_def case_prod_beta)
qed

lemma wp_lock_handlers:
  assumes "P k w" and "good (node_path (fh_node fh))"
  shows "P k (snd (fuse_Setlk fh owner lk w))" "P k (snd (fuse_Setlkw fh owner lk w))"
    "P k (snd (fuse_Flock fh owner flags w))"
  using at_locks [OF wp_accesses(1) [OF assms(1)], of "OpSetlk (node_path (fh_node fh)) owner lk"]
    at_locks [OF wp_accesses(1) [OF assms(1)], of "OpSetlkw (node_path (fh_node fh)) owner lk"]
    at_locks [OF wp_accesses(1) [OF assms(1)], of "OpFlock (node_path (fh_node fh)) owner flags"] assms(2)
  by (simp_all add: fuse_Setlk_def fuse_Setlkw_def fuse_Flock_def on_locks_def Let_def case_prod_beta)

lemma wp_serve:
  assumes inv: "P (k + D + 3) w" and nodes: "\<forall>n \<in> set (nodes_of r). good (node_path n)"
  shows "P k (snd (serve r w))"
proof -
  have "P (k + 3) w" "P (k + D + 2) w" "P (k + 1) w" "P k w" using inv by (auto intro: weaken)
  note wps = wp_node_handlers [OF this(1)] wp_Getattr [OF this(1)] wp_Rename [OF this(1)] wp_info_handlers [OF this(4)]
    wp_Readdir [OF this(2)] wp_file_handlers [OF this(3)] wp_Release [OF this(3)] wp_lock_handlers [OF this(4)]
  from nodes show ?thesis
  proof (cases r)
    case (ReqRename n name np newName)
    with nodes show ?thesis by (cases np) (simp_all add: wps)
  qed (auto simp: wps case_prod_beta split: option.split)
qed

lemma wp_Unmount:
  assumes "P (k + 2) w"
  shows "P k (fst (snd (Unmount os order w h)))"
proof -
  let ?c = "ht_CloseAll (f_Close (absFS w)) order (handleTracker w) (backend w)"
  from at_handles [OF at_unmounting [OF assms], of "OpCloseAll order" "f_Close (absFS w)" "backend w"]
  have "P (k + 1) (w\<lparr>unmounting := True, handleTracker := fst ?c\<rparr>)" by simp
  from at_inodes [OF at_backend [OF this, of "snd ?c"], of OpInodeClear] show ?thesis
    by (simp add: Unmount_def Let_def case_prod_beta)
qed

end

section \<open>Sessions\<close>

text \<open>
  A session starts with a successful \<^verbatim>\<open>Mount\<close>. Its state is the adapter, the nodes go-fuse knows, and
  the host. go-fuse delivers requests on nodes it knows, and learns the nodes of the answers;
  \<^verbatim>\<open>Unmount\<close> may come at any time and more than once. The number counts the events so far.
\<close>

fun new_nodes :: "response \<Rightarrow> fuseNode set" where
  "new_nodes (RNode c) = {ci_node c}"
| "new_nodes (RCreated c fh) = {ci_node c, fh_node fh}"
| "new_nodes (RHandle fh) = {fh_node fh}"
| "new_nodes _ = {}"

datatype event = Serve request | Shutdown "uint64 list"

inductive session_step :: "'h host \<Rightarrow> event \<Rightarrow> ('b, 'f) FuseFS \<times> fuseNode set \<times> 'h \<Rightarrow>
    ('b, 'f) FuseFS \<times> fuseNode set \<times> 'h \<Rightarrow> bool" for os where
  serving: "set (nodes_of r) \<subseteq> N \<Longrightarrow> serve r w = (resp, w') \<Longrightarrow>
    session_step os (Serve r) (w, N, h) (w', N \<union> new_nodes resp, h)"
| shutting: "Unmount os order w h = (err, w', h') \<Longrightarrow>
    session_step os (Shutdown order) (w, N, h) (w', N, h')"

inductive session :: "'h host \<Rightarrow> 'b process \<Rightarrow> ('b, 'f) absFS \<Rightarrow> MountOptions \<Rightarrow> nat \<Rightarrow>
    ('b, 'f) FuseFS \<times> fuseNode set \<times> 'h \<Rightarrow> bool" for os p fs mo where
  mounted: "Mount os p fs (Some mo) h0 = (Inr w, h) \<Longrightarrow> session os p fs mo 0 (w, {root_node}, h)"
| more: "session os p fs mo n s \<Longrightarrow> session_step os e s s' \<Longrightarrow> session os p fs mo (Suc n) s'"

inductive_simps session_step_Serve: "session_step os (Serve r) (w, N, h) s'"
inductive_simps session_step_Shutdown: "session_step os (Shutdown order) (w, N, h) s'"

lemma Mount_OK:
  assumes "Mount os p fs mo h0 = (Inr w, h)"
  obtains mo' where "mo = Some mo'" and "w = (newFuseFS p fs mo')\<lparr>server := True\<rparr>"
  using assms by (auto simp: Mount_def Let_def split: option.splits if_splits sum.splits prod.splits)

text \<open>The nodes an answer introduces are children of nodes of the request, or nodes of the request.\<close>

lemma new_nodes_serve:
  "m \<in> new_nodes (fst (serve r w)) \<Longrightarrow>
     \<exists>n \<in> set (nodes_of r). m = n \<or> (\<exists>name. m = \<lparr>node_path = path_Join (node_path n) name\<rparr>)"
  by (cases r) (auto simp: handler_defs new_entry_def Let_def case_prod_beta
      split: sum.splits option.splits if_splits)

context world_invariant
begin

lemma session_inv:
  assumes "session os p fs mo n (w, N, h)"
    and "P (n * (D + 3) + k) ((newFuseFS p fs mo)\<lparr>server := True\<rparr>)" and "good ''/''"
  shows "P k w \<and> (\<forall>m \<in> N. good (node_path m))"
  using assms
proof (induction n "(w, N, h)" arbitrary: w N h k)
  case (mounted h0 w h)
  then show ?case by (auto elim!: Mount_OK simp: root_node_def)
next
  case (more n s e w N h)
  obtain v M g where s: "s = (v, M, g)" by (cases s)
  have "P (k + D + 3) v" and good: "\<forall>m \<in> M. good (node_path m)"
    using more.hyps(2) [OF s, of "k + D + 3"] more.prems by (simp_all add: algebra_simps)
  from more.hyps(3) [unfolded s] show ?case
  proof (cases rule: session_step.cases)
    case (serving r resp)
    then have ok: "\<forall>n \<in> set (nodes_of r). good (node_path n)" using good by blast
    from wp_serve [OF \<open>P (k + D + 3) v\<close> ok] serving new_nodes_serve [of _ r v] good good_Join
    show ?thesis by fastforce
  next
    case (shutting order err)
    with wp_Unmount [OF weaken [OF \<open>P (k + D + 3) v\<close>], of k os order g] good show ?thesis by simp
  qed
qed

end

end
