(* ===== verification/Mem_Backend.thy ===== *)
theory Mem_Backend
  imports Session
begin

text \<open>
  A backend small enough to compute with: a flat directory of files in memory, and one file
  position. The theorems hold for every backend; this one instantiates the parameter in the
  examples that accompany them.
\<close>

record mem =
  mem_files :: "(string \<times> bytes) list"
  mem_pos :: nat

definition mem_info :: "string \<Rightarrow> bytes \<Rightarrow> FileInfo" where
  "mem_info name content = \<lparr>fi_Name = name, fi_Size = of_nat (length content), fi_Mode = 0x1A4, fi_ModTime = 0,
     fi_IsDir = False, fi_Sys = Some (1000, 100)\<rparr>"

definition mem_Stat :: "string \<Rightarrow> mem \<Rightarrow> (goerr + FileInfo) \<times> mem" where
  "mem_Stat p m = (case map_of (mem_files m) p of
     Some content \<Rightarrow> (Inr (mem_info (tl p) content), m)
   | None \<Rightarrow> (Inl ErrNotExist, m))"

definition mem_OpenFile :: "string \<Rightarrow> uint64 \<Rightarrow> uint32 \<Rightarrow> mem \<Rightarrow> (goerr + string) \<times> mem" where
  "mem_OpenFile p flags mode m =
     (if map_of (mem_files m) p \<noteq> None then (Inr p, m)
      else if flags AND 0x40 \<noteq> 0 then (Inr p, m\<lparr>mem_files := (p, []) # mem_files m\<rparr>)
      else (Inl ErrNotExist, m))"

definition mem_Read :: "string \<Rightarrow> nat \<Rightarrow> mem \<Rightarrow> (bytes \<times> goerr option) \<times> mem" where
  "mem_Read f len m = (case map_of (mem_files m) f of
     None \<Rightarrow> (([], Some ErrNotExist), m)
   | Some content \<Rightarrow>
       let data = take len (drop (mem_pos m) content)
       in ((data, if data = [] \<and> len > 0 then Some EOF else None), m\<lparr>mem_pos := mem_pos m + length data\<rparr>))"

definition mem_Write :: "string \<Rightarrow> bytes \<Rightarrow> mem \<Rightarrow> (uint64 \<times> goerr option) \<times> mem" where
  "mem_Write f data m = (case map_of (mem_files m) f of
     None \<Rightarrow> ((0, Some ErrNotExist), m)
   | Some content \<Rightarrow>
       let content = take (mem_pos m) content @ data @ drop (mem_pos m + length data) content
       in ((of_nat (length data), None),
           m\<lparr>mem_files := (f, content) # mem_files m, mem_pos := mem_pos m + length data\<rparr>))"

definition mem_fs :: "(mem, string) absFS" where
  "mem_fs = \<lparr>
     fs_Stat = mem_Stat,
     fs_OpenFile = mem_OpenFile,
     fs_Open = (\<lambda>p m. (Inr p, m)),
     fs_Mkdir = (\<lambda>p mode m. (Some ErrPermission, m)),
     fs_Remove = (\<lambda>p m. (None, m\<lparr>mem_files := filter (\<lambda>(q, c). q \<noteq> p) (mem_files m)\<rparr>)),
     fs_Rename = (\<lambda>p q m. (None, m\<lparr>mem_files := map (\<lambda>(r, c). (if r = p then q else r, c)) (mem_files m)\<rparr>)),
     fs_Chtimes = (\<lambda>p atime mtime m. (None, m)),
     fs_Chmod = None,
     fs_Symlink = None,
     fs_Lstat = None,
     fs_Link = None,
     fs_Readlink = None,
     fs_XAttr = None,
     fs_StatFS = None,
     f_Seek = (\<lambda>f. Some (\<lambda>off m. (None, m\<lparr>mem_pos := unat off\<rparr>))),
     f_Read = mem_Read,
     f_Write = mem_Write,
     f_Close = (\<lambda>f m. (None, m)),
     f_Stat = mem_Stat,
     f_Readdir = (\<lambda>f m. (Inr (map (\<lambda>(p, c). mem_info (tl p) c) (take 8 (mem_files m))), m)),
     f_Sync = (\<lambda>f. None),
     f_Truncate = (\<lambda>f. None),
     f_Allocate = (\<lambda>f. None)\<rparr>"

text \<open>A host where mounting always works, and a process on it with one file.\<close>

definition easy_host :: "unit host" where
  "easy_host = \<lparr>os_MkdirAll = (\<lambda>p mode h. (None, h)), os_ReadDir = (\<lambda>p h. (Inr [], h)),
     go_fuse_Mount = (\<lambda>p n opt h. (None, h)), server_Unmount = (\<lambda>h. (None, h))\<rparr>"

definition zero_out :: fuseOut where
  "zero_out = \<lparr>o_Attr = \<lparr>a_Ino = 0, a_Size = 0, a_Blocks = 0, a_Mtime = 0, a_Mtimensec = 0, a_Mode = 0,
      a_Uid = 0, a_Gid = 0, a_Blksize = 0\<rparr>, o_AttrTimeout = 0, o_EntryTimeout = 0\<rparr>"

definition mem_process :: "mem process" where
  "mem_process = \<lparr>p_backend = \<lparr>mem_files = [(''/a'', [1, 2, 3])], mem_pos = 0\<rparr>, p_clock = int, p_outs = (\<lambda>_. zero_out),
     p_Uid = 1000, p_Gid = 100\<rparr>"

definition mem_world :: "(mem, string) FuseFS" where
  "mem_world = (newFuseFS mem_process mem_fs (DefaultMountOptions ''/mnt''))\<lparr>server := True\<rparr>"

lemma mem_mount: "Mount easy_host mem_process mem_fs (Some (DefaultMountOptions ''/mnt'')) () = (Inr mem_world, ())"
  by (simp add: Mount_def easy_host_def DefaultMountOptions_def mem_world_def Let_def)

lemma mem_session:
  "session easy_host mem_process mem_fs (DefaultMountOptions ''/mnt'') 0 (mem_world, {root_node}, ())"
  using mem_mount by (rule session.mounted)

lemma mem_dir_bound: "dir_bound 8 mem_fs"
  by (auto simp: dir_bound_def mem_fs_def)

text \<open>The state after one request to the freshly mounted file system.\<close>

definition mem_after :: "request \<Rightarrow> (mem, string) FuseFS" where
  "mem_after r = snd (serve r mem_world)"

lemma mem_session_after:
  "set (nodes_of r) \<subseteq> {root_node} \<Longrightarrow>
     session easy_host mem_process mem_fs (DefaultMountOptions ''/mnt'') 1
       (mem_after r, {root_node} \<union> new_nodes (fst (serve r mem_world)), ())"
  using session.more [OF mem_session session_step.serving [of r "{root_node}" mem_world "fst (serve r mem_world)" "mem_after r"]]
  by (simp add: mem_after_def)

text \<open>The parts of the example, for evaluation.\<close>

lemma mem_fs_sel:
  "fs_Stat mem_fs = mem_Stat" "fs_OpenFile mem_fs = mem_OpenFile" "fs_Open mem_fs = (\<lambda>p m. (Inr p, m))"
  "fs_Rename mem_fs = (\<lambda>p q m. (None, m\<lparr>mem_files := map (\<lambda>(r, c). (if r = p then q else r, c)) (mem_files m)\<rparr>))"
  "f_Close mem_fs = (\<lambda>f m. (None, m))"
  "f_Readdir mem_fs = (\<lambda>f m. (Inr (map (\<lambda>(p, c). mem_info (tl p) c) (take 8 (mem_files m))), m))"
  by (simp_all add: mem_fs_def)

lemma mem_world_sel:
  "absFS mem_world = mem_fs" "opts mem_world = DefaultMountOptions ''/mnt''" "unmounting mem_world = False"
  "inodeManager mem_world = NewInodeManager 10000 1000 (5 * time_Second) (5 * time_Second)"
  "handleTracker mem_world = NewHandleTracker" "clock mem_world = int" "ticks mem_world = 0"
  "backend mem_world = \<lparr>mem_files = [(''/a'', [1, 2, 3])], mem_pos = 0\<rparr>"
  by (simp_all add: mem_world_def newFuseFS_def mem_process_def DefaultMountOptions_def)

end
