(* ===== verification/Session_Safety.thy ===== *)
theory Session_Safety
  imports Mem_Backend
begin

text \<open>
  Invariants of whole sessions: the interpretations of \<open>world_invariant\<close> and what they give.
\<close>

section \<open>The managers inside a session\<close>

text \<open>Each manager's state is one its own operations lead to, with room for \<open>k\<close> more numberings. Only
  the table of the handle tracker matters here, so its files are closed by a closer that does
  nothing.\<close>

definition no_close :: "(unit, 'f) closer" where
  "no_close f b = (None, ())"

definition managers_reached :: "nat \<Rightarrow> MountOptions \<Rightarrow> nat \<Rightarrow> ('b, 'f) FuseFS \<Rightarrow> bool" where
  "managers_reached D mo k w \<longleftrightarrow>
     (\<exists>iops. inodeManager w = inode_run (MaxCachedInodes mo) (MaxCachedDirs mo) (AttrCacheTTL mo) (DirCacheTTL mo) iops \<and>
        length iops + k \<le> inode_limit) \<and>
     (\<exists>hops. handleTracker w = fst (handle_run no_close hops ()) \<and> length hops + k \<le> inode_limit) \<and>
     (\<exists>lops. lockManager w = lock_run lops) \<and> dir_bound D (absFS w)"

lemma CloseAll_table:
  "fst (ht_CloseAll close order ht b) = fst (ht_CloseAll close' order ht b')"
  by (induction order arbitrary: ht b b') (simp_all split: option.split)

lemma handle_step_table: "fst (handle_step close hop (ht, b)) = fst (handle_step close' hop (ht, b'))"
proof (cases hop)
  case (OpCloseAll order)
  then show ?thesis by (simp add: CloseAll_table)
qed (simp_all add: ht_Release_def Let_def case_prod_beta split: option.split)

lemma inode_run_snoc: "inode_step iop (inode_run a d at dt iops) = inode_run a d at dt (iops @ [iop])"
  by (simp add: inode_run_def)

lemma handle_run_snoc: "handle_step close hop (handle_run close hops b) = handle_run close (hops @ [hop]) b"
  by (simp add: handle_run_def)

lemma lock_run_snoc: "lock_step lop (lock_run lops) = lock_run (lops @ [lop])"
  by (simp add: lock_run_def)

interpretation managers: world_invariant "managers_reached D mo" "\<lambda>_. True" D
proof (unfold_locales, goal_cases)
  case (1 j w k)
  then show ?case unfolding managers_reached_def by (meson add_left_mono le_trans)
next
  case (6 k w iop)
  then obtain iops where "inodeManager w = inode_run (MaxCachedInodes mo) (MaxCachedDirs mo) (AttrCacheTTL mo) (DirCacheTTL mo) iops"
    "length iops + k \<le> inode_limit" by (auto simp: managers_reached_def)
  with 6 show ?case
    by (auto simp: managers_reached_def inode_run_snoc intro!: exI [of _ "iops @ [iop]"])
next
  case (7 k w hop close b)
  then obtain hops where hops: "handleTracker w = fst (handle_run no_close hops ())" "length hops + k \<le> inode_limit"
    by (auto simp: managers_reached_def)
  then have "fst (handle_step close hop (handleTracker w, b)) = fst (handle_run no_close (hops @ [hop]) ())"
    using handle_step_table [of close hop "handleTracker w" b no_close "()"]
    by (metis handle_run_snoc old.unit.exhaust prod.collapse)
  with 7 hops(2) show ?case
    by (auto simp: managers_reached_def intro!: exI [of _ "hops @ [hop]"])
next
  case (8 k w lop)
  then show ?case by (auto simp: managers_reached_def lock_run_snoc)
qed (auto simp: managers_reached_def)

lemma managers_start:
  assumes "k \<le> inode_limit" and "dir_bound D fs"
  shows "managers_reached D mo k ((newFuseFS p fs mo)\<lparr>server := True\<rparr>)"
  using assms
  by (auto simp: managers_reached_def newFuseFS_def inode_run_def handle_run_def lock_run_def
      intro!: exI [of _ "[]"])

lemma session_managers:
  assumes "session os p fs mo n (w, N, h)" and "dir_bound D fs" and "n * (D + 3) \<le> inode_limit"
  shows "managers_reached D mo 0 w"
  using managers.session_inv [OF assms(1), where k = 0] managers_start [OF _ assms(2), of "n * (D + 3)" mo p] assms(3)
  by simp

section \<open>Paths inside a session\<close>

text \<open>Every path the managers hold.\<close>

definition inode_paths :: "InodeManager \<Rightarrow> string set" where
  "inode_paths im = fset (fmdom (pathToInode im)) \<union> fset (fmran (inodeToPath im)) \<union>
     fset (fmdom (items (attrCache im))) \<union> fset (fmdom (items (dirCache im)))"

definition lock_paths :: "LockManager \<Rightarrow> string set" where
  "lock_paths lm = fset (fmdom (flocks lm)) \<union> fset (fmdom (posixLocks lm))"

definition handle_paths :: "'f HandleTracker \<Rightarrow> string set" where
  "handle_paths ht = {p. \<exists>fh e. fmlookup (handles ht) fh = Some e \<and> p = he_path e}"

definition paths_of :: "('b, 'f) FuseFS \<Rightarrow> string set" where
  "paths_of w = inode_paths (inodeManager w) \<union> handle_paths (handleTracker w) \<union> lock_paths (lockManager w)"

lemma items_lru_Get: "fmdom (items (snd (lru_Get now k c))) |\<subseteq>| fmdom (items c)"
  by (auto simp: lru_Get_def lru_remove_def Let_def split: option.splits if_splits)

lemma items_evict: "fmdom (items (evictOldest c)) |\<subseteq>| fmdom (items c)"
  by (auto simp: evictOldest_def lru_remove_def Let_def split: option.splits prod.splits)

lemma items_lru_Put: "fmdom (items (lru_Put now k v c)) |\<subseteq>| finsert k (fmdom (items c))"
  by (auto simp: lru_Put_def Let_def dest: fsubsetD [OF items_evict] split: option.splits if_splits)

lemma items_lru_Delete: "fmdom (items (lru_Delete k c)) |\<subseteq>| fmdom (items c)"
  by (auto simp: lru_Delete_def lru_remove_def split: option.splits)

lemma GetInode_paths: "inode_paths (snd (GetInode p info im)) \<subseteq> insert p (inode_paths im)"
  by (cases rule: GetInode_cases [where im = im and path = p and info = info])
     (auto simp: inode_paths_def allocate_inode_eq fmran'_alt_def fmlookup_ran_iff split: if_splits)

lemma inode_step_paths: "inode_paths (inode_step iop im) \<subseteq> inode_paths im \<union> set_option (inode_op_path iop)"
proof (cases iop)
  case (OpGetInode p info)
  then show ?thesis using GetInode_paths [of p info im] by simp
qed (auto simp: inode_paths_def GetCached_def GetDirCache_def Cache_def CacheDir_def InvalidateDir_def InvalidateAttr_def
      im_Clear_def lru_Clear_def Let_def fmlookup_ran_iff case_prod_beta
      dest: fsubsetD [OF items_lru_Get] fsubsetD [OF items_lru_Put] fsubsetD [OF items_lru_Delete]
      split: option.splits prod.splits)

lemma lock_step_paths: "lock_paths (lock_step lop lm) \<subseteq> lock_paths lm \<union> set_option (lock_op_path lop)"
  by (cases lop)
     (auto simp: lock_paths_def Setlk_def Setlkw_def unlockPosix_def store_locks_def Flock_def flockUnlock_def
        ReleaseOwner_def release_flocks_def release_posix_def Let_def split: option.splits if_splits)

lemma CloseAll_handle_paths: "handle_paths (fst (ht_CloseAll close order ht b)) \<subseteq> handle_paths ht"
proof (induction order arbitrary: ht b)
  case (Cons fh order)
  show ?case
  proof (cases "fmlookup (handles ht) fh")
    case (Some e)
    have "handle_paths (ht\<lparr>handles := fmdrop fh (handles ht)\<rparr>) \<subseteq> handle_paths ht"
      by (auto simp: handle_paths_def split: if_splits)
    with Some Cons.IH show ?thesis by auto
  qed (use Cons.IH in simp)
qed simp

lemma handle_step_paths:
  "handle_paths (fst (handle_step close hop (ht, b))) \<subseteq>
     handle_paths ht \<union> (case hop of OpAdd f flags p \<Rightarrow> {p} | _ \<Rightarrow> {})"
proof (cases hop)
  case (OpCloseAll order)
  then show ?thesis by (simp add: CloseAll_handle_paths)
qed (auto simp: handle_paths_def ht_Add_def ht_Release_def Let_def case_prod_beta
      split: option.splits if_splits)

definition paths_clean :: "nat \<Rightarrow> nat \<Rightarrow> ('b, 'f) FuseFS \<Rightarrow> bool" where
  "paths_clean D k w \<longleftrightarrow> (\<forall>p \<in> paths_of w. clean_abs p) \<and> dir_bound D (absFS w)"

interpretation clean: world_invariant "paths_clean D" clean_abs D
proof (unfold_locales, goal_cases)
  case (6 k w iop)
  then show ?case using inode_step_paths [of iop "inodeManager w"]
    by (cases "inode_op_path iop") (auto simp: paths_clean_def paths_of_def)
next
  case (7 k w hop close b)
  then show ?case using handle_step_paths [of close hop "handleTracker w" b]
    by (cases hop) (auto simp: paths_clean_def paths_of_def)
next
  case (8 k w lop)
  then show ?case using lock_step_paths [of lop "lockManager w"]
    by (cases "lock_op_path lop") (auto simp: paths_clean_def paths_of_def)
qed (auto simp: paths_clean_def paths_of_def clean_abs_Join)

section \<open>Counting\<close>

lemma stats_frame:
  "stats (snd (call m w)) = stats w" "stats (snd (on_inodes g w)) = stats w"
  "stats (snd (read_cached p w)) = stats w" "stats (snd (read_dircache p w)) = stats w"
  "stats (write_cached p ptr w) = stats w" "stats (write_dircache p es w) = stats w"
  "stats (invalidate_dir p w) = stats w" "stats (fillAttr out info ino w) = stats w"
  "stats (set_attr out a w) = stats w" "stats (SetAttrTimeout out t w) = stats w" "stats (SetEntryTimeout out t w) = stats w"
  by (simp_all add: world_eqs world_defs fillAttr_def Let_def)

lemma stats_new_entry: "stats (snd (new_entry p mode info out w)) = stats w"
  by (simp add: new_entry_def Let_def case_prod_beta stats_frame)

lemma stats_setattr:
  "stats (snd (setattr_size f sain w)) = stats w" "stats (snd (setattr_mode n sain w)) = stats w"
  "stats (setattr_mtime n sain w) = stats w" "stats (snd (seek_start ff off w)) = stats w"
  by (simp_all add: setattr_size_def setattr_mode_def setattr_mtime_def seek_start_def stats_frame
      split: option.split fileHandle.split)

lemma stats_readdir_loop: "stats (snd (readdir_loop d infos es w)) = stats w"
  by (induction infos arbitrary: es w) (simp_all add: Let_def case_prod_beta stats_frame)

lemmas stats_simps = stats_frame stats_new_entry stats_setattr stats_readdir_loop

text \<open>\<open>counted k e i j\<close>: so many operations, errors, bytes read and bytes written were counted.\<close>

definition counted :: "uint64 \<Rightarrow> uint64 \<Rightarrow> uint64 \<Rightarrow> uint64 \<Rightarrow> ('b, 'f) FuseFS \<Rightarrow> ('b, 'f) FuseFS \<Rightarrow> bool" where
  "counted k e i j w w' \<longleftrightarrow> operations (stats w') = operations (stats w) + k \<and> errors (stats w') = errors (stats w) + e \<and>
     bytesRead (stats w') = bytesRead (stats w) + i \<and> bytesWritten (stats w') = bytesWritten (stats w) + j"

definition counted1 :: "('b, 'f) FuseFS \<Rightarrow> ('b, 'f) FuseFS \<Rightarrow> bool" where
  "counted1 w w' \<longleftrightarrow> (\<exists>e \<in> {0, 1}. counted 1 e 0 0 w w')"

lemma counted_node:
  "counted1 w (snd (Lookup n name out w))"
  "counted1 w (snd (Getattr n out w))"
  "counted1 w (snd (fuse_Open n flags w))"
  "counted1 w (snd (fuse_Readdir n w))"
  "counted1 w (snd (Create n name flags mode out w))"
  "counted1 w (snd (fuse_Mkdir n name mode out w))"
  "counted1 w (snd (Unlink n name w))"
  "counted1 w (snd (Rmdir n name w))"
  "counted1 w (snd (fuse_Rename n name np newName w))"
  "counted1 w (snd (Fsync n f w))"
  "counted1 w (snd (fuse_Symlink n target name out w))"
  "counted1 w (snd (fuse_Link n tn name out w))"
  "counted1 w (snd (fuse_Readlink n w))"
  by (simp_all add: counted1_def counted_def node_handlers Let_def case_prod_beta stats_simps
      split: sum.split option.split fileHandle.split)

lemma counted_info:
  "counted1 w (snd (Access n caller m w))"
  "counted1 w (snd (Getxattr n attr dest w))"
  "counted1 w (snd (Setxattr n attr data xflags w))"
  "counted1 w (snd (Listxattr n dest w))"
  "counted1 w (snd (Removexattr n attr w))"
  "counted1 w (snd (Statfs n sout w))"
  by (simp_all add: counted1_def counted_def info_handlers Let_def case_prod_beta stats_simps split: sum.split option.split)

lemma counted_Read:
  "\<exists>e \<in> {0, 1}. counted 1 e (case fst (fuse_Read fh len off w) of Inl _ \<Rightarrow> 0 | Inr d \<Rightarrow> of_nat (length d)) 0 w
     (snd (fuse_Read fh len off w))"
  by (simp add: counted_def fuse_Read_def Let_def case_prod_beta stats_simps split: option.split)

lemma counted_Write:
  "\<exists>e \<in> {0, 1}. \<exists>j. counted 1 e 0 j w (snd (fuse_Write fh data off w)) \<and>
     (case fst (fuse_Write fh data off w) of Inl _ \<Rightarrow> j = 0
      | Inr k \<Rightarrow> k = ucast j \<and> (\<exists>f b. j = fst (fst (f_Write (absFS w) f data b))))"
  by (auto simp: counted_def fuse_Write_def Let_def case_prod_beta stats_simps call_eq seek_start_def split: option.split)

lemma counted_file:
  "counted1 w (snd (fuse_Flush fh w))"
  "counted1 w (snd (fuse_Allocate fh uoff sz mode w))"
  "counted1 w (snd (fuse_Release fh w))"
  "counted1 w (snd (fuse_Getlk fh owner lk w))"
  "counted1 w (snd (fuse_Setlk fh owner lk w))"
  "counted1 w (snd (fuse_Setlkw fh owner lk w))"
  "counted1 w (snd (fuse_Flock fh owner lflags w))"
  by (simp_all add: counted1_def counted_def file_handlers Let_def case_prod_beta stats_simps split: sum.split option.split)

lemma counted_Setattr: "\<exists>k \<in> {1, 2}. \<exists>e \<in> {0, 1}. counted k e 0 0 w (snd (Setattr n f sain out w))"
proof -
  have two: "\<exists>e \<in> {0, 1}. counted 2 e 0 0 w (snd (Getattr n out (setattr_mtime n sain v)))"
    if "stats v = stats_recordOperation (stats w)" for v
    using counted_node(2) [of "setattr_mtime n sain v" n out] that by (auto simp: counted1_def counted_def stats_simps)
  show ?thesis
    using two [of "snd (setattr_mode n sain (snd (setattr_size f sain (recordOperation w))))"]
    by (auto simp: counted_def Setattr_def Let_def case_prod_beta stats_simps split: option.splits)
qed

text \<open>The bytes an answered request moved.\<close>

fun bytes_in :: "request \<Rightarrow> response \<Rightarrow> uint64" where
  "bytes_in (ReqRead fh len off) (RData d) = of_nat (length d)"
| "bytes_in _ _ = 0"

fun bytes_out :: "request \<Rightarrow> response \<Rightarrow> uint64" where
  "bytes_out (ReqWrite fh data off) (RCount k) = ucast k"
| "bytes_out _ _ = 0"

lemma serve_counted:
  "\<exists>k e j. counted k e (bytes_in r (fst (serve r w))) j w (snd (serve r w)) \<and> (e = 0 \<or> e = 1) \<and>
     (k = 1 \<or> (k = 2 \<and> (\<exists>n f sain out. r = ReqSetattr n f sain out))) \<and>
     (case r of ReqWrite fh data off \<Rightarrow> bytes_out r (fst (serve r w)) = ucast (ucast j :: uint32) \<and>
        (j = 0 \<or> (\<exists>f b. j = fst (fst (f_Write (absFS w) f data b)))) | _ \<Rightarrow> j = 0)"
proof -
  have one: "\<exists>e. counted 1 e 0 0 w w' \<and> (e = 0 \<or> e = 1)" if "counted1 w w'" for w'
    using that by (auto simp: counted1_def)
  show ?thesis
  proof (cases r)
    case (ReqSetattr n f sain out)
    with counted_Setattr [of w n f sain out] show ?thesis by auto
  next
    case (ReqRead fh len off)
    with counted_Read [of fh len off w] show ?thesis by (auto split: sum.splits)
  next
    case (ReqWrite fh data off)
    obtain e j where "e = 0 \<or> e = 1" "counted 1 e 0 j w (snd (fuse_Write fh data off w))"
        "case fst (fuse_Write fh data off w) of Inl _ \<Rightarrow> j = 0
         | Inr k \<Rightarrow> k = ucast j \<and> (\<exists>f b. j = fst (fst (f_Write (absFS w) f data b)))"
      using counted_Write [of w fh data off] by auto
    with ReqWrite show ?thesis
      by (intro exI [of _ 1] exI [of _ e] exI [of _ j]) (auto split: sum.splits)
  next
    case (ReqListxattr n dest)
    with one [OF counted_info(4) [of w n dest]] show ?thesis by (auto simp: case_prod_beta split: option.split)
  qed (simp_all add: one counted_node counted_info counted_file case_prod_beta split: sum.split)
qed

section \<open>Configuration\<close>

text \<open>What no handler changes.\<close>

definition config :: "('b, 'f) FuseFS \<Rightarrow> ('b, 'f) absFS \<times> MountOptions \<times> bool \<times> bool \<times> (nat \<Rightarrow> int)" where
  "config w = (absFS w, opts w, server w, unmounting w, clock w)"

lemma config_updates [simp]:
  "config (w\<lparr>stats := st\<rparr>) = config w" "config (w\<lparr>backend := b\<rparr>) = config w" "config (w\<lparr>outs := buf\<rparr>) = config w"
  "config (w\<lparr>ticks := t\<rparr>) = config w" "config (w\<lparr>inodeManager := im\<rparr>) = config w"
  "config (w\<lparr>handleTracker := ht\<rparr>) = config w" "config (w\<lparr>lockManager := lm\<rparr>) = config w"
  by (simp_all add: config_def)

lemma config_accesses [simp]:
  "config (recordOperation w) = config w" "config (recordError w) = config w"
  "config (snd (call m w)) = config w" "config (snd (on_inodes g w)) = config w"
  "config (snd (read_cached p w)) = config w" "config (snd (read_dircache p w)) = config w"
  "config (write_cached p ptr w) = config w" "config (write_dircache p es w) = config w"
  "config (invalidate_dir p w) = config w" "config (fillAttr out info ino w) = config w"
  "config (set_attr out a w) = config w" "config (SetAttrTimeout out tm w) = config w" "config (SetEntryTimeout out tm w) = config w"
  by (simp_all add: world_eqs world_defs fillAttr_def Let_def)

lemma config_blocks [simp]:
  "config (snd (new_entry p mode info out w)) = config w" "config (snd (setattr_size f sain w)) = config w"
  "config (snd (setattr_mode n sain w)) = config w" "config (setattr_mtime n sain w) = config w"
  "config (snd (seek_start ff off w)) = config w"
  by (simp_all add: new_entry_def setattr_size_def setattr_mode_def setattr_mtime_def seek_start_def Let_def case_prod_beta
      split: option.split fileHandle.split)

lemma config_readdir_loop [simp]: "config (snd (readdir_loop d infos es w)) = config w"
  by (induction infos arbitrary: es w) (simp_all add: Let_def case_prod_beta)

lemma config_Getattr [simp]: "config (snd (Getattr n out w)) = config w"
  by (simp add: Getattr_def Let_def case_prod_beta split: option.split sum.split)

lemma config_serve: "config (snd (serve r w)) = config w"
  by (cases r) (simp_all add: handler_defs Let_def case_prod_beta split: option.split sum.split fileHandle.split
      del: stats_fields)

section \<open>Quiescence\<close>

text \<open>After an \<^verbatim>\<open>Unmount\<close> the flag is up and no handle is open.\<close>

definition quiet :: "('b, 'f) FuseFS \<Rightarrow> bool" where
  "quiet w \<longleftrightarrow> unmounting w \<and> handles (handleTracker w) = fmempty"

fun lock_request :: "request \<Rightarrow> bool" where
  "lock_request (ReqGetlk fh owner lk) = True"
| "lock_request (ReqSetlk fh owner lk) = True"
| "lock_request (ReqSetlkw fh owner lk) = True"
| "lock_request (ReqFlock fh owner flags) = True"
| "lock_request _ = False"

lemma serve_quiet:
  assumes "quiet w"
  shows "quiet (snd (serve r w)) \<and> backend (snd (serve r w)) = backend w \<and>
    (lock_request r \<or> errno_of (fst (serve r w)) = Some (if on_handle r = None then ENOTCONN else EBADF))"
proof (cases "on_handle r")
  case None
  with assms serve_unmounting [of w r] show ?thesis by (cases "lock_request r") (auto simp: quiet_def)
next
  case (Some fh)
  with assms show ?thesis
    by (cases r) (auto simp: quiet_def file_handlers ht_Get_def ht_Release_def case_prod_beta Let_def)
qed

lemma CloseAll_empty: "handles ht = fmempty \<Longrightarrow> ht_CloseAll close order ht b = (ht, b)"
  by (induction order) simp_all

lemma Unmount_quiet:
  "quiet w \<Longrightarrow> quiet (fst (snd (Unmount os order w h))) \<and> backend (fst (snd (Unmount os order w h))) = backend w"
  by (simp add: quiet_def Unmount_def Let_def case_prod_beta CloseAll_empty)

lemma step_quiet:
  assumes "session_step os e s s'" and "quiet (fst s)"
  shows "quiet (fst s') \<and> backend (fst s') = backend (fst s)"
  using assms(1)
proof (cases rule: session_step.cases)
  case (serving r N w resp w' h)
  with assms(2) serve_quiet [of w r] show ?thesis by simp
next
  case (shutting order w h err w' h' N)
  with assms(2) Unmount_quiet [of w os order h] show ?thesis by simp
qed

lemma steps_quiet:
  "(\<lambda>s s'. \<exists>e. session_step os e s s')\<^sup>*\<^sup>* s s' \<Longrightarrow> quiet (fst s) \<Longrightarrow>
     quiet (fst s') \<and> backend (fst s') = backend (fst s)"
  by (induction rule: rtranclp_induct) (auto dest: step_quiet)

section \<open>Properties\<close>

lemma session_paths_clean_nodes:
  assumes "session os p fs mo n (w, N, h)" and "dir_bound D fs"
  shows "(\<forall>q \<in> paths_of w. clean_abs q) \<and> (\<forall>m \<in> N. clean_abs (node_path m))"
proof -
  have "paths_of ((newFuseFS p fs mo)\<lparr>server := True\<rparr>) = {}"
    by (simp add: paths_of_def inode_paths_def lock_paths_def handle_paths_def newFuseFS_def NewInodeManager_def
        newLRUCache_def NewHandleTracker_def NewLockManager_def)
  with assms(2) have "paths_clean D k ((newFuseFS p fs mo)\<lparr>server := True\<rparr>)" for k
    by (simp add: paths_clean_def newFuseFS_def)
  from clean.session_inv [OF assms(1), where k = 0, OF this clean_abs_root] show ?thesis
    by (simp add: paths_clean_def)
qed

text \<open>C13: no request leaves the mounted tree. Throughout a session every node go-fuse knows and every
  path in the inode tables, the caches, the handle table and the lock tables is an absolute path
  without empty, "." and ".." components, whatever names the requests and the backend's listings
  contain.\<close>

theorem session_paths_clean:
  assumes "session os p fs mo n (w, N, h)" and "dir_bound D fs"
  shows "(\<forall>q \<in> paths_of w. clean_abs q) \<and> (\<forall>m \<in> N. clean_abs (node_path m))"
  using assms by (rule session_paths_clean_nodes)

lemma session_paths_clean_witness:
  "paths_of (mem_after (ReqLookup root_node ''../../a'' 0)) \<subseteq> {q. clean_abs q}"
  using session_paths_clean [OF mem_session_after mem_dir_bound, of "ReqLookup root_node ''../../a'' 0"] by auto

text \<open>C29: while the file system is unmounting, every request on a node answers ENOTCONN and does nothing
  else but count the operation: the backend, the caches, the numbering, the handles, the locks and
  the reply buffer stay as they are.\<close>

theorem unmounting_refuses:
  assumes "unmounting w" and "on_handle r = None"
  shows "errno_of (fst (serve r w)) = Some ENOTCONN \<and> snd (serve r w) = recordOperation w"
  using assms by (rule serve_unmounting)

lemma unmounting_refuses_witness:
  "errno_of (fst (serve (ReqUnlink root_node ''a'') (mem_world\<lparr>unmounting := True\<rparr>))) = Some ENOTCONN"
  using unmounting_refuses [of "mem_world\<lparr>unmounting := True\<rparr>" "ReqUnlink root_node ''a''"] by simp

text \<open>C5: \<^verbatim>\<open>Unmount\<close> is final. Once it has run, whatever requests follow, in whatever order, and however often
  \<^verbatim>\<open>Unmount\<close> is called again, the backend is never touched again, no file is open, and every request
  but a lock request is refused: with ENOTCONN on a node, with EBADF on a file handle.\<close>

theorem unmount_quiesces:
  assumes "Unmount os order w h = (err, w1, h1)" and "fset (fmdom (handles (handleTracker w))) \<subseteq> set order"
    and "(\<lambda>s s'. \<exists>e. session_step os e s s')\<^sup>*\<^sup>* (w1, N, h1) (w2, M, h2)"
  shows "backend w2 = backend w1 \<and> ht_Count (handleTracker w2) = 0 \<and>
    (lock_request r \<or> errno_of (fst (serve r w2)) = Some (if on_handle r = None then ENOTCONN else EBADF))"
proof -
  have "quiet w1"
    using CloseAll_empties [OF assms(2), of "f_Close (absFS w)" "backend w"] assms(1)
    by (auto simp: quiet_def Unmount_def Let_def case_prod_beta split: if_splits)
  with steps_quiet [OF assms(3)] have q: "quiet w2" and b: "backend w2 = backend w1" by simp_all
  from serve_quiet [OF q, of r] b q show ?thesis by (simp add: quiet_def ht_Count_def)
qed

lemma unmount_quiesces_witness:
  "errno_of (fst (serve (ReqRead \<lparr>fh_node = root_node, fh_handle = 1\<rparr> 10 0)
     (fst (snd (Unmount easy_host [] mem_world ()))))) = Some EBADF"
proof -
  obtain err w1 h1 where u: "Unmount easy_host [] mem_world () = (err, w1, h1)" by (metis prod_cases3)
  have "fset (fmdom (handles (handleTracker mem_world))) \<subseteq> set []"
    by (simp add: mem_world_def newFuseFS_def NewHandleTracker_def)
  from unmount_quiesces [OF u this rtranclp.rtrancl_refl, of "ReqRead \<lparr>fh_node = root_node, fh_handle = 1\<rparr> 10 0"] u
  show ?thesis by simp
qed

end
