(* ===== verification/Node_Props.thy ===== *)
theory Node_Props
  imports Session_Safety
begin

text \<open>
  Properties of the node handlers inside a session: what listings, attributes and new files look
  like to the next request.
\<close>

section \<open>The caches inside a session\<close>

definition caches_ok :: "('b, 'f) absFS \<Rightarrow> nat \<Rightarrow> nat \<Rightarrow> ('b, 'f) FuseFS \<Rightarrow> bool" where
  "caches_ok fs D k w \<longleftrightarrow> lru_inv (attrCache (inodeManager w)) \<and> lru_inv (dirCache (inodeManager w)) \<and>
     absFS w = fs \<and> dir_bound D fs"

interpretation caches: world_invariant "caches_ok fs D" "\<lambda>_. True" D
proof (unfold_locales, goal_cases)
  case (6 k w iop)
  then show ?case using caches_step [of "inodeManager w" iop] by (simp add: caches_ok_def)
qed (auto simp: caches_ok_def)

lemma session_caches:
  assumes "session os p fs mo n (w, N, h)" and "dir_bound D fs"
  shows "lru_inv (attrCache (inodeManager w)) \<and> lru_inv (dirCache (inodeManager w)) \<and> absFS w = fs"
proof -
  have "caches_ok fs D k ((newFuseFS p fs mo)\<lparr>server := True\<rparr>)" for k
    using assms(2) by (simp add: caches_ok_def newFuseFS_def NewInodeManager_def lru_inv_new)
  from caches.session_inv [OF assms(1) this] show ?thesis by (simp add: caches_ok_def)
qed

lemma session_im_inv:
  assumes "session os p fs mo n (w, N, h)" and "dir_bound D fs" and "n * (D + 3) + k \<le> inode_limit"
  shows "\<exists>m. im_inv m (inodeManager w) \<and> m + k \<le> inode_limit"
proof -
  have "managers_reached D mo k w"
    using managers.session_inv [OF assms(1), where k = k] managers_start [OF _ assms(2), of "n * (D + 3) + k" mo p] assms(3)
    by simp
  then obtain iops where "inodeManager w =
      inode_run (MaxCachedInodes mo) (MaxCachedDirs mo) (AttrCacheTTL mo) (DirCacheTTL mo) iops" "length iops + k \<le> inode_limit"
    by (auto simp: managers_reached_def)
  with inode_run_inv [of iops] show ?thesis by (intro exI [of _ "length iops"]) simp
qed

lemma GetCached_fst: "fst (GetCached now p im) = (case fst (lru_Get now p (attrCache im)) of None \<Rightarrow> None | Some c \<Rightarrow> ca_attr c)"
  by (simp add: GetCached_def split: prod.split option.split)

lemma GetDirCache_fst: "fst (GetDirCache now p im) = (case fst (lru_Get now p (dirCache im)) of None \<Rightarrow> None | Some c \<Rightarrow> dc_entries c)"
  by (simp add: GetDirCache_def split: prod.split option.split)

section \<open>Listings and numbers\<close>

lemma readdir_loop_eq:
  "inodeManager (snd (readdir_loop dir infos es w)) =
     fold inode_step (map (\<lambda>i. OpGetInode (path_Join dir (fi_Name i)) i) infos) (inodeManager w)"
  by (induction infos arbitrary: es w) (simp_all add: Let_def case_prod_beta on_inodes_eq)

lemma readdir_loop_entries:
  assumes "im_inv m (inodeManager w)" and "m + length infos \<le> inode_limit"
    and "distinct (map (\<lambda>i. path_Join dir (fi_Name i)) infos)"
  shows "\<exists>new. fst (readdir_loop dir infos es w) = es @ new \<and>
    list_all2 (\<lambda>info e. de_Name e = fi_Name info \<and> de_Mode e = (if fi_IsDir info then S_IFDIR else S_IFREG) \<and>
      numbered (path_Join dir (fi_Name info)) info (de_Ino e) (inodeManager (snd (readdir_loop dir infos es w)))) infos new"
  using assms
proof (induction infos arbitrary: m es w)
  case Nil
  then show ?case by simp
next
  case (Cons info infos)
  let ?p = "path_Join dir (fi_Name info)"
  let ?v = "snd (on_inodes (GetInode ?p info) w)"
  let ?ino = "fst (on_inodes (GetInode ?p info) w)"
  let ?e = "\<lparr>de_Name = fi_Name info, de_Ino = ?ino, de_Mode = (if fi_IsDir info then S_IFDIR else S_IFREG)\<rparr>"
  have im: "im_inv (Suc m) (inodeManager ?v)"
    using im_inv_step [OF Cons.prems(1), of "OpGetInode ?p info"] Cons.prems(2) by (simp add: on_inodes_eq)
  from Cons.IH [OF this, of "es @ [?e]"] Cons.prems obtain new where
    new: "fst (readdir_loop dir infos (es @ [?e]) ?v) = (es @ [?e]) @ new"
      "list_all2 (\<lambda>info e. de_Name e = fi_Name info \<and> de_Mode e = (if fi_IsDir info then S_IFDIR else S_IFREG) \<and>
        numbered (path_Join dir (fi_Name info)) info (de_Ino e) (inodeManager (snd (readdir_loop dir infos (es @ [?e]) ?v)))) infos new"
    by auto
  have others: "\<forall>op \<in> set (map (\<lambda>i. OpGetInode (path_Join dir (fi_Name i)) i) infos). keeps_path ?p info op"
  proof clarsimp
    fix i assume i: "i \<in> set infos"
    with Cons.prems(3) have "path_Join dir (fi_Name i) \<noteq> ?p" by (metis (no_types, lifting) distinct.simps(2) image_eqI list.set_map list.simps(9))
    then show "keeps_path ?p info (OpGetInode (path_Join dir (fi_Name i)) i)" by (simp add: keeps_path_def)
  qed
  have "numbered ?p info ?ino (inodeManager ?v)" by (simp add: on_inodes_eq GetInode_numbered)
  then have "numbered ?p info ?ino (inodeManager (snd (readdir_loop dir infos (es @ [?e]) ?v)))"
    unfolding readdir_loop_eq using im Cons.prems others by (intro numbered_fold [of "Suc m"]) simp_all
  with new show ?case by (intro exI [of _ "?e # new"]) (simp add: Let_def case_prod_beta)
qed

text \<open>Distinct paths have distinct numbers.\<close>

lemma numbered_distinct:
  assumes inv: "maps_inv im"
    and all: "list_all2 (\<lambda>info e. numbered (path_Join dir (fi_Name info)) info (de_Ino e) im) infos es"
    and "distinct (map (\<lambda>i. path_Join dir (fi_Name i)) infos)"
  shows "distinct (map de_Ino es)"
  using all assms(3)
proof (induction infos es rule: list_all2_induct)
  case (Cons info infos e es)
  let ?p = "\<lambda>i. path_Join dir (fi_Name i)"
  have "de_Ino e' \<noteq> de_Ino e" if "e' \<in> set es" for e'
  proof
    assume same: "de_Ino e' = de_Ino e"
    from that obtain j where j: "j < length es" "e' = es ! j" by (auto simp: in_set_conv_nth)
    with Cons.hyps(2) have "numbered (?p (infos ! j)) (infos ! j) (de_Ino e') im" "infos ! j \<in> set infos"
      by (auto dest: list_all2_nthD2 list_all2_lengthD)
    with Cons.hyps(1) same maps_invD(1) [OF inv] have "?p (infos ! j) = ?p info" "infos ! j \<in> set infos"
      by (simp_all add: numbered_def)
    with Cons.prems show False by (metis (no_types, lifting) distinct.simps(2) image_eqI list.set_map list.simps(9))
  qed
  then have "de_Ino e \<notin> de_Ino ` set es" by (metis image_iff)
  with Cons show ?case by simp
qed simp

section \<open>Listing and looking up\<close>

lemma readdir_loop_frame:
  "\<exists>im. snd (readdir_loop dir infos es w) = w\<lparr>inodeManager := im\<rparr>"
proof (induction infos arbitrary: es w)
  case Nil
  then show ?case by (intro exI [of _ "inodeManager w"]) simp
next
  case (Cons info infos)
  from Cons.IH [of _ "snd (on_inodes (GetInode (path_Join dir (fi_Name info)) info) w)"] show ?case
    by (auto simp: Let_def case_prod_beta on_inodes_eq)
qed

lemma Readdir_miss:
  fixes w :: "('b, 'f) FuseFS"
  assumes "\<not> unmounting w" and "fst (read_dircache (node_path d) w) = None"
    and "fst (fs_Open (absFS w) (node_path d) (backend w)) = Inr f"
    and "fst (f_Readdir (absFS w) f (snd (fs_Open (absFS w) (node_path d) (backend w)))) = Inr infos"
  shows "\<exists>v :: ('b, 'f) FuseFS. inodeManager v = snd (GetDirCache (clock w (ticks w)) (node_path d) (inodeManager w)) \<and>
    fst (fuse_Readdir d w) = Inr (fst (readdir_loop (node_path d) infos [] v)) \<and>
    numbering (inodeManager (snd (fuse_Readdir d w))) = numbering (inodeManager (snd (readdir_loop (node_path d) infos [] v))) \<and>
    unmounting (snd (fuse_Readdir d w)) = unmounting w"
proof -
  let ?o = "fs_Open (absFS w) (node_path d) (backend w)"
  let ?v = "(recordOperation w)\<lparr>inodeManager := snd (GetDirCache (clock w (ticks w)) (node_path d) (inodeManager w)),
    ticks := ticks w + 1, backend := snd (f_Readdir (absFS w) f (snd ?o))\<rparr>"
  obtain im where "snd (readdir_loop (node_path d) infos [] ?v) = ?v\<lparr>inodeManager := im\<rparr>"
    using readdir_loop_frame by blast
  with assms show ?thesis
    by (intro exI [of _ ?v]) (simp add: fuse_Readdir_def checkUnmounting_def Let_def case_prod_beta world_eqs convertDirEntries_def)
qed

lemma Lookup_numbered:
  assumes "\<not> unmounting w" and "fst (fs_Stat (absFS w) (path_Join (node_path d) name) (backend w)) = Inr info"
    and "numbered (path_Join (node_path d) name) info ino (inodeManager w)"
  shows "fst (Lookup d name out w) = Inr \<lparr>ci_node = \<lparr>node_path = path_Join (node_path d) name\<rparr>,
    ci_Mode = (if fi_IsDir info then S_IFDIR else S_IFREG), ci_Ino = ino\<rparr>"
  using assms numbered_GetInode_same [OF assms(3) refl refl]
  by (simp add: Lookup_def checkUnmounting_def Let_def case_prod_beta world_eqs new_entry_def)

text \<open>C14: a listing agrees with lookups. In any session, when \<^verbatim>\<open>Readdir\<close> misses its cache and the backend lists
  a directory with distinct ordinary names, the answer has one entry per listed file with its name
  and file type, the inode numbers of the entries are pairwise different, and looking up any of the
  names right after, with the backend still reporting the same, answers the entry's number and
  type.\<close>

theorem Readdir_agrees_with_Lookup:
  fixes w :: "('b, 'f) FuseFS"
  assumes "session os p fs mo n (w, N, h)" and "dir_bound D fs" and "n * (D + 3) + (D + 2) \<le> inode_limit"
    and "d \<in> N" and "\<not> unmounting w" and "fst (read_dircache (node_path d) w) = None"
    and "fst (fs_Open (absFS w) (node_path d) (backend w)) = Inr f"
    and "fst (f_Readdir (absFS w) f (snd (fs_Open (absFS w) (node_path d) (backend w)))) = Inr infos"
    and "distinct (map fi_Name infos)" and "list_all (plain_name \<circ> fi_Name) infos"
  shows "\<exists>es. fst (fuse_Readdir d w) = Inr es \<and> distinct (map de_Ino es) \<and>
    list_all2 (\<lambda>info e. de_Name e = fi_Name info \<and> de_Mode e = (if fi_IsDir info then S_IFDIR else S_IFREG) \<and>
      (let v = snd (fuse_Readdir d w); path = path_Join (node_path d) (fi_Name info) in
       fst (fs_Stat (absFS v) path (backend v)) = Inr info \<longrightarrow>
         fst (Lookup d (fi_Name info) out v) =
           Inr \<lparr>ci_node = \<lparr>node_path = path\<rparr>, ci_Mode = de_Mode e, ci_Ino = de_Ino e\<rparr>)) infos es"
proof -
  let ?dir = "node_path d" and ?w' = "snd (fuse_Readdir d w)"
  obtain m where im: "im_inv m (inodeManager w)" and room: "m + (D + 2) \<le> inode_limit"
    using session_im_inv [OF assms(1-3)] by blast
  obtain v :: "('b, 'f) FuseFS" where v: "inodeManager v = inode_step (OpGetDirCache (clock w (ticks w)) ?dir) (inodeManager w)"
      "fst (fuse_Readdir d w) = Inr (fst (readdir_loop ?dir infos [] v))"
      "numbering (inodeManager ?w') = numbering (inodeManager (snd (readdir_loop ?dir infos [] v)))"
      "unmounting ?w' = unmounting w"
    using Readdir_miss [OF assms(5-8)] unfolding inode_step.simps by blast
  have "absFS w = fs" using session_caches [OF assms(1,2)] by blast
  with assms(2,8) have len: "length infos \<le> D" by (auto simp: dir_bound_def)
  have imv: "im_inv (Suc m) (inodeManager v)" unfolding v(1) using im room by (intro im_inv_step) simp_all
  have "clean_abs ?dir" using session_paths_clean_nodes [OF assms(1,2)] assms(4) by blast
  then have inj: "inj_on (path_Join ?dir) (fi_Name ` set infos)"
    using assms(10) Join_inj by (fastforce simp: inj_on_def list_all_iff)
  then have dist: "distinct (map (\<lambda>i. path_Join ?dir (fi_Name i)) infos)"
    using distinct_map [of "path_Join ?dir" "map fi_Name infos"] assms(9) by (simp add: o_def)
  obtain es where es: "fst (readdir_loop ?dir infos [] v) = es"
      "list_all2 (\<lambda>info e. de_Name e = fi_Name info \<and> de_Mode e = (if fi_IsDir info then S_IFDIR else S_IFREG) \<and>
        numbered (path_Join ?dir (fi_Name info)) info (de_Ino e) (inodeManager (snd (readdir_loop ?dir infos [] v)))) infos es"
    using readdir_loop_entries [OF imv _ dist, of "[]"] len room by auto
  note numb = numbered_numbering [OF v(3) [symmetric]]
  have all: "list_all2 (\<lambda>info e. numbered (path_Join ?dir (fi_Name info)) info (de_Ino e) (inodeManager ?w')) infos es"
    by (rule list_all2_mono [OF es(2)]) (simp add: numb)
  have "maps_inv (inodeManager (snd (readdir_loop ?dir infos [] v)))"
    using inodes.inv_fold [OF imv, of "map (\<lambda>i. OpGetInode (path_Join ?dir (fi_Name i)) i) infos"] len room
    by (simp add: readdir_loop_eq im_inv_def)
  then have "maps_inv (inodeManager ?w')" using maps_inv_numbering [OF v(3)] by simp
  from numbered_distinct [OF this all dist] have "distinct (map de_Ino es)" .
  moreover have "list_all2 (\<lambda>info e. de_Name e = fi_Name info \<and> de_Mode e = (if fi_IsDir info then S_IFDIR else S_IFREG) \<and>
      (let v = ?w'; path = path_Join ?dir (fi_Name info) in
       fst (fs_Stat (absFS v) path (backend v)) = Inr info \<longrightarrow>
         fst (Lookup d (fi_Name info) out v) = Inr \<lparr>ci_node = \<lparr>node_path = path\<rparr>, ci_Mode = de_Mode e, ci_Ino = de_Ino e\<rparr>)) infos es"
    by (rule list_all2_mono [OF es(2)]) (use v(4) assms(5) in \<open>auto simp: Let_def Lookup_numbered numb\<close>)
  ultimately show ?thesis using v(2) es(1) by blast
qed

lemma Readdir_agrees_with_Lookup_witness:
  "\<exists>es. fst (fuse_Readdir root_node mem_world) = Inr es \<and> distinct (map de_Ino es)"
  using Readdir_agrees_with_Lookup [OF mem_session mem_dir_bound, of root_node "''/''" "[mem_info ''a'' [1, 2, 3]]"]
  by (auto simp: inode_limit_def mem_world_def newFuseFS_def mem_process_def mem_fs_def read_dircache_eq GetDirCache_fst
      NewInodeManager_def newLRUCache_def lru_Get_def root_node_def mem_info_def plain_name_def)

section \<open>Cached listings\<close>

lemma dirCache_frame:
  "dirCache (inodeManager (snd (new_entry p mode info out w))) = dirCache (inodeManager w)"
  "inodeManager (recordError w) = inodeManager w" "inodeManager (snd (call m w)) = inodeManager w"
  "dirCache (inodeManager (invalidate_dir p w)) = lru_Delete p (dirCache (inodeManager w))"
  by (simp_all add: new_entry_def Let_def case_prod_beta world_eqs world_defs fillAttr_def InvalidateDir_def)

lemma absFS_frame: "absFS (invalidate_dir p w) = absFS w" "backend (invalidate_dir p w) = backend w"
  by (simp_all add: invalidate_dir_def)

text \<open>The directories whose contents the backend changes on a request: those of a name it creates,
  removes or renames, once the backend's call succeeds.\<close>

fun changed_dirs :: "request \<Rightarrow> ('b, 'f) FuseFS \<Rightarrow> string list" where
  "changed_dirs (ReqCreate n name flags mode out) w =
     (if isl (fst (fs_OpenFile (absFS w) (path_Join (node_path n) name) (mapOpenFlags flags OR O_CREAT) mode (backend w)))
      then [] else [node_path n])"
| "changed_dirs (ReqMkdir n name mode out) w =
     (if fst (fs_Mkdir (absFS w) (path_Join (node_path n) name) mode (backend w)) = None then [node_path n] else [])"
| "changed_dirs (ReqUnlink n name) w =
     (if fst (fs_Remove (absFS w) (path_Join (node_path n) name) (backend w)) = None then [node_path n] else [])"
| "changed_dirs (ReqRmdir n name) w =
     (if fst (fs_Remove (absFS w) (path_Join (node_path n) name) (backend w)) = None then [node_path n] else [])"
| "changed_dirs (ReqRename n name (Some m) newName) w =
     (if fst (fs_Rename (absFS w) (path_Join (node_path n) name) (path_Join (node_path m) newName) (backend w)) = None
      then [node_path n, node_path m] else [])"
| "changed_dirs (ReqSymlink n target name out) w = (case fs_Symlink (absFS w) of
     None \<Rightarrow> []
   | Some symlink \<Rightarrow> if fst (symlink target (path_Join (node_path n) name) (backend w)) = None then [node_path n] else [])"
| "changed_dirs (ReqLink n (Some m) name out) w = (case fs_Link (absFS w) of
     None \<Rightarrow> []
   | Some link \<Rightarrow> if fst (link (node_path m) (path_Join (node_path n) name) (backend w)) = None then [node_path n] else [])"
| "changed_dirs _ _ = []"

lemma changed_dirs_dropped:
  assumes inv: "lru_inv (dirCache (inodeManager w))" and up: "\<not> unmounting w" and p: "p \<in> set (changed_dirs r w)"
  shows "fst (GetDirCache t p (inodeManager (snd (serve r w)))) = None"
  using p
  by (cases "(r, w)" rule: changed_dirs.cases)
     (auto simp: handler_defs checkUnmounting_def up Let_def case_prod_beta call_eq dirCache_frame absFS_frame inv
       GetDirCache_fst lru.get_result lru.inv_delete lru.delete_entries split: sum.splits option.splits if_splits)

text \<open>C15: a listing cached before a change is never served after it. Once the backend has created, removed
  or renamed a name for a request, the next look into the directory cache for the directories
  involved, at whatever time, finds nothing, also when the request itself goes on to fail.\<close>

theorem dir_cache_coherent:
  assumes "session os p fs mo n (w, N, h)" and "dir_bound D fs" and "\<not> unmounting w"
    and "d \<in> set (changed_dirs r w)"
  shows "fst (GetDirCache t d (inodeManager (snd (serve r w)))) = None"
  using changed_dirs_dropped [OF _ assms(3,4)] session_caches [OF assms(1,2)] by blast

lemma dir_cache_coherent_witness:
  "fst (GetDirCache 0 ''/'' (inodeManager (mem_after (ReqUnlink root_node ''a'')))) = None"
  using dir_cache_coherent [OF mem_session mem_dir_bound, of "''/''" "ReqUnlink root_node ''a''" 0]
  by (simp add: mem_after_def) (simp add: mem_world_def newFuseFS_def mem_fs_def root_node_def)

section \<open>Stale answers\<close>

lemma setattr_frame:
  "inodeManager (snd (setattr_size f sain w)) = inodeManager w" "ticks (snd (setattr_size f sain w)) = ticks w"
  "clock (snd (setattr_size f sain w)) = clock w" "outs (snd (setattr_size f sain w)) = outs w"
  "unmounting (snd (setattr_size f sain w)) = unmounting w" "opts (snd (setattr_size f sain w)) = opts w"
  "inodeManager (snd (setattr_mode n sain w)) = inodeManager w" "ticks (snd (setattr_mode n sain w)) = ticks w"
  "clock (snd (setattr_mode n sain w)) = clock w" "outs (snd (setattr_mode n sain w)) = outs w"
  "unmounting (snd (setattr_mode n sain w)) = unmounting w" "opts (snd (setattr_mode n sain w)) = opts w"
  "inodeManager (setattr_mtime n sain w) = inodeManager w" "ticks (setattr_mtime n sain w) = ticks w"
  "clock (setattr_mtime n sain w) = clock w" "outs (setattr_mtime n sain w) = outs w"
  "unmounting (setattr_mtime n sain w) = unmounting w" "opts (setattr_mtime n sain w) = opts w"
  by (simp_all add: setattr_size_def setattr_mode_def setattr_mtime_def call_eq split: option.split fileHandle.split)

lemma Getattr_hit:
  assumes "\<not> unmounting w" and "fst (read_cached (node_path n) w) = Some a"
  shows "fst (Getattr n out w) = OK" and "o_Attr (outs (snd (Getattr n out w)) out) = o_Attr (outs w a)"
    and "o_AttrTimeout (outs (snd (Getattr n out w)) out) = AttrTimeout (opts w)"
    and "backend (snd (Getattr n out w)) = backend w"
  using assms by (simp_all add: Getattr_def checkUnmounting_def Let_def read_cached_eq case_prod_beta
      set_attr_def SetAttrTimeout_def)

text \<open>C24: \<^verbatim>\<open>Setattr\<close> answers attributes from before the change. When the node's attributes are cached, a \<^verbatim>\<open>Setattr\<close>
  whose truncation and chmod succeed changes the backend and answers 0, but its reply is the cached
  attributes: the backend is not asked for the new ones.\<close>

theorem Setattr_returns_stale:
  assumes "\<not> unmounting w" and "fst (read_cached (node_path n) w) = Some a"
    and "setattr_size f sain (recordOperation w) = (None, w1)" and "setattr_mode n sain w1 = (None, w2)"
  shows "fst (Setattr n f sain out w) = OK \<and> o_Attr (outs (snd (Setattr n f sain out w)) out) = o_Attr (outs w a) \<and>
    backend (snd (Setattr n f sain out w)) = backend (setattr_mtime n sain w2)"
proof -
  let ?w = "setattr_mtime n sain w2"
  have frame: "inodeManager ?w = inodeManager w" "ticks ?w = ticks w" "clock ?w = clock w" "outs ?w = outs w"
      "unmounting ?w = unmounting w"
    using setattr_frame(1-5) [of f sain "recordOperation w"] setattr_frame(7-11) [of n sain w1]
    by (simp_all add: assms(3,4) setattr_frame)
  then have "\<not> unmounting ?w" "fst (read_cached (node_path n) ?w) = Some a"
    using assms(1,2) by (simp_all add: read_cached_eq)
  moreover have "Setattr n f sain out w = Getattr n out ?w"
    using assms(1,3,4) by (simp add: Setattr_def checkUnmounting_def)
  ultimately show ?thesis using frame(4) by (simp add: Getattr_hit)
qed

lemma GetCached_put:
  assumes "lru_inv (attrCache im)"
  shows "fst (GetCached t3 p (Cache t1 t2 p a im)) =
    (if ttl (attrCache im) > 0 \<and> time_Since t3 t2 > ttl (attrCache im) then None else a)"
  by (simp add: GetCached_fst Cache_def Let_def lru.get_after_put [OF assms] spec_expired_def)

text \<open>C23: \<^verbatim>\<open>Getattr\<close> caches a pointer to its reply buffer. Right after a \<^verbatim>\<open>Getattr\<close> that asked the backend, and as
  long as the cached entry has not expired, the next \<^verbatim>\<open>Getattr\<close> of the node does not ask the backend
  and answers whatever that first reply buffer holds by then: the right attributes only if nobody
  has written to the buffer since.\<close>

theorem Getattr_answers_buffer:
  assumes "lru_inv (attrCache (inodeManager w))" and "\<not> unmounting w"
    and "fst (read_cached (node_path n) w) = None" and "fst (fs_Stat (absFS w) (node_path n) (backend w)) = Inr info"
    and "\<not> (ttl (attrCache (inodeManager w)) > 0 \<and>
      time_Since (clock w (ticks w + 3)) (clock w (ticks w + 2)) > ttl (attrCache (inodeManager w)))"
    and "w' = snd (Getattr n out w)" and "reused = w'\<lparr>outs := bufs\<rparr>"
  shows "a_Size (o_Attr (outs w' out)) = fi_Size info \<and> a_Mode (o_Attr (outs w' out)) = fi_Mode info \<and>
    fst (Getattr n out' reused) = OK \<and> o_Attr (outs (snd (Getattr n out' reused)) out') = o_Attr (bufs out) \<and>
    backend (snd (Getattr n out' reused)) = backend w'"
proof -
  let ?im = "snd (GetInode (node_path n) info (snd (GetCached (clock w (ticks w)) (node_path n) (inodeManager w))))"
  have w': "inodeManager w' = Cache (clock w (ticks w + 1)) (clock w (ticks w + 2)) (node_path n) (Some out) ?im"
      "ticks w' = ticks w + 3" "clock w' = clock w" "unmounting w' = unmounting w"
      "a_Size (o_Attr (outs w' out)) = fi_Size info" "a_Mode (o_Attr (outs w' out)) = fi_Mode info"
    using assms(2-4) unfolding assms(6)
    by (simp_all add: Getattr_def checkUnmounting_def Let_def case_prod_beta world_eqs world_defs fillAttr_def)
  have "lru_inv (attrCache ?im)" "ttl (attrCache ?im) = ttl (attrCache (inodeManager w))"
    using lru.inv_get [OF assms(1)] by (simp_all add: caches_of_ops)
  with assms(5) have "fst (read_cached (node_path n) reused) = Some out"
    by (simp add: read_cached_eq assms(7) w' GetCached_put numeral_3_eq_3)
  with Getattr_hit [of reused n out out'] assms(2) w' show ?thesis by (simp add: assms(7))
qed

text \<open>A world whose attribute cache has an entry, and a request that changes the mode.\<close>

definition chmod_world :: "(mem, string) FuseFS" where
  "chmod_world = (mem_after (ReqGetattr \<lparr>node_path = ''/a''\<rparr> 5))\<lparr>absFS := mem_fs\<lparr>fs_Chmod := Some (\<lambda>p mode m. (None, m))\<rparr>\<rparr>"

lemma NewInodeManager_caches:
  "attrCache (NewInodeManager a d at dt) = newLRUCache a at" "dirCache (NewInodeManager a d at dt) = newLRUCache d dt"
  "fst (lru_Get t p (newLRUCache a at)) = None"
  by (simp_all add: NewInodeManager_def lru_Get_def) (simp add: newLRUCache_def)

lemma chmod_world_eqs: "unmounting chmod_world = False" "fst (read_cached ''/a'' chmod_world) = Some 5"
  by (simp_all add: chmod_world_def mem_after_def mem_world_sel mem_fs_sel mem_Stat_def Getattr_def checkUnmounting_def Let_def
      case_prod_beta world_eqs world_defs fillAttr_def GetCached_fst NewInodeManager_caches caches_of_ops Cache_def
      lru.get_after_put lru.inv_get lru_inv_new lru.expired_get spec_expired_def time_Since_def time_Second_def)

lemma Setattr_returns_stale_witness:
  "fst (Setattr \<lparr>node_path = ''/a''\<rparr> NilHandle \<lparr>sa_Size = None, sa_Mode = Some 0x100, sa_MTime = None\<rparr> 6 chmod_world) = OK"
  using Setattr_returns_stale [of chmod_world "\<lparr>node_path = ''/a''\<rparr>" 5 NilHandle
      "\<lparr>sa_Size = None, sa_Mode = Some 0x100, sa_MTime = None\<rparr>" "recordOperation chmod_world" "recordOperation chmod_world" 6]
    chmod_world_eqs
  by (simp add: setattr_size_def setattr_mode_def call_eq) (simp add: chmod_world_def call_eq)

lemma Getattr_answers_buffer_witness:
  "fst (Getattr \<lparr>node_path = ''/a''\<rparr> 6 ((snd (Getattr \<lparr>node_path = ''/a''\<rparr> 5 mem_world))\<lparr>outs := \<lambda>_. zero_out\<rparr>)) = OK"
  using Getattr_answers_buffer [of mem_world "\<lparr>node_path = ''/a''\<rparr>" "mem_info ''a'' [1, 2, 3]"
      "snd (Getattr \<lparr>node_path = ''/a''\<rparr> 5 mem_world)" 5 _ "\<lambda>_. zero_out" 6, OF _ _ _ _ _ refl refl]
  by (simp add: lru_inv_new mem_world_sel mem_fs_sel mem_Stat_def read_cached_eq GetCached_fst NewInodeManager_caches time_Since_def time_Second_def)

lemma lru_entries_after_delete:
  "lru_inv c \<Longrightarrow> k \<noteq> k' \<Longrightarrow> fst (lru_Get now k (lru_Delete k' c)) = fst (lru_Get now k c)"
  by (simp add: lru.get_result lru.inv_delete lru.delete_entries split: option.split)

text \<open>C25: \<^verbatim>\<open>Rename\<close> drops the listings of the two parent directories only. A cached listing of the moved directory
  itself stays under its old path, so until it expires a listing of that path still answers the
  files that have moved away.\<close>

theorem Rename_keeps_moved_listing:
  assumes "lru_inv (dirCache (inodeManager w))" and "\<not> unmounting w"
    and "old = path_Join (node_path n) name" and "old \<noteq> node_path n" and "old \<noteq> node_path m"
    and "fst (fs_Rename (absFS w) old (path_Join (node_path m) newName) (backend w)) = None"
    and "fst (GetDirCache t old (inodeManager w)) = Some es"
    and "w' = snd (fuse_Rename n name (Some m) newName w)" and "clock w' (ticks w') = t"
  shows "fst (fuse_Rename n name (Some m) newName w) = OK \<and> fst (fuse_Readdir \<lparr>node_path = old\<rparr> w') = Inr es"
proof -
  have w': "dirCache (inodeManager w') = lru_Delete (node_path m) (lru_Delete (node_path n) (dirCache (inodeManager w)))"
      "unmounting w' = unmounting w" "fst (fuse_Rename n name (Some m) newName w) = OK"
    using assms(2,6) unfolding assms(3,8)
    by (simp_all add: fuse_Rename_def checkUnmounting_def call_eq invalidate_dir_def InvalidateDir_def)
  have "fst (GetDirCache t old (inodeManager w')) = Some es"
    using assms(1,4,5,7) by (simp add: GetDirCache_fst w'(1) lru_entries_after_delete lru.inv_delete)
  then have "fst (read_dircache old w') = Some es" by (simp add: read_dircache_eq assms(9))
  with w' assms(2) show ?thesis
    by (simp add: fuse_Readdir_def checkUnmounting_def Let_def read_dircache_eq convertDirEntries_def)
qed

definition list_world :: "(mem, string) FuseFS" where
  "list_world = mem_world\<lparr>inodeManager :=
     CacheDir 0 0 ''/d'' (Some [\<lparr>de_Name = ''a'', de_Ino = 2, de_Mode = S_IFREG\<rparr>]) (inodeManager mem_world)\<rparr>"

lemma list_world_eqs:
  "unmounting list_world = False" "absFS list_world = mem_fs" "ticks list_world = 0" "clock list_world = int"
  "fst (GetDirCache 0 ''/d'' (inodeManager list_world)) = Some [\<lparr>de_Name = ''a'', de_Ino = 2, de_Mode = S_IFREG\<rparr>]"
  "lru_inv (dirCache (inodeManager list_world))"
  by (simp_all add: list_world_def mem_world_sel GetDirCache_fst NewInodeManager_caches CacheDir_def
      lru.get_after_put lru.inv_put lru_inv_new spec_expired_def time_Since_def time_Second_def)

lemma Join_d: "path_Join ''/'' ''d'' = ''/d''"
  by (simp add: path_Join_def path_Clean_def)

lemma Rename_keeps_moved_listing_witness:
  "fst (fuse_Readdir \<lparr>node_path = ''/d''\<rparr> (snd (fuse_Rename root_node ''d'' (Some root_node) ''e'' list_world))) =
     Inr [\<lparr>de_Name = ''a'', de_Ino = 2, de_Mode = S_IFREG\<rparr>]"
proof -
  let ?w = "snd (fuse_Rename root_node ''d'' (Some root_node) ''e'' list_world)"
  have "clock ?w (ticks ?w) = 0"
    by (simp add: list_world_eqs fuse_Rename_def checkUnmounting_def call_eq invalidate_dir_def mem_fs_sel)
  with Rename_keeps_moved_listing [of list_world "''/d''" root_node "''d''" root_node "''e''" 0
      "[\<lparr>de_Name = ''a'', de_Ino = 2, de_Mode = S_IFREG\<rparr>]" ?w] list_world_eqs
  show ?thesis by (simp add: root_node_def Join_d mem_fs_sel)
qed

end
