(* ===== verification/Backend_Protocol.thy ===== *)
theory Backend_Protocol
  imports Node_Props
begin

text \<open>
  How the adapter uses the backend. A monitor watches every call the adapter makes: it keeps the
  files that are open, each as often as it was opened, and gives up for good when a path is not of
  the expected kind or when a file is used or closed that is not open. \<open>monitored\<close> puts the monitor
  around any backend. The property of this theory is that the monitor never gives up, and that the
  files it sees open are exactly those of the handle table.
\<close>

section \<open>The monitor\<close>

type_synonym 'f monitor = "'f multiset option"

definition see_path :: "(string \<Rightarrow> bool) \<Rightarrow> string \<Rightarrow> 'f monitor \<Rightarrow> 'f monitor" where
  "see_path ok p s = (if ok p then s else None)"

definition see_use :: "'f \<Rightarrow> 'f monitor \<Rightarrow> 'f monitor" where
  "see_use f s = (case s of None \<Rightarrow> None | Some M \<Rightarrow> if f \<in># M then Some M else None)"

definition see_close :: "'f \<Rightarrow> 'f monitor \<Rightarrow> 'f monitor" where
  "see_close f s = (case s of None \<Rightarrow> None | Some M \<Rightarrow> if f \<in># M then Some (M - {#f#}) else None)"

fun see_open :: "goerr + 'f \<Rightarrow> 'f monitor \<Rightarrow> 'f monitor" where
  "see_open (Inl e) s = s"
| "see_open (Inr f) s = map_option (add_mset f) s"

definition watched :: "('r \<Rightarrow> 'f monitor \<Rightarrow> 'f monitor) \<Rightarrow> ('b \<Rightarrow> 'r \<times> 'b) \<Rightarrow> 'b \<times> 'f monitor \<Rightarrow>
    'r \<times> 'b \<times> 'f monitor" where
  "watched see m s = (case m (fst s) of (r, b) \<Rightarrow> (r, b, see r (snd s)))"

abbreviation on_path :: "(string \<Rightarrow> bool) \<Rightarrow> string \<Rightarrow> ('b \<Rightarrow> 'r \<times> 'b) \<Rightarrow> 'b \<times> 'f monitor \<Rightarrow> 'r \<times> 'b \<times> 'f monitor" where
  "on_path ok p \<equiv> watched (\<lambda>_. see_path ok p)"

abbreviation on_paths :: "(string \<Rightarrow> bool) \<Rightarrow> string \<Rightarrow> string \<Rightarrow> ('b \<Rightarrow> 'r \<times> 'b) \<Rightarrow> 'b \<times> 'f monitor \<Rightarrow>
    'r \<times> 'b \<times> 'f monitor" where
  "on_paths ok p q \<equiv> watched (\<lambda>_ s. see_path ok q (see_path ok p s))"

abbreviation on_open :: "(string \<Rightarrow> bool) \<Rightarrow> string \<Rightarrow> ('b \<Rightarrow> (goerr + 'f) \<times> 'b) \<Rightarrow> 'b \<times> 'f monitor \<Rightarrow>
    (goerr + 'f) \<times> 'b \<times> 'f monitor" where
  "on_open ok p \<equiv> watched (\<lambda>r s. see_open r (see_path ok p s))"

abbreviation on_file :: "'f \<Rightarrow> ('b \<Rightarrow> 'r \<times> 'b) \<Rightarrow> 'b \<times> 'f monitor \<Rightarrow> 'r \<times> 'b \<times> 'f monitor" where
  "on_file f \<equiv> watched (\<lambda>_. see_use f)"

abbreviation on_close :: "'f \<Rightarrow> ('b \<Rightarrow> 'r \<times> 'b) \<Rightarrow> 'b \<times> 'f monitor \<Rightarrow> 'r \<times> 'b \<times> 'f monitor" where
  "on_close f \<equiv> watched (\<lambda>_. see_close f)"

text \<open>The target of a symbolic link is contents, not a path the backend is asked to look at.\<close>

definition monitored :: "(string \<Rightarrow> bool) \<Rightarrow> ('b, 'f) absFS \<Rightarrow> ('b \<times> 'f monitor, 'f) absFS" where
  "monitored ok fs = \<lparr>
     fs_Stat = (\<lambda>p. on_path ok p (fs_Stat fs p)),
     fs_OpenFile = (\<lambda>p flags mode. on_open ok p (fs_OpenFile fs p flags mode)),
     fs_Open = (\<lambda>p. on_open ok p (fs_Open fs p)),
     fs_Mkdir = (\<lambda>p mode. on_path ok p (fs_Mkdir fs p mode)),
     fs_Remove = (\<lambda>p. on_path ok p (fs_Remove fs p)),
     fs_Rename = (\<lambda>p q. on_paths ok p q (fs_Rename fs p q)),
     fs_Chtimes = (\<lambda>p atime mtime. on_path ok p (fs_Chtimes fs p atime mtime)),
     fs_Chmod = map_option (\<lambda>chmod p mode. on_path ok p (chmod p mode)) (fs_Chmod fs),
     fs_Symlink = map_option (\<lambda>symlink target p. on_path ok p (symlink target p)) (fs_Symlink fs),
     fs_Lstat = map_option (\<lambda>lstat p. on_path ok p (lstat p)) (fs_Lstat fs),
     fs_Link = map_option (\<lambda>link p q. on_paths ok p q (link p q)) (fs_Link fs),
     fs_Readlink = map_option (\<lambda>readlink p. on_path ok p (readlink p)) (fs_Readlink fs),
     fs_XAttr = map_option (\<lambda>xa. \<lparr>
       xa_Get = (\<lambda>p attr. on_path ok p (xa_Get xa p attr)),
       xa_Set = (\<lambda>p attr v fl. on_path ok p (xa_Set xa p attr v fl)),
       xa_List = (\<lambda>p. on_path ok p (xa_List xa p)),
       xa_Remove = (\<lambda>p attr. on_path ok p (xa_Remove xa p attr))\<rparr>) (fs_XAttr fs),
     fs_StatFS = map_option (watched (\<lambda>_ s. s)) (fs_StatFS fs),
     f_Seek = (\<lambda>f. map_option (\<lambda>seek off. on_file f (seek off)) (f_Seek fs f)),
     f_Read = (\<lambda>f len. on_file f (f_Read fs f len)),
     f_Write = (\<lambda>f data. on_file f (f_Write fs f data)),
     f_Close = (\<lambda>f. on_close f (f_Close fs f)),
     f_Stat = (\<lambda>f. on_file f (f_Stat fs f)),
     f_Readdir = (\<lambda>f. on_file f (f_Readdir fs f)),
     f_Sync = (\<lambda>f. map_option (on_file f) (f_Sync fs f)),
     f_Truncate = (\<lambda>f. map_option (\<lambda>trunc sz. on_file f (trunc sz)) (f_Truncate fs f)),
     f_Allocate = (\<lambda>f. map_option (\<lambda>alloc off sz. on_file f (alloc off sz)) (f_Allocate fs f))\<rparr>"

lemma watched_fst [simp]: "fst (watched see m s) = fst (m (fst s))"
  by (simp add: watched_def split: prod.split)

lemma dir_bound_monitored: "dir_bound D fs \<Longrightarrow> dir_bound D (monitored ok fs)"
  by (simp add: dir_bound_def monitored_def)

section \<open>What the handlers keep\<close>

text \<open>\<open>proto X w\<close>: the monitor has not given up, and the open files are those of the handle table and, in
  the middle of a handler, those in \<open>X\<close>.\<close>

definition proto :: "(string \<Rightarrow> bool) \<Rightarrow> ('b, 'f) absFS \<Rightarrow> 'f multiset \<Rightarrow> ('b \<times> 'f monitor, 'f) FuseFS \<Rightarrow> bool" where
  "proto ok fs X w \<longleftrightarrow> absFS w = monitored ok fs \<and> snd (backend w) = Some (X + open_files (handleTracker w))"

lemma proto_cong:
  "absFS v = absFS w \<Longrightarrow> backend v = backend w \<Longrightarrow> handleTracker v = handleTracker w \<Longrightarrow> proto ok fs X v = proto ok fs X w"
  by (simp add: proto_def)

lemma frame_accesses:
  "absFS (snd (on_inodes m w)) = absFS w" "backend (snd (on_inodes m w)) = backend w"
  "handleTracker (snd (on_inodes m w)) = handleTracker w"
  "absFS (snd (read_cached p w)) = absFS w" "backend (snd (read_cached p w)) = backend w"
  "handleTracker (snd (read_cached p w)) = handleTracker w"
  "absFS (snd (read_dircache p w)) = absFS w" "backend (snd (read_dircache p w)) = backend w"
  "handleTracker (snd (read_dircache p w)) = handleTracker w"
  "absFS (write_cached p a w) = absFS w" "backend (write_cached p a w) = backend w"
  "handleTracker (write_cached p a w) = handleTracker w"
  "absFS (write_dircache p es w) = absFS w" "backend (write_dircache p es w) = backend w"
  "handleTracker (write_dircache p es w) = handleTracker w"
  "absFS (invalidate_dir p w) = absFS w" "backend (invalidate_dir p w) = backend w"
  "handleTracker (invalidate_dir p w) = handleTracker w"
  "absFS (fillAttr out info ino w) = absFS w" "backend (fillAttr out info ino w) = backend w"
  "handleTracker (fillAttr out info ino w) = handleTracker w"
  "absFS (set_attr out at w) = absFS w" "backend (set_attr out at w) = backend w"
  "handleTracker (set_attr out at w) = handleTracker w"
  "absFS (SetAttrTimeout out t w) = absFS w" "backend (SetAttrTimeout out t w) = backend w"
  "handleTracker (SetAttrTimeout out t w) = handleTracker w"
  "absFS (SetEntryTimeout out t w) = absFS w" "backend (SetEntryTimeout out t w) = backend w"
  "handleTracker (SetEntryTimeout out t w) = handleTracker w"
  "absFS (snd (call g w)) = absFS w" "handleTracker (snd (call g w)) = handleTracker w"
  by (simp_all add: world_eqs world_defs fillAttr_def Let_def)

lemma frame_new_entry:
  "absFS (snd (new_entry p mode info out w)) = absFS w" "backend (snd (new_entry p mode info out w)) = backend w"
  "handleTracker (snd (new_entry p mode info out w)) = handleTracker w"
  by (simp_all add: new_entry_def Let_def case_prod_beta frame_accesses)

lemma frame_readdir_loop:
  "absFS (snd (readdir_loop d infos acc w)) = absFS w" "backend (snd (readdir_loop d infos acc w)) = backend w"
  "handleTracker (snd (readdir_loop d infos acc w)) = handleTracker w"
  by (induction infos arbitrary: acc w) (simp_all add: Let_def case_prod_beta frame_accesses)

lemmas frames = frame_accesses frame_new_entry frame_readdir_loop

lemma proto_frame:
  "proto ok fs X (recordOperation w) = proto ok fs X w" "proto ok fs X (recordError w) = proto ok fs X w"
  "proto ok fs X (snd (on_inodes m w)) = proto ok fs X w" "proto ok fs X (snd (read_cached p w)) = proto ok fs X w"
  "proto ok fs X (snd (read_dircache p w)) = proto ok fs X w" "proto ok fs X (write_cached p a w) = proto ok fs X w"
  "proto ok fs X (write_dircache p es w) = proto ok fs X w" "proto ok fs X (invalidate_dir p w) = proto ok fs X w"
  "proto ok fs X (fillAttr out info ino w) = proto ok fs X w" "proto ok fs X (set_attr out at w) = proto ok fs X w"
  "proto ok fs X (SetAttrTimeout out t w) = proto ok fs X w" "proto ok fs X (SetEntryTimeout out t w) = proto ok fs X w"
  "proto ok fs X (snd (new_entry p mode info out w)) = proto ok fs X w"
  "proto ok fs X (snd (readdir_loop d infos acc w)) = proto ok fs X w"
  "proto ok fs X (w\<lparr>stats := st\<rparr>) = proto ok fs X w" "proto ok fs X (w\<lparr>lockManager := lm\<rparr>) = proto ok fs X w"
  by (rule proto_cong; simp add: frames)+

lemma call_watched:
  "snd (call (watched see m) w) = w\<lparr>backend := (snd (m (fst (backend w))), see (fst (m (fst (backend w)))) (snd (backend w)))\<rparr>"
  "fst (call (watched see m) w) = fst (m (fst (backend w)))"
  by (simp_all add: call_eq watched_def case_prod_beta)

lemma proto_call:
  "proto ok fs X w \<Longrightarrow> ok p \<Longrightarrow> proto ok fs X (snd (call (on_path ok p m) w))"
  "proto ok fs X w \<Longrightarrow> ok p \<Longrightarrow> ok q \<Longrightarrow> proto ok fs X (snd (call (on_paths ok p q m) w))"
  "proto ok fs X w \<Longrightarrow> proto ok fs X (snd (call (watched (\<lambda>_ s. s) m) w))"
  "proto ok fs X w \<Longrightarrow> f \<in># X + open_files (handleTracker w) \<Longrightarrow> proto ok fs X (snd (call (on_file f m) w))"
  by (auto simp: proto_def call_watched see_path_def see_use_def)

lemma proto_open:
  "proto ok fs X w \<Longrightarrow> ok p \<Longrightarrow> fst (call (on_open ok p m) w) = Inl e \<Longrightarrow> proto ok fs X (snd (call (on_open ok p m) w))"
  "proto ok fs X w \<Longrightarrow> ok p \<Longrightarrow> fst (call (on_open ok p m) w) = Inr f \<Longrightarrow>
     proto ok fs (add_mset f X) (snd (call (on_open ok p m) w))"
  by (auto simp: proto_def call_watched see_path_def)

lemma proto_close: "proto ok fs (add_mset f X) w \<Longrightarrow> proto ok fs X (snd (call (on_close f m) w))"
  by (simp add: proto_def call_watched see_close_def)

lemma proto_Add:
  assumes "proto ok fs (add_mset f X) w" and "handleTracker w = ht" and "ht_inv n ht" and "n < handle_limit"
  shows "proto ok fs X (w\<lparr>handleTracker := snd (ht_Add f flags p ht)\<rparr>)"
proof -
  have "fmlookup (handles ht) (nextHandle ht + 1) = None"
    using ht_invD [OF assms(3), of "nextHandle ht + 1"] ht_Add_counter [OF assms(3,4)]
    by (cases "fmlookup (handles ht) (nextHandle ht + 1)") auto
  with assms(1,2) show ?thesis by (simp add: proto_def ht_Add_def Let_def open_files_add)
qed

lemma monitored_sel:
  "fs_Stat (monitored ok fs) = (\<lambda>p. on_path ok p (fs_Stat fs p))"
  "fs_OpenFile (monitored ok fs) = (\<lambda>p flags mode. on_open ok p (fs_OpenFile fs p flags mode))"
  "fs_Open (monitored ok fs) = (\<lambda>p. on_open ok p (fs_Open fs p))"
  "fs_Mkdir (monitored ok fs) = (\<lambda>p mode. on_path ok p (fs_Mkdir fs p mode))"
  "fs_Remove (monitored ok fs) = (\<lambda>p. on_path ok p (fs_Remove fs p))"
  "fs_Rename (monitored ok fs) = (\<lambda>p q. on_paths ok p q (fs_Rename fs p q))"
  "fs_Chtimes (monitored ok fs) = (\<lambda>p atime mtime. on_path ok p (fs_Chtimes fs p atime mtime))"
  "f_Read (monitored ok fs) = (\<lambda>f len. on_file f (f_Read fs f len))"
  "f_Write (monitored ok fs) = (\<lambda>f data. on_file f (f_Write fs f data))"
  "f_Close (monitored ok fs) = (\<lambda>f. on_close f (f_Close fs f))"
  "f_Stat (monitored ok fs) = (\<lambda>f. on_file f (f_Stat fs f))"
  "f_Readdir (monitored ok fs) = (\<lambda>f. on_file f (f_Readdir fs f))"
  by (simp_all add: monitored_def)

lemmas proto_rules = proto_frame proto_call proto_open proto_close frames monitored_sel

section \<open>Handler by handler\<close>

lemma proto_absFS: "proto ok fs X w \<Longrightarrow> absFS w = monitored ok fs"
  by (simp add: proto_def)

lemma open_files_Get: "ht_Get fh ht = Some f \<Longrightarrow> f \<in># open_files ht"
  by (auto simp: ht_Get_def open_files_drop split: option.splits)

lemma proto_setattr:
  assumes "proto ok fs X w" and "ok (node_path n)"
  shows "proto ok fs X (snd (setattr_size f sain w))" "proto ok fs X (snd (setattr_mode n sain w))"
    "proto ok fs X (setattr_mtime n sain w)"
  using assms proto_absFS [OF assms(1)]
  by (auto simp: setattr_size_def setattr_mode_def setattr_mtime_def proto_rules monitored_def open_files_Get
      split: option.split fileHandle.split)

lemma proto_node:
  assumes "proto ok fs {#} w" and "ok (node_path n)" and "\<And>name. ok (path_Join (node_path n) name)"
  shows "proto ok fs {#} (snd (Lookup n name out w))" "proto ok fs {#} (snd (Getattr n out w))"
    "proto ok fs {#} (snd (fuse_Readdir n w))" "proto ok fs {#} (snd (fuse_Mkdir n name mode out w))"
    "proto ok fs {#} (snd (Unlink n name w))" "proto ok fs {#} (snd (Rmdir n name w))"
  using assms proto_absFS [OF assms(1)]
  by (simp_all add: handler_defs Let_def case_prod_beta proto_rules split: sum.split option.split)


lemma proto_links:
  assumes "proto ok fs {#} w" and "ok (node_path n)" and "\<And>name. ok (path_Join (node_path n) name)"
  shows "pred_option (\<lambda>m. \<forall>name. ok (path_Join (node_path m) name)) np \<Longrightarrow>
      proto ok fs {#} (snd (fuse_Rename n name np newName w))"
    "pred_option (\<lambda>m. ok (node_path m)) np \<Longrightarrow> proto ok fs {#} (snd (fuse_Link n np name out w))"
    "proto ok fs {#} (snd (fuse_Symlink n target name out w))"
    "proto ok fs {#} (snd (fuse_Readlink n w))" "proto ok fs {#} (snd (Fsync n f w))"
  using assms proto_absFS [OF assms(1)]
  by (auto simp: handler_defs Let_def case_prod_beta proto_rules monitored_def open_files_Get
      split: sum.split option.split fileHandle.split)

lemma proto_Setattr:
  assumes "proto ok fs {#} w" and "ok (node_path n)"
  shows "proto ok fs {#} (snd (Setattr n f sain out w))"
proof -
  have "proto ok fs {#} (snd (Getattr n out v))" if "proto ok fs {#} v" for v
    using that assms(2) proto_absFS [OF that]
    by (simp add: Getattr_def Let_def case_prod_beta proto_rules split: sum.split option.split)
  with assms show ?thesis
    by (simp add: Setattr_def Let_def case_prod_beta proto_frame proto_setattr split: option.split)
qed

lemma proto_info:
  assumes "proto ok fs {#} w" and "ok (node_path n)"
  shows "proto ok fs {#} (snd (Access n caller m w))" "proto ok fs {#} (snd (Getxattr n attr dest w))"
    "proto ok fs {#} (snd (Setxattr n attr data xflags w))" "proto ok fs {#} (snd (Listxattr n dest w))"
    "proto ok fs {#} (snd (Removexattr n attr w))" "proto ok fs {#} (snd (Statfs n sout w))"
  using assms proto_absFS [OF assms(1)]
  by (auto simp: handler_defs Let_def case_prod_beta proto_rules monitored_def split: sum.split option.split)

lemma proto_opens:
  assumes "proto ok fs {#} w" and "ok (node_path n)" and "\<And>name. ok (path_Join (node_path n) name)"
    and "ht_inv k (handleTracker w)" and "k < handle_limit"
  shows "proto ok fs {#} (snd (fuse_Open n flags w))" "proto ok fs {#} (snd (Create n name flags mode out w))"
  using assms proto_absFS [OF assms(1)]
  by (auto simp: handler_defs Let_def case_prod_beta proto_rules proto_Add [OF _ _ assms(4,5)] split: sum.split)

lemma proto_seek:
  assumes "proto ok fs {#} w" and "f \<in># open_files (handleTracker w)"
  shows "proto ok fs {#} (snd (seek_start f off w))"
  using assms proto_absFS [OF assms(1)]
  by (auto simp: seek_start_def proto_rules monitored_def split: option.split)

lemma frame_seek: "absFS (snd (seek_start f off w)) = absFS w" "handleTracker (snd (seek_start f off w)) = handleTracker w"
  by (simp_all add: seek_start_def frames split: option.split)

lemma proto_file:
  assumes "proto ok fs {#} w"
  shows "proto ok fs {#} (snd (fuse_Read fh len off w))" "proto ok fs {#} (snd (fuse_Write fh data off w))"
    "proto ok fs {#} (snd (fuse_Flush fh w))" "proto ok fs {#} (snd (fuse_Allocate fh uoff sz mode w))"
    "proto ok fs {#} (snd (fuse_Getlk fh owner lk w))" "proto ok fs {#} (snd (fuse_Setlk fh owner lk w))"
    "proto ok fs {#} (snd (fuse_Setlkw fh owner lk w))" "proto ok fs {#} (snd (fuse_Flock fh owner fl w))"
  using assms proto_absFS [OF assms]
  by (auto simp: file_handlers Let_def case_prod_beta proto_rules proto_seek frame_seek open_files_Get monitored_def
      split: option.split sum.split)


lemma proto_Release:
  assumes "proto ok fs {#} w" and "ht_inv k (handleTracker w)"
  shows "proto ok fs {#} (snd (fuse_Release fh w))"
proof (cases "fmlookup (handles (handleTracker w)) (fh_handle fh)")
  case None
  with assms(1) show ?thesis
    by (simp add: fuse_Release_def Let_def ht_Release_unknown proto_def)
next
  case (Some e)
  with assms show ?thesis
    by (simp add: fuse_Release_def Let_def ht_Release_known [OF assms(2)] case_prod_beta proto_def monitored_def
        open_files_drop [OF Some] watched_def see_close_def)
qed

lemma CloseAll_monitored:
  "snd b = Some (open_files ht) \<Longrightarrow>
     snd (snd (ht_CloseAll (\<lambda>f. on_close f (close f)) order ht b)) =
       Some (open_files (fst (ht_CloseAll (\<lambda>f. on_close f (close f)) order ht b)))"
proof (induction order arbitrary: ht b)
  case (Cons fh order)
  show ?case
  proof (cases "fmlookup (handles ht) fh")
    case (Some e)
    have "snd (snd (on_close (he_file e) (close (he_file e)) b)) = Some (open_files (ht\<lparr>handles := fmdrop fh (handles ht)\<rparr>))"
      using Cons.prems by (simp add: watched_def case_prod_beta see_close_def open_files_drop [OF Some])
    with Cons.IH Some show ?thesis by simp
  qed (use Cons in simp)
qed simp

lemma proto_Unmount: "proto ok fs {#} w \<Longrightarrow> proto ok fs {#} (fst (snd (Unmount os order w h)))"
  using CloseAll_monitored [of "backend w" "handleTracker w" "f_Close fs" order]
  by (simp add: Unmount_def Let_def case_prod_beta proto_def monitored_sel)

lemma proto_Unmount_empty:
  assumes "proto ok fs {#} w" and "fset (fmdom (handles (handleTracker w))) \<subseteq> set order"
  shows "snd (backend (fst (snd (Unmount os order w h)))) = Some {#}"
proof -
  have "open_files (handleTracker (fst (snd (Unmount os order w h)))) = {#}"
    by (simp add: Unmount_def Let_def case_prod_beta open_files_def CloseAll_empties [OF assms(2)])
  with proto_Unmount [OF assms(1), of os order h] show ?thesis by (simp add: proto_def)
qed

lemma proto_serve:
  assumes inv: "proto ok fs {#} w" "ht_inv k (handleTracker w)" "k < handle_limit"
    and nodes: "\<forall>n \<in> set (nodes_of r). clean_abs (node_path n)" and ok: "\<And>p. clean_abs p \<Longrightarrow> ok p"
  shows "proto ok fs {#} (snd (serve r w))"
proof -
  note rules = proto_node [OF inv(1)] proto_links [OF inv(1)] proto_Setattr [OF inv(1)] proto_info [OF inv(1)]
    proto_opens [OF inv(1) _ _ inv(2,3)] proto_file [OF inv(1)] proto_Release [OF inv(1,2)] clean_abs_Join ok
  from nodes show ?thesis
  proof (cases r)
    case (ReqRename n name np newName)
    with nodes show ?thesis by (cases np) (simp_all add: rules)
  next
    case (ReqLink n np name out)
    with nodes show ?thesis by (cases np) (simp_all add: rules)
  qed (auto simp: rules case_prod_beta split: option.split)
qed


section \<open>Sessions\<close>

lemma session_ht_inv:
  assumes "session os p fs mo n (w, N, h)" and "dir_bound D fs" and "n * (D + 3) \<le> inode_limit"
  shows "\<exists>k. ht_inv k (handleTracker w) \<and> k < handle_limit"
proof -
  obtain hops where hops: "handleTracker w = fst (handle_run no_close hops ())" "length hops \<le> inode_limit"
    using session_managers [OF assms] by (auto simp: managers_reached_def)
  then have "length hops < handle_limit" by (simp add: inode_limit_def handle_limit_def)
  with handle_run_inv [of hops no_close "()"] hops(1) show ?thesis by auto
qed

lemma session_proto:
  assumes "session os p (monitored ok fs) mo n (w, N, h)" and "snd (p_backend p) = Some {#}"
    and "dir_bound D fs" and "n * (D + 3) \<le> inode_limit" and ok: "\<And>p. clean_abs p \<Longrightarrow> ok p"
  shows "proto ok fs {#} w"
  using assms(1,4)
proof (induction n "(w, N, h)" arbitrary: w N h)
  case (mounted h0 w h)
  then show ?case using assms(2)
    by (auto elim!: Mount_OK simp: proto_def newFuseFS_def open_files_def NewHandleTracker_def)
next
  case (more n s e w N h)
  obtain v M g where s: "s = (v, M, g)" by (cases s)
  note ses = more.hyps(1) [unfolded s] and dirs = dir_bound_monitored [OF assms(3)]
  have n: "n * (D + 3) \<le> inode_limit" using more.prems by simp
  have inv: "proto ok fs {#} v" using more.hyps(2) [OF s n] .
  obtain k where k: "ht_inv k (handleTracker v)" "k < handle_limit"
    using session_ht_inv [OF ses dirs n] by blast
  have clean: "\<forall>m \<in> M. clean_abs (node_path m)" using session_paths_clean_nodes [OF ses dirs] by blast
  from more.hyps(3) [unfolded s] show ?case
  proof (cases rule: session_step.cases)
    case (serving r resp)
    then show ?thesis using proto_serve [OF inv k _ ok, of r] clean by (metis snd_conv subsetD)
  next
    case (shutting order err)
    then show ?thesis using proto_Unmount [OF inv, of os order g] by simp
  qed
qed

text \<open>C1: the adapter never misuses its backend and never leaks a file. Over any backend, throughout a session,
  every path given to the backend is clean and absolute, every file that is read, written, synced,
  truncated, listed or closed is open at that time, and the files that are open are exactly those
  of the handle table, each as often as it has handles; an \<^verbatim>\<open>Unmount\<close> at any point closes the rest.\<close>

theorem session_protocol:
  assumes "session os p (monitored clean_abs fs) mo n (w, N, h)" and "snd (p_backend p) = Some {#}"
    and "dir_bound D fs" and "n * (D + 3) \<le> inode_limit"
  shows "snd (backend w) = Some (open_files (handleTracker w)) \<and>
    (fset (fmdom (handles (handleTracker w))) \<subseteq> set order \<longrightarrow>
      snd (backend (fst (snd (Unmount os order w h)))) = Some {#})"
proof -
  have inv: "proto clean_abs fs {#} w" using session_proto [OF assms] by simp
  from proto_Unmount_empty [OF this, of order os h] inv show ?thesis by (simp add: proto_def)
qed

text \<open>A monitored session with an open file.\<close>

definition watched_process :: "(mem \<times> string monitor) process" where
  "watched_process = \<lparr>p_backend = (p_backend mem_process, Some {#}), p_clock = int, p_outs = (\<lambda>_. zero_out), p_Uid = 1000, p_Gid = 100\<rparr>"

definition watched_world :: "(mem \<times> string monitor, string) FuseFS" where
  "watched_world = (newFuseFS watched_process (monitored clean_abs mem_fs) (DefaultMountOptions ''/mnt''))\<lparr>server := True\<rparr>"

lemma watched_session:
  "session easy_host watched_process (monitored clean_abs mem_fs) (DefaultMountOptions ''/mnt'') 0 (watched_world, {root_node}, ())"
  by (rule session.mounted) (simp add: Mount_def easy_host_def DefaultMountOptions_def watched_world_def Let_def)

lemma session_protocol_witness:
  "snd (backend (snd (serve (ReqOpen root_node 0) watched_world))) =
     Some (open_files (handleTracker (snd (serve (ReqOpen root_node 0) watched_world))))"
  using session_protocol [OF session.more [OF watched_session session_step.serving [of "ReqOpen root_node 0" _ _
        "fst (serve (ReqOpen root_node 0) watched_world)" "snd (serve (ReqOpen root_node 0) watched_world)"]] _ mem_dir_bound, of "[]"]
  by (simp add: watched_process_def inode_limit_def)

end
