(* ===== verification/Os_Fs.thy ===== *)
theory Os_Fs
  imports Backend_Protocol
begin

text \<open>
  The example backend (\<^verbatim>\<open>examples/basic/osfs.go\<close>): a file system that hands every call to package \<^verbatim>\<open>os\<close>
  with the path put below a root directory. Package \<^verbatim>\<open>os\<close> is a parameter, a record of the functions
  and of the methods of \<^verbatim>\<open>*os.File\<close> over a state \<open>'b\<close> of the operating system. \<open>osFS_absFS\<close> is the
  backend as the adapter sees it; the property is that mounting it confines the adapter to the root.
\<close>

section \<open>Package os\<close>

record ('b, 'f) os_package =
  pkg_OpenFile :: "string \<Rightarrow> uint64 \<Rightarrow> uint32 \<Rightarrow> 'b \<Rightarrow> (goerr + 'f) \<times> 'b"
  pkg_Mkdir :: "string \<Rightarrow> uint32 \<Rightarrow> 'b \<Rightarrow> goerr option \<times> 'b"
  pkg_Remove :: "string \<Rightarrow> 'b \<Rightarrow> goerr option \<times> 'b"
  pkg_Rename :: "string \<Rightarrow> string \<Rightarrow> 'b \<Rightarrow> goerr option \<times> 'b"
  pkg_Stat :: "string \<Rightarrow> 'b \<Rightarrow> (goerr + FileInfo) \<times> 'b"
  pkg_Chmod :: "string \<Rightarrow> uint32 \<Rightarrow> 'b \<Rightarrow> goerr option \<times> 'b"
  pkg_Chtimes :: "string \<Rightarrow> int \<Rightarrow> int \<Rightarrow> 'b \<Rightarrow> goerr option \<times> 'b"
  pkg_Chown :: "string \<Rightarrow> int \<Rightarrow> int \<Rightarrow> 'b \<Rightarrow> goerr option \<times> 'b"
  pkg_ReadDir :: "string \<Rightarrow> 'b \<Rightarrow> (goerr + FileInfo list) \<times> 'b"
  pkg_ReadFile :: "string \<Rightarrow> 'b \<Rightarrow> (goerr + bytes) \<times> 'b"
  pkg_Chdir :: "string \<Rightarrow> 'b \<Rightarrow> goerr option \<times> 'b"
  pkg_Getwd :: "'b \<Rightarrow> (goerr + string) \<times> 'b"
  pkg_TempDir :: "'b \<Rightarrow> string \<times> 'b"
  pkg_Open :: "string \<Rightarrow> 'b \<Rightarrow> (goerr + 'f) \<times> 'b"
  pkg_Create :: "string \<Rightarrow> 'b \<Rightarrow> (goerr + 'f) \<times> 'b"
  pkg_MkdirAll :: "string \<Rightarrow> uint32 \<Rightarrow> 'b \<Rightarrow> goerr option \<times> 'b"
  pkg_RemoveAll :: "string \<Rightarrow> 'b \<Rightarrow> goerr option \<times> 'b"
  pkg_Truncate :: "string \<Rightarrow> int64 \<Rightarrow> 'b \<Rightarrow> goerr option \<times> 'b"
  pkg_MkdirTemp :: "string \<Rightarrow> string \<Rightarrow> 'b \<Rightarrow> (goerr + string) \<times> 'b"
  pkg_WriteFile :: "string \<Rightarrow> bytes \<Rightarrow> uint32 \<Rightarrow> 'b \<Rightarrow> goerr option \<times> 'b"
  File_Seek :: "'f \<Rightarrow> int64 \<Rightarrow> 'b \<Rightarrow> goerr option \<times> 'b"
  File_Read :: "'f \<Rightarrow> nat \<Rightarrow> 'b \<Rightarrow> (bytes \<times> goerr option) \<times> 'b"
  File_Write :: "'f \<Rightarrow> bytes \<Rightarrow> 'b \<Rightarrow> (uint64 \<times> goerr option) \<times> 'b"
  File_Close :: "'f \<Rightarrow> 'b \<Rightarrow> goerr option \<times> 'b"
  File_Stat :: "'f \<Rightarrow> 'b \<Rightarrow> (goerr + FileInfo) \<times> 'b"
  File_Readdir :: "'f \<Rightarrow> 'b \<Rightarrow> (goerr + FileInfo list) \<times> 'b"
  File_Sync :: "'f \<Rightarrow> 'b \<Rightarrow> goerr option \<times> 'b"
  File_Truncate :: "'f \<Rightarrow> int64 \<Rightarrow> 'b \<Rightarrow> goerr option \<times> 'b"

section \<open>The backend\<close>

record osFS =
  osfs_root :: string

definition NewOSFS :: "string \<Rightarrow> osFS" where
  "NewOSFS root = \<lparr>osfs_root = root\<rparr>"

abbreviation osfs_path :: "osFS \<Rightarrow> string \<Rightarrow> string" where
  "osfs_path fs \<equiv> osFS_path (osfs_root fs)"

definition osFS_OpenFile :: "('b, 'f) os_package \<Rightarrow> osFS \<Rightarrow> string \<Rightarrow> uint64 \<Rightarrow> uint32 \<Rightarrow> 'b \<Rightarrow> (goerr + 'f) \<times> 'b" where
  "osFS_OpenFile os fs name flag perm = pkg_OpenFile os (osfs_path fs name) flag perm"

definition osFS_Mkdir :: "('b, 'f) os_package \<Rightarrow> osFS \<Rightarrow> string \<Rightarrow> uint32 \<Rightarrow> 'b \<Rightarrow> goerr option \<times> 'b" where
  "osFS_Mkdir os fs name perm = pkg_Mkdir os (osfs_path fs name) perm"

definition osFS_Remove :: "('b, 'f) os_package \<Rightarrow> osFS \<Rightarrow> string \<Rightarrow> 'b \<Rightarrow> goerr option \<times> 'b" where
  "osFS_Remove os fs name = pkg_Remove os (osfs_path fs name)"

definition osFS_Rename :: "('b, 'f) os_package \<Rightarrow> osFS \<Rightarrow> string \<Rightarrow> string \<Rightarrow> 'b \<Rightarrow> goerr option \<times> 'b" where
  "osFS_Rename os fs oldpath newpath = pkg_Rename os (osfs_path fs oldpath) (osfs_path fs newpath)"

definition osFS_Stat :: "('b, 'f) os_package \<Rightarrow> osFS \<Rightarrow> string \<Rightarrow> 'b \<Rightarrow> (goerr + FileInfo) \<times> 'b" where
  "osFS_Stat os fs name = pkg_Stat os (osfs_path fs name)"

definition osFS_Chmod :: "('b, 'f) os_package \<Rightarrow> osFS \<Rightarrow> string \<Rightarrow> uint32 \<Rightarrow> 'b \<Rightarrow> goerr option \<times> 'b" where
  "osFS_Chmod os fs name mode = pkg_Chmod os (osfs_path fs name) mode"

definition osFS_Chtimes :: "('b, 'f) os_package \<Rightarrow> osFS \<Rightarrow> string \<Rightarrow> int \<Rightarrow> int \<Rightarrow> 'b \<Rightarrow> goerr option \<times> 'b" where
  "osFS_Chtimes os fs name atime mtime = pkg_Chtimes os (osfs_path fs name) atime mtime"

definition osFS_Chown :: "('b, 'f) os_package \<Rightarrow> osFS \<Rightarrow> string \<Rightarrow> int \<Rightarrow> int \<Rightarrow> 'b \<Rightarrow> goerr option \<times> 'b" where
  "osFS_Chown os fs name uid gid = pkg_Chown os (osfs_path fs name) uid gid"

definition osFS_ReadDir :: "('b, 'f) os_package \<Rightarrow> osFS \<Rightarrow> string \<Rightarrow> 'b \<Rightarrow> (goerr + FileInfo list) \<times> 'b" where
  "osFS_ReadDir os fs name = pkg_ReadDir os (osfs_path fs name)"

definition osFS_ReadFile :: "('b, 'f) os_package \<Rightarrow> osFS \<Rightarrow> string \<Rightarrow> 'b \<Rightarrow> (goerr + bytes) \<times> 'b" where
  "osFS_ReadFile os fs name = pkg_ReadFile os (osfs_path fs name)"

definition osFS_Chdir :: "('b, 'f) os_package \<Rightarrow> osFS \<Rightarrow> string \<Rightarrow> 'b \<Rightarrow> goerr option \<times> 'b" where
  "osFS_Chdir os fs dir = pkg_Chdir os (osfs_path fs dir)"

definition osFS_Getwd :: "('b, 'f) os_package \<Rightarrow> osFS \<Rightarrow> 'b \<Rightarrow> (goerr + string) \<times> 'b" where
  "osFS_Getwd os fs = pkg_Getwd os"

definition osFS_TempDir :: "('b, 'f) os_package \<Rightarrow> osFS \<Rightarrow> 'b \<Rightarrow> string \<times> 'b" where
  "osFS_TempDir os fs = pkg_TempDir os"

definition osFS_Open :: "('b, 'f) os_package \<Rightarrow> osFS \<Rightarrow> string \<Rightarrow> 'b \<Rightarrow> (goerr + 'f) \<times> 'b" where
  "osFS_Open os fs name = pkg_Open os (osfs_path fs name)"

definition osFS_Create :: "('b, 'f) os_package \<Rightarrow> osFS \<Rightarrow> string \<Rightarrow> 'b \<Rightarrow> (goerr + 'f) \<times> 'b" where
  "osFS_Create os fs name = pkg_Create os (osfs_path fs name)"

definition osFS_MkdirAll :: "('b, 'f) os_package \<Rightarrow> osFS \<Rightarrow> string \<Rightarrow> uint32 \<Rightarrow> 'b \<Rightarrow> goerr option \<times> 'b" where
  "osFS_MkdirAll os fs name perm = pkg_MkdirAll os (osfs_path fs name) perm"

definition osFS_RemoveAll :: "('b, 'f) os_package \<Rightarrow> osFS \<Rightarrow> string \<Rightarrow> 'b \<Rightarrow> goerr option \<times> 'b" where
  "osFS_RemoveAll os fs p = pkg_RemoveAll os (osfs_path fs p)"

definition osFS_Truncate :: "('b, 'f) os_package \<Rightarrow> osFS \<Rightarrow> string \<Rightarrow> int64 \<Rightarrow> 'b \<Rightarrow> goerr option \<times> 'b" where
  "osFS_Truncate os fs name sz = pkg_Truncate os (osfs_path fs name) sz"


text \<open>\<^verbatim>\<open>absfs.ExtendFiler(x).Sub(dir)\<close> is a parameter.\<close>

definition osFS_Sub :: "(osFS \<Rightarrow> string \<Rightarrow> 'r) \<Rightarrow> osFS \<Rightarrow> string \<Rightarrow> 'r" where
  "osFS_Sub ExtendFiler_Sub fs dir = ExtendFiler_Sub \<lparr>osfs_root = osfs_path fs dir\<rparr> dir"

text \<open>The backend behind \<^verbatim>\<open>absfs.FileSystem\<close>: \<^verbatim>\<open>osFS\<close> has none of the optional interfaces but \<^verbatim>\<open>Chmod\<close>, and an
  \<^verbatim>\<open>*os.File\<close> can seek, sync and truncate but not allocate.\<close>

definition osFS_absFS :: "('b, 'f) os_package \<Rightarrow> osFS \<Rightarrow> ('b, 'f) absFS" where
  "osFS_absFS os fs = \<lparr>
     fs_Stat = osFS_Stat os fs, fs_OpenFile = osFS_OpenFile os fs, fs_Open = osFS_Open os fs,
     fs_Mkdir = osFS_Mkdir os fs, fs_Remove = osFS_Remove os fs, fs_Rename = osFS_Rename os fs,
     fs_Chtimes = osFS_Chtimes os fs, fs_Chmod = Some (osFS_Chmod os fs),
     fs_Symlink = None, fs_Lstat = None, fs_Link = None, fs_Readlink = None, fs_XAttr = None, fs_StatFS = None,
     f_Seek = (\<lambda>f. Some (File_Seek os f)), f_Read = File_Read os, f_Write = File_Write os, f_Close = File_Close os,
     f_Stat = File_Stat os, f_Readdir = File_Readdir os, f_Sync = (\<lambda>f. Some (File_Sync os f)),
     f_Truncate = (\<lambda>f. Some (File_Truncate os f)), f_Allocate = (\<lambda>f. None)\<rparr>"

lemmas osFS_methods = osFS_OpenFile_def [abs_def] osFS_Mkdir_def [abs_def] osFS_Remove_def [abs_def] osFS_Rename_def [abs_def] osFS_Stat_def [abs_def] osFS_Chmod_def [abs_def]
  osFS_Chtimes_def [abs_def] osFS_Open_def [abs_def]

section \<open>Confinement\<close>

text \<open>\<open>below root q\<close>: the components of \<open>q\<close> start with those of \<open>root\<close>, and none of them is special.\<close>

definition below :: "string \<Rightarrow> string \<Rightarrow> bool" where
  "below root q \<longleftrightarrow> (\<exists>rs ws. root = abs_path rs \<and> list_all plain_name (rs @ ws) \<and> q = abs_path (rs @ ws))"

lemma abs_path_append:
  "rs \<noteq> [] \<Longrightarrow> ws \<noteq> [] \<Longrightarrow> abs_path (rs @ ws) = abs_path rs @ abs_path ws"
  by (induction rs rule: join_slash.induct) (auto simp: abs_path_def neq_Nil_conv)

lemma abs_path_Nil: "abs_path [] = ''/''"
  by (simp add: abs_path_def)

lemma abs_path_root_iff: "list_all plain_name ws \<Longrightarrow> abs_path ws = ''/'' \<longleftrightarrow> ws = []"
  using abs_path_inj [of ws "[]"] by (auto simp: abs_path_Nil)

lemma abs_path_not_Nil [simp]: "abs_path ws \<noteq> []"
  by (simp add: abs_path_def)

lemma osFS_path_append:
  assumes "list_all plain_name rs" and "list_all plain_name ws"
  shows "osFS_path (abs_path rs) (abs_path ws) = abs_path (rs @ ws)"
proof (cases "rs = [] \<or> ws = []")
  case True
  then show ?thesis
    using assms by (auto simp: osFS_path_def abs_path_root_iff abs_path_Nil)
next
  case False
  then show ?thesis
    using assms by (simp add: osFS_path_def abs_path_root_iff abs_path_append)
qed

lemma osFS_path_below:
  assumes "clean_abs root" and "clean_abs p"
  shows "below root (osFS_path root p)"
proof -
  obtain rs ws where "root = abs_path rs" "p = abs_path ws" "list_all plain_name rs" "list_all plain_name ws"
    using assms by (auto elim!: clean_absE)
  then show ?thesis
    unfolding below_def by (intro exI [of _ rs] exI [of _ ws]) (simp add: osFS_path_append)
qed

text \<open>The monitor around package \<^verbatim>\<open>os\<close> itself, and that the backend passes it on.\<close>

definition monitored_os :: "(string \<Rightarrow> bool) \<Rightarrow> ('b, 'f) os_package \<Rightarrow> ('b \<times> 'f monitor, 'f) os_package" where
  "monitored_os ok os = \<lparr>
     pkg_OpenFile = (\<lambda>p flag perm. on_open ok p (pkg_OpenFile os p flag perm)),
     pkg_Mkdir = (\<lambda>p perm. on_path ok p (pkg_Mkdir os p perm)),
     pkg_Remove = (\<lambda>p. on_path ok p (pkg_Remove os p)),
     pkg_Rename = (\<lambda>p q. on_paths ok p q (pkg_Rename os p q)),
     pkg_Stat = (\<lambda>p. on_path ok p (pkg_Stat os p)),
     pkg_Chmod = (\<lambda>p mode. on_path ok p (pkg_Chmod os p mode)),
     pkg_Chtimes = (\<lambda>p atime mtime. on_path ok p (pkg_Chtimes os p atime mtime)),
     pkg_Chown = (\<lambda>p uid gid. on_path ok p (pkg_Chown os p uid gid)),
     pkg_ReadDir = (\<lambda>p. on_path ok p (pkg_ReadDir os p)),
     pkg_ReadFile = (\<lambda>p. on_path ok p (pkg_ReadFile os p)),
     pkg_Chdir = (\<lambda>p. on_path ok p (pkg_Chdir os p)),
     pkg_Getwd = watched (\<lambda>_ s. s) (pkg_Getwd os),
     pkg_TempDir = watched (\<lambda>_ s. s) (pkg_TempDir os),
     pkg_Open = (\<lambda>p. on_open ok p (pkg_Open os p)),
     pkg_Create = (\<lambda>p. on_open ok p (pkg_Create os p)),
     pkg_MkdirAll = (\<lambda>p perm. on_path ok p (pkg_MkdirAll os p perm)),
     pkg_RemoveAll = (\<lambda>p. on_path ok p (pkg_RemoveAll os p)),
     pkg_Truncate = (\<lambda>p sz. on_path ok p (pkg_Truncate os p sz)),
     pkg_MkdirTemp = (\<lambda>dir pattern. watched (\<lambda>_ s. s) (pkg_MkdirTemp os dir pattern)),
     pkg_WriteFile = (\<lambda>p data perm. on_path ok p (pkg_WriteFile os p data perm)),
     File_Seek = (\<lambda>f off. on_file f (File_Seek os f off)),
     File_Read = (\<lambda>f len. on_file f (File_Read os f len)),
     File_Write = (\<lambda>f data. on_file f (File_Write os f data)),
     File_Close = (\<lambda>f. on_close f (File_Close os f)),
     File_Stat = (\<lambda>f. on_file f (File_Stat os f)),
     File_Readdir = (\<lambda>f. on_file f (File_Readdir os f)),
     File_Sync = (\<lambda>f. on_file f (File_Sync os f)),
     File_Truncate = (\<lambda>f sz. on_file f (File_Truncate os f sz))\<rparr>"

lemma see_path_comp: "see_path (ok \<circ> g) p = see_path ok (g p)"
  by (simp add: see_path_def fun_eq_iff)

lemma osFS_monitored:
  "osFS_absFS (monitored_os ok os) fs = monitored (ok \<circ> osfs_path fs) (osFS_absFS os fs)"
  by (simp add: osFS_absFS_def monitored_def monitored_os_def osFS_methods see_path_comp)

lemma osFS_session_proto:
  assumes "session os p (osFS_absFS (monitored_os (below root) pkg) (NewOSFS root)) mo n (w, N, h)"
    and "clean_abs root" and "snd (p_backend p) = Some {#}"
    and "dir_bound D (osFS_absFS pkg (NewOSFS root))" and "n * (D + 3) \<le> inode_limit"
  shows "proto (below root \<circ> osfs_path (NewOSFS root)) (osFS_absFS pkg (NewOSFS root)) {#} w"
  using assms(1) unfolding osFS_monitored
  by (rule session_proto [OF _ assms(3-5)]) (simp add: NewOSFS_def osFS_path_below assms(2))

text \<open>C10: mounting \<^verbatim>\<open>osFS\<close> confines the adapter to the root directory. Whatever requests a session serves, package
  \<^verbatim>\<open>os\<close> is only ever called with paths whose components extend those of the root and are ordinary
  names, it uses and closes only open files, and the open files are those of the handle table.\<close>

theorem osFS_confined:
  assumes "session os p (osFS_absFS (monitored_os (below root) pkg) (NewOSFS root)) mo n (w, N, h)"
    and "clean_abs root" and "snd (p_backend p) = Some {#}"
    and "dir_bound D (osFS_absFS pkg (NewOSFS root))" and "n * (D + 3) \<le> inode_limit"
  shows "snd (backend w) = Some (open_files (handleTracker w))"
  using osFS_session_proto [OF assms] by (simp add: proto_def)

text \<open>An operating system with a table of files; a directory is a prefix of their paths.\<close>

definition mem_ReadDir :: "string \<Rightarrow> mem \<Rightarrow> (goerr + FileInfo list) \<times> mem" where
  "mem_ReadDir p m = (Inr (map (\<lambda>(q, c). mem_info (drop (Suc (length p)) q) c)
     (filter (\<lambda>(q, c). take (Suc (length p)) q = p @ ''/'') (mem_files m))), m)"

definition mem_os :: "(mem, string) os_package" where
  "mem_os = \<lparr>
     pkg_OpenFile = mem_OpenFile, pkg_Mkdir = (\<lambda>p perm m. (None, m)), pkg_Remove = fs_Remove mem_fs, pkg_Rename = fs_Rename mem_fs,
     pkg_Stat = mem_Stat, pkg_Chmod = (\<lambda>p mode m. (None, m)), pkg_Chtimes = fs_Chtimes mem_fs,
     pkg_Chown = (\<lambda>p uid gid m. (None, m)), pkg_ReadDir = mem_ReadDir, pkg_ReadFile = (\<lambda>p m. (Inl ErrNotExist, m)),
     pkg_Chdir = (\<lambda>p m. (None, m)), pkg_Getwd = (\<lambda>m. (Inr ''/'', m)), pkg_TempDir = (\<lambda>m. (''/tmp'', m)),
     pkg_Open = fs_Open mem_fs, pkg_Create = fs_Open mem_fs, pkg_MkdirAll = (\<lambda>p perm m. (None, m)),
     pkg_RemoveAll = fs_Remove mem_fs, pkg_Truncate = (\<lambda>p sz m. (None, m)),
     pkg_MkdirTemp = (\<lambda>dir pattern m. (Inr ''/src'', m)),
     pkg_WriteFile = (\<lambda>p data perm m. (None, m\<lparr>mem_files := (p, data) # mem_files m\<rparr>)),
     File_Seek = (\<lambda>f off m. (None, m\<lparr>mem_pos := unat off\<rparr>)), File_Read = mem_Read, File_Write = mem_Write,
     File_Close = f_Close mem_fs, File_Stat = mem_Stat, File_Readdir = f_Readdir mem_fs,
     File_Sync = (\<lambda>f m. (None, m)), File_Truncate = (\<lambda>f sz m. (None, m))\<rparr>"

definition osfs_world :: "(mem \<times> string monitor, string) FuseFS" where
  "osfs_world = (newFuseFS watched_process (osFS_absFS (monitored_os (below ''/src'') mem_os) (NewOSFS ''/src''))
     (DefaultMountOptions ''/mnt''))\<lparr>server := True\<rparr>"

lemma osfs_session:
  "session easy_host watched_process (osFS_absFS (monitored_os (below ''/src'') mem_os) (NewOSFS ''/src''))
     (DefaultMountOptions ''/mnt'') 0 (osfs_world, {root_node}, ())"
  by (rule session.mounted) (simp add: Mount_def easy_host_def DefaultMountOptions_def osfs_world_def Let_def)

lemma osFS_confined_witness:
  "snd (backend (snd (serve (ReqLookup root_node ''../../etc'' 0) osfs_world))) =
     Some (open_files (handleTracker (snd (serve (ReqLookup root_node ''../../etc'' 0) osfs_world))))"
proof -
  let ?r = "ReqLookup root_node ''../../etc'' 0"
  have "dir_bound 8 (osFS_absFS mem_os (NewOSFS ''/src''))"
    by (auto simp: dir_bound_def osFS_absFS_def mem_os_def mem_fs_sel)
  then show ?thesis
    using osFS_confined [OF session.more [OF osfs_session session_step.serving [of ?r _ _
        "fst (serve ?r osfs_world)" "snd (serve ?r osfs_world)"]], of 8]
    by (simp add: watched_process_def inode_limit_def clean_abs_def plain_name_def)
qed

end
