(* ===== verification/Counters.thy ===== *)
theory Counters
  imports Backend_Protocol
begin

text \<open>
  What the operation and error counters of \<^verbatim>\<open>stats.go\<close> count, exactly. \<open>tallied\<close> puts a counter of
  failed calls around any backend; the calls whose error every handler drops or leaves uncounted
  (\<^verbatim>\<open>Close\<close>, \<^verbatim>\<open>Chtimes\<close>) are left out, and so is the end of a file, which is no error to \<^verbatim>\<open>Read\<close>.
\<close>

section \<open>Counting failed calls of the backend\<close>

definition tally :: "('r \<Rightarrow> bool) \<Rightarrow> ('b \<Rightarrow> 'r \<times> 'b) \<Rightarrow> 'b \<times> uint64 \<Rightarrow> 'r \<times> 'b \<times> uint64" where
  "tally failed m s = (case m (fst s) of (r, b) \<Rightarrow> (r, b, if failed r then snd s + 1 else snd s))"

abbreviation failed_with :: "goerr option \<Rightarrow> bool" where
  "failed_with r \<equiv> r \<noteq> None"

definition failed_read :: "bytes \<times> goerr option \<Rightarrow> bool" where
  "failed_read r \<longleftrightarrow> snd r \<noteq> None \<and> snd r \<noteq> Some EOF"

definition tallied :: "('b, 'f) absFS \<Rightarrow> ('b \<times> uint64, 'f) absFS" where
  "tallied fs = \<lparr>
     fs_Stat = (\<lambda>p. tally isl (fs_Stat fs p)),
     fs_OpenFile = (\<lambda>p flags mode. tally isl (fs_OpenFile fs p flags mode)),
     fs_Open = (\<lambda>p. tally isl (fs_Open fs p)),
     fs_Mkdir = (\<lambda>p mode. tally failed_with (fs_Mkdir fs p mode)),
     fs_Remove = (\<lambda>p. tally failed_with (fs_Remove fs p)),
     fs_Rename = (\<lambda>p q. tally failed_with (fs_Rename fs p q)),
     fs_Chtimes = (\<lambda>p atime mtime. tally (\<lambda>_. False) (fs_Chtimes fs p atime mtime)),
     fs_Chmod = map_option (\<lambda>chmod p mode. tally failed_with (chmod p mode)) (fs_Chmod fs),
     fs_Symlink = map_option (\<lambda>symlink target p. tally failed_with (symlink target p)) (fs_Symlink fs),
     fs_Lstat = map_option (\<lambda>lstat p. tally isl (lstat p)) (fs_Lstat fs),
     fs_Link = map_option (\<lambda>link p q. tally failed_with (link p q)) (fs_Link fs),
     fs_Readlink = map_option (\<lambda>readlink p. tally isl (readlink p)) (fs_Readlink fs),
     fs_XAttr = map_option (\<lambda>xa. \<lparr>
       xa_Get = (\<lambda>p attr. tally isl (xa_Get xa p attr)),
       xa_Set = (\<lambda>p attr v fl. tally failed_with (xa_Set xa p attr v fl)),
       xa_List = (\<lambda>p. tally isl (xa_List xa p)),
       xa_Remove = (\<lambda>p attr. tally failed_with (xa_Remove xa p attr))\<rparr>) (fs_XAttr fs),
     fs_StatFS = map_option (tally isl) (fs_StatFS fs),
     f_Seek = (\<lambda>f. map_option (\<lambda>seek off. tally failed_with (seek off)) (f_Seek fs f)),
     f_Read = (\<lambda>f len. tally failed_read (f_Read fs f len)),
     f_Write = (\<lambda>f data. tally (\<lambda>r. failed_with (snd r)) (f_Write fs f data)),
     f_Close = (\<lambda>f. tally (\<lambda>_. False) (f_Close fs f)),
     f_Stat = (\<lambda>f. tally isl (f_Stat fs f)),
     f_Readdir = (\<lambda>f. tally isl (f_Readdir fs f)),
     f_Sync = (\<lambda>f. map_option (tally failed_with) (f_Sync fs f)),
     f_Truncate = (\<lambda>f. map_option (\<lambda>trunc sz. tally failed_with (trunc sz)) (f_Truncate fs f)),
     f_Allocate = (\<lambda>f. map_option (\<lambda>alloc off sz. tally failed_with (alloc off sz)) (f_Allocate fs f))\<rparr>"

lemma tallied_sel:
  "fs_Stat (tallied fs) = (\<lambda>p. tally isl (fs_Stat fs p))"
  "fs_OpenFile (tallied fs) = (\<lambda>p flags mode. tally isl (fs_OpenFile fs p flags mode))"
  "fs_Open (tallied fs) = (\<lambda>p. tally isl (fs_Open fs p))"
  "fs_Mkdir (tallied fs) = (\<lambda>p mode. tally failed_with (fs_Mkdir fs p mode))"
  "fs_Remove (tallied fs) = (\<lambda>p. tally failed_with (fs_Remove fs p))"
  "fs_Rename (tallied fs) = (\<lambda>p q. tally failed_with (fs_Rename fs p q))"
  "fs_Chtimes (tallied fs) = (\<lambda>p atime mtime. tally (\<lambda>_. False) (fs_Chtimes fs p atime mtime))"
  "fs_Chmod (tallied fs) = map_option (\<lambda>chmod p mode. tally failed_with (chmod p mode)) (fs_Chmod fs)"
  "fs_Symlink (tallied fs) = map_option (\<lambda>symlink target p. tally failed_with (symlink target p)) (fs_Symlink fs)"
  "fs_Lstat (tallied fs) = map_option (\<lambda>lstat p. tally isl (lstat p)) (fs_Lstat fs)"
  "fs_Link (tallied fs) = map_option (\<lambda>link p q. tally failed_with (link p q)) (fs_Link fs)"
  "fs_Readlink (tallied fs) = map_option (\<lambda>readlink p. tally isl (readlink p)) (fs_Readlink fs)"
  "fs_StatFS (tallied fs) = map_option (tally isl) (fs_StatFS fs)"
  "f_Seek (tallied fs) = (\<lambda>f. map_option (\<lambda>seek off. tally failed_with (seek off)) (f_Seek fs f))"
  "f_Read (tallied fs) = (\<lambda>f len. tally failed_read (f_Read fs f len))"
  "f_Write (tallied fs) = (\<lambda>f data. tally (\<lambda>r. failed_with (snd r)) (f_Write fs f data))"
  "f_Close (tallied fs) = (\<lambda>f. tally (\<lambda>_. False) (f_Close fs f))"
  "f_Stat (tallied fs) = (\<lambda>f. tally isl (f_Stat fs f))"
  "f_Readdir (tallied fs) = (\<lambda>f. tally isl (f_Readdir fs f))"
  "f_Sync (tallied fs) = (\<lambda>f. map_option (tally failed_with) (f_Sync fs f))"
  "f_Truncate (tallied fs) = (\<lambda>f. map_option (\<lambda>trunc sz. tally failed_with (trunc sz)) (f_Truncate fs f))"
  "f_Allocate (tallied fs) = (\<lambda>f. map_option (\<lambda>alloc off sz. tally failed_with (alloc off sz)) (f_Allocate fs f))"
  by (simp_all add: tallied_def)

lemma call_tally:
  "snd (call (tally failed m) w) =
     w\<lparr>backend := (snd (m (fst (backend w))), snd (backend w) + of_bool (failed (fst (m (fst (backend w))))))\<rparr>"
  "fst (call (tally failed m) w) = fst (m (fst (backend w)))"
  by (simp_all add: call_eq tally_def case_prod_beta)

section \<open>Requests\<close>

text \<open>A \<^verbatim>\<open>Setattr\<close> that gets as far as reading the attributes back calls \<^verbatim>\<open>Getattr\<close>, which counts again.\<close>

fun reads_back :: "request \<Rightarrow> ('b, 'f) FuseFS \<Rightarrow> bool" where
  "reads_back (ReqSetattr n f sain out) w =
     (let w = recordOperation w in
      \<not> checkUnmounting w \<and> fst (setattr_size f sain w) = None \<and>
      fst (setattr_mode n sain (snd (setattr_size f sain w))) = None)"
| "reads_back _ w = False"

definition op_count :: "request \<Rightarrow> ('b, 'f) FuseFS \<Rightarrow> nat" where
  "op_count r w = (if reads_back r w then 2 else 1)"

text \<open>The requests that count an error although the backend is not asked: a handle that is not open.\<close>

fun bad_handle :: "request \<Rightarrow> ('b, 'f) FuseFS \<Rightarrow> bool" where
  "bad_handle (ReqRead fh len off) w = (ht_Get (fh_handle fh) (handleTracker w) = None)"
| "bad_handle (ReqWrite fh data off) w = (ht_Get (fh_handle fh) (handleTracker w) = None)"
| "bad_handle (ReqAllocate fh off sz mode) w = (ht_Get (fh_handle fh) (handleTracker w) = None)"
| "bad_handle _ w = False"

text \<open>\<open>exact k e w w'\<close>: \<open>k\<close> operations were counted, and the errors counted are the failed calls and \<open>e\<close>.\<close>

definition exact :: "uint64 \<Rightarrow> uint64 \<Rightarrow> ('b \<times> uint64, 'f) FuseFS \<Rightarrow> ('b \<times> uint64, 'f) FuseFS \<Rightarrow> bool" where
  "exact k e w w' \<longleftrightarrow> operations (stats w') = operations (stats w) + k \<and>
     errors (stats w') = errors (stats w) + (snd (backend w') - snd (backend w)) + e"

lemma exact_node:
  assumes "absFS w = tallied fs"
  shows "exact 1 0 w (snd (Lookup n name out w))" "exact 1 0 w (snd (Getattr n out w))"
    "exact 1 0 w (snd (fuse_Open n flags w))" "exact 1 0 w (snd (fuse_Readdir n w))"
    "exact 1 0 w (snd (Create n name flags mode out w))" "exact 1 0 w (snd (fuse_Mkdir n name mode out w))"
    "exact 1 0 w (snd (Unlink n name w))" "exact 1 0 w (snd (Rmdir n name w))"
    "exact 1 0 w (snd (fuse_Rename n name np newName w))" "exact 1 0 w (snd (Fsync n f w))"
    "exact 1 0 w (snd (fuse_Symlink n target name out w))" "exact 1 0 w (snd (fuse_Link n tn name out w))"
    "exact 1 0 w (snd (fuse_Readlink n w))"
  using assms
  by (auto simp: exact_def node_handlers Let_def case_prod_beta stats_simps frames tallied_sel call_tally
      split: sum.split option.split fileHandle.split)

lemma exact_info:
  assumes "absFS w = tallied fs"
  shows "exact 1 0 w (snd (Access n caller m w))" "exact 1 0 w (snd (Getxattr n attr dest w))"
    "exact 1 0 w (snd (Setxattr n attr data xflags w))" "exact 1 0 w (snd (Listxattr n dest w))"
    "exact 1 0 w (snd (Removexattr n attr w))" "exact 1 0 w (snd (Statfs n sout w))"
  using assms
  by (auto simp: exact_def info_handlers Let_def case_prod_beta stats_simps frames tallied_def call_tally
      split: sum.split option.split)

lemma seek_tallied:
  assumes "absFS w = tallied fs"
  shows "snd (backend (snd (seek_start f off w))) = snd (backend w) + of_bool (fst (seek_start f off w) \<noteq> None)"
  using assms by (auto simp: seek_start_def call_tally tallied_sel split: option.split)

lemma exact_io:
  assumes "absFS w = tallied fs"
  shows "exact 1 (of_bool (ht_Get (fh_handle fh) (handleTracker w) = None)) w (snd (fuse_Read fh len off w))"
    "exact 1 (of_bool (ht_Get (fh_handle fh) (handleTracker w) = None)) w (snd (fuse_Write fh data off w))"
    "exact 1 (of_bool (ht_Get (fh_handle fh) (handleTracker w) = None)) w (snd (fuse_Allocate fh uoff sz mode w))"
    "exact 1 0 w (snd (fuse_Flush fh w))"
  using assms
  by (auto simp: exact_def file_handlers Let_def case_prod_beta stats_simps frame_seek frames tallied_sel call_tally
      failed_read_def seek_tallied split: sum.split option.split)

lemma Release_tallied:
  "snd (snd (snd (ht_Release (\<lambda>f. tally (\<lambda>_. False) (close f)) fh ht b))) = snd b"
  by (simp add: ht_Release_def Let_def tally_def case_prod_beta split: option.split)

lemma exact_handle:
  assumes "absFS w = tallied fs"
  shows "exact 1 0 w (snd (fuse_Release fh w))" "exact 1 0 w (snd (fuse_Getlk fh owner lk w))"
    "exact 1 0 w (snd (fuse_Setlk fh owner lk w))" "exact 1 0 w (snd (fuse_Setlkw fh owner lk w))"
    "exact 1 0 w (snd (fuse_Flock fh owner lflags w))"
  using assms by (simp_all add: exact_def file_handlers Let_def case_prod_beta tallied_sel Release_tallied)

lemma setattr_tallied:
  assumes "absFS w = tallied fs"
  shows "snd (backend (snd (setattr_size f sain w))) = snd (backend w) + of_bool (fst (setattr_size f sain w) \<noteq> None)"
    "snd (backend (snd (setattr_mode n sain w))) = snd (backend w) + of_bool (fst (setattr_mode n sain w) \<noteq> None)"
    "snd (backend (setattr_mtime n sain w)) = snd (backend w)"
  using assms
  by (auto simp: setattr_size_def setattr_mode_def setattr_mtime_def call_tally tallied_sel
      split: option.split fileHandle.split)

lemma frame_setattr:
  "absFS (snd (setattr_size f sain w)) = absFS w" "absFS (snd (setattr_mode n sain w)) = absFS w"
  "absFS (setattr_mtime n sain w) = absFS w"
  by (simp_all add: setattr_size_def setattr_mode_def setattr_mtime_def frames split: option.split fileHandle.split)

lemma exact_Setattr:
  assumes fs: "absFS w = tallied fs"
  shows "exact (of_nat (op_count (ReqSetattr n f sain out) w)) 0 w (snd (Setattr n f sain out w))"
proof -
  let ?w = "recordOperation w"
  let ?s = "setattr_size f sain ?w"
  let ?m = "setattr_mode n sain (snd ?s)"
  let ?t = "setattr_mtime n sain (snd ?m)"
  have "exact 1 0 ?t (snd (Getattr n out ?t))"
    using fs by (intro exact_node(2)) (simp add: frame_setattr)
  with fs show ?thesis
    by (auto simp: exact_def op_count_def Setattr_def Let_def case_prod_beta stats_simps frame_setattr
        setattr_tallied [of _ fs] split: option.splits)
qed

lemma serve_exact:
  assumes "absFS w = tallied fs"
  shows "exact (of_nat (op_count r w)) (of_bool (bad_handle r w)) w (snd (serve r w))"
  using assms exact_Setattr [OF assms]
  by (cases r) (auto simp: exact_node exact_info exact_io exact_handle op_count_def case_prod_beta split: option.split)

lemma serve_operations:
  "operations (stats (snd (serve r w))) = operations (stats w) + of_nat (op_count r w)"
proof (cases r)
  case (ReqSetattr n f sain out)
  have two: "operations (stats (snd (Getattr n out v))) = operations (stats v) + 1" for v :: "('a, 'b) FuseFS"
    using counted_node(2) [of v n out] by (auto simp: counted1_def counted_def)
  with ReqSetattr show ?thesis
    by (auto simp: op_count_def Setattr_def Let_def case_prod_beta stats_simps split: option.splits)
qed (use serve_counted [of r w] in \<open>auto simp: counted_def op_count_def\<close>)

lemma Setattr_counts_twice:
  assumes "errors (stats (snd (Setattr n f sain out w))) = errors (stats w)" and "\<not> unmounting w"
  shows "op_count (ReqSetattr n f sain out) w = 2"
  using assms
  by (auto simp: op_count_def Setattr_def Let_def case_prod_beta stats_simps checkUnmounting_def split: option.splits)

text \<open>C33: the counters count exactly the operations and the failures. Every request counts one operation, except
  that a \<^verbatim>\<open>Setattr\<close> counts two from the point on where it reads the attributes back; so one that met no
  error counts two, and one that fails while reading back does as well. The error counter grows by the number of
  failed calls of the backend, plus one for a read, write or allocation on a handle that is not
  open, and never by more than one in a request. What is refused without asking the backend is not counted as an
  error, nor is an error of \<^verbatim>\<open>Close\<close> or \<^verbatim>\<open>Chtimes\<close>.\<close>

theorem serve_counts:
  assumes "absFS w = tallied fs"
  shows "operations (stats (snd (serve r w))) = operations (stats w) + of_nat (op_count r w) \<and>
    errors (stats (snd (serve r w))) =
      errors (stats w) + (snd (backend (snd (serve r w))) - snd (backend w)) + of_bool (bad_handle r w) \<and>
    errors (stats (snd (serve r w))) - errors (stats w) \<in> {0, 1} \<and>
    (\<forall>n f sain out. r = ReqSetattr n f sain out \<longrightarrow> \<not> unmounting w \<longrightarrow>
      errors (stats (snd (serve r w))) = errors (stats w) \<longrightarrow> op_count r w = 2)"
  using serve_exact [OF assms, of r] serve_counted [of r w]
  by (auto simp: exact_def counted_def Setattr_counts_twice)

definition tallied_world :: "(mem \<times> uint64, string) FuseFS" where
  "tallied_world = (newFuseFS \<lparr>p_backend = (p_backend mem_process, 0), p_clock = int, p_outs = (\<lambda>_. zero_out), p_Uid = 1000, p_Gid = 100\<rparr>
     (tallied mem_fs) (DefaultMountOptions ''/mnt''))\<lparr>server := True\<rparr>"

lemma serve_counts_witness:
  "operations (stats (snd (serve (ReqSetattr root_node NilHandle \<lparr>sa_Size = None, sa_Mode = None, sa_MTime = None\<rparr> 0) tallied_world))) =
    operations (stats tallied_world) + 2"
  using serve_counts [of tallied_world mem_fs "ReqSetattr root_node NilHandle \<lparr>sa_Size = None, sa_Mode = None, sa_MTime = None\<rparr> 0"]
  by (simp add: op_count_def tallied_world_def newFuseFS_def checkUnmounting_def setattr_size_def setattr_mode_def)

end
