(* ===== verification/Basic_Main.thy ===== *)
theory Basic_Main
  imports Os_Fs Counters
begin

text \<open>
  The example program (\<^verbatim>\<open>examples/basic/main.go\<close>) as a whole: it fills a temporary directory, mounts it
  through \<^verbatim>\<open>osFS\<close>, waits for a signal, prints the statistics, and takes everything down in deferred
  calls. Package \<^verbatim>\<open>os\<close> (state \<open>'b\<close>), go-fuse's server (state \<open>'h\<close>), the command line, and the requests
  the kernel sends while the program waits are parameters. \<^verbatim>\<open>log.Fatal\<close> ends the process without
  running deferred calls.
\<close>

section \<open>Requests while the program waits\<close>

text \<open>go-fuse serves requests on nodes it knows; the number counts those served.\<close>

fun deliver :: "request list \<Rightarrow> ('b, 'f) FuseFS \<times> fuseNode set \<Rightarrow> nat \<times> ('b, 'f) FuseFS \<times> fuseNode set" where
  "deliver [] (w, N) = (0, w, N)"
| "deliver (r # rs) (w, N) =
     (if set (nodes_of r) \<subseteq> N
      then (case serve r w of (resp, w) \<Rightarrow> (case deliver rs (w, N \<union> new_nodes resp) of (n, s) \<Rightarrow> (Suc n, s)))
      else deliver rs (w, N))"

lemma deliver_le: "fst (deliver rs (w, N)) \<le> length rs"
  by (induction rs arbitrary: w N) (auto simp: case_prod_beta le_SucI)

lemma session_deliver:
  assumes "session os p fs mo n (w, N, h)" and "deliver rs (w, N) = (k, w', N')"
  shows "session os p fs mo (n + k) (w', N', h)"
  using assms
proof (induction rs arbitrary: n w N k)
  case (Cons r rs)
  show ?case
  proof (cases "set (nodes_of r) \<subseteq> N")
    case True
    obtain resp v where v: "serve r w = (resp, v)" by (cases "serve r w")
    obtain j where "deliver rs (v, N \<union> new_nodes resp) = (j, w', N')" "k = Suc j"
      using Cons.prems(2) True v by (auto split: prod.splits)
    with Cons.IH [OF session.more [OF Cons.prems(1) session_step.serving [OF True v]]] show ?thesis by simp
  qed (use Cons in simp)
qed simp

section \<open>The program\<close>

definition bytes_of :: "string \<Rightarrow> bytes" where
  "bytes_of s = map (\<lambda>c. of_nat (of_char c)) s"

definition newline :: string where
  "newline = [CHR 0x0A]"

definition readme :: string where
  "readme = concat (map (\<lambda>l. l @ newline)
     [''# fusefs Example'', '''', ''This is a FUSE-mounted filesystem.'', '''', ''You can:'',
      ''- Read files: cat documents/hello.txt'', ''- List directories: ls -la documents/'',
      ''- Create files: echo '' @ [CHR 0x22] @ ''test'' @ [CHR 0x22] @ '' > test.txt'',
      ''- Create directories: mkdir mydir'', '''', ''Try it out!''])"

text \<open>The contents of the directory; the first error ends the program.\<close>

definition prepare_source :: "('b, 'f) os_package \<Rightarrow> string \<Rightarrow> 'b \<Rightarrow> goerr option \<times> 'b" where
  "prepare_source os tempDir b =
     (case pkg_Mkdir os (filepath_Join [tempDir, ''documents'']) 0x1ED b of
        (Some err, b) \<Rightarrow> (Some err, b)
      | (None, b) \<Rightarrow>
     (case pkg_WriteFile os (filepath_Join [tempDir, ''documents'', ''hello.txt''])
             (bytes_of ''Hello, FUSE!'') 0x1A4 b of
        (Some err, b) \<Rightarrow> (Some err, b)
      | (None, b) \<Rightarrow>
     (case pkg_WriteFile os (filepath_Join [tempDir, ''documents'', ''world.txt''])
             (bytes_of ''Welcome to fusefs!'') 0x1A4 b of
        (Some err, b) \<Rightarrow> (Some err, b)
      | (None, b) \<Rightarrow> pkg_WriteFile os (filepath_Join [tempDir, ''README.md'']) (bytes_of readme) 0x1A4 b)))"

definition example_opts :: "string \<Rightarrow> MountOptions" where
  "example_opts mountpoint =
     (DefaultMountOptions mountpoint)\<lparr>FSName := ''fusefs-example'', AllowOther := False, Debug := False\<rparr>"

definition mountpoint_arg :: "string list \<Rightarrow> string" where
  "mountpoint_arg args = (if length args > 1 then args ! 1 else ''/tmp/fusefs-basic'')"

text \<open>The verb \<^verbatim>\<open>%d\<close>.\<close>

fun decimal :: "nat \<Rightarrow> string" where
  "decimal n = (if n < 10 then [char_of (48 + n)] else decimal (n div 10) @ [char_of (48 + n mod 10)])"

declare decimal.simps [simp del]

definition announce :: "string \<Rightarrow> string \<Rightarrow> string list" where
  "announce tempDir mountpoint =
     [''Mounting filesystem from '' @ tempDir @ '' at '' @ mountpoint @ ''...'' @ newline]"

definition banner :: "string \<Rightarrow> string list" where
  "banner mountpoint =
     [[CHR 0xE2, CHR 0x9C, CHR 0x93] @ '' Mounted successfully at '' @ mountpoint @ newline,
      ''Try:'' @ newline,
      ''  ls -la '' @ mountpoint @ newline,
      ''  cat '' @ mountpoint @ ''/README.md'' @ newline,
      ''  cat '' @ mountpoint @ ''/documents/hello.txt'' @ newline,
      newline @ ''Press Ctrl+C to unmount...'' @ newline]"

definition report :: "Stats \<Rightarrow> string list" where
  "report st =
     [newline @ ''Unmounting...'' @ newline,
      newline @ ''Statistics:'' @ newline,
      ''  Operations:    '' @ decimal (unat (st_Operations st)) @ newline,
      ''  Bytes Read:    '' @ decimal (unat (st_BytesRead st)) @ newline,
      ''  Bytes Written: '' @ decimal (unat (st_BytesWritten st)) @ newline,
      ''  Errors:        '' @ decimal (unat (st_Errors st)) @ newline,
      ''  Open Files:    '' @ decimal (st_OpenFiles st) @ newline]"

text \<open>The host of \<^verbatim>\<open>Mount\<close>: the same package \<^verbatim>\<open>os\<close>, and the server.\<close>

definition os_host :: "('b, 'f) os_package \<Rightarrow> (string \<Rightarrow> fuseNode \<Rightarrow> fsOptions \<Rightarrow> 'h \<Rightarrow> goerr option \<times> 'h) \<Rightarrow>
    ('h \<Rightarrow> goerr option \<times> 'h) \<Rightarrow> ('b \<times> 'h) host" where
  "os_host os fs_Mount serverUnmount = \<lparr>
     os_MkdirAll = (\<lambda>p perm (b, h). case pkg_MkdirAll os p perm b of (err, b) \<Rightarrow> (err, b, h)),
     os_ReadDir = (\<lambda>p (b, h). case pkg_ReadDir os p b of (r, b) \<Rightarrow> (map_sum id (map fi_Name) r, b, h)),
     go_fuse_Mount = (\<lambda>p n opt (b, h). case fs_Mount p n opt h of (err, h) \<Rightarrow> (err, b, h)),
     server_Unmount = (\<lambda>(b, h). case serverUnmount h of (err, h) \<Rightarrow> (err, b, h))\<rparr>"

text \<open>
  How the process ends: in \<^verbatim>\<open>log.Fatal\<close> with a message and an error, or by returning from \<^verbatim>\<open>main\<close>. The
  result also has what was printed and the final states. \<open>before\<close> are the requests that come before
  the statistics are read, \<open>during\<close> those that come after and before \<^verbatim>\<open>Unmount\<close>; \<open>ranged ht\<close> is the order in
  which Go ranges over the handles of \<open>ht\<close>. \<^verbatim>\<open>Mount\<close> calls package \<^verbatim>\<open>os\<close> before any request is served, so the
  backend of the adapter it returns is in the state those calls leave.
\<close>

datatype main_exit = LogFatal string goerr | Returned

definition example_main :: "('b, 'f) os_package \<Rightarrow> (string \<Rightarrow> fuseNode \<Rightarrow> fsOptions \<Rightarrow> 'h \<Rightarrow> goerr option \<times> 'h) \<Rightarrow>
    ('h \<Rightarrow> goerr option \<times> 'h) \<Rightarrow> 'b process \<Rightarrow> string list \<Rightarrow> request list \<Rightarrow> request list \<Rightarrow> ('f HandleTracker \<Rightarrow> uint64 list) \<Rightarrow> 'b \<Rightarrow> 'h \<Rightarrow>
    main_exit \<times> string list \<times> 'b \<times> 'h" where
  "example_main os fs_Mount serverUnmount p args before during ranged b h =
     (case pkg_MkdirTemp os '''' ''fusefs-source-*'' b of
        (Inl err, b) \<Rightarrow> (LogFatal '''' err, [], b, h)
      | (Inr tempDir, b) \<Rightarrow>
     (case prepare_source os tempDir b of
        (Some err, b) \<Rightarrow> (LogFatal '''' err, [], b, h)
      | (None, b) \<Rightarrow>
        let osfs = NewOSFS tempDir;
            mountpoint = mountpoint_arg args;
            mopts = example_opts mountpoint;
            out = announce tempDir mountpoint;
            host = os_host os fs_Mount serverUnmount
        in (case Mount host (p\<lparr>p_backend := b\<rparr>) (osFS_absFS os osfs) (Some mopts) (b, h) of
              (Inl err, b, h) \<Rightarrow> (LogFatal ''Failed to mount: '' err, out, b, h)
            | (Inr fuseFS, b, h) \<Rightarrow>
                (case deliver before (fuseFS\<lparr>backend := b\<rparr>, {root_node}) of (n, fuseFS, N) \<Rightarrow>
                   let out = out @ banner mountpoint @ report (FuseFS_Stats fuseFS)
                   in (case deliver during (fuseFS, N) of (m, fuseFS, N) \<Rightarrow>
                        (case Unmount host (ranged (handleTracker fuseFS)) fuseFS (backend fuseFS, h) of
                           (err, fuseFS, b, h) \<Rightarrow>
                             (case pkg_RemoveAll os tempDir (backend fuseFS) of (err, b) \<Rightarrow>
                                (Returned, out, b, h))))))))"

section \<open>Confinement\<close>

lemma plain_names:
  "plain_name ''documents''" "plain_name ''hello.txt''" "plain_name ''world.txt''" "plain_name ''README.md''"
  by (simp_all add: plain_name_def)

lemma below_Join:
  assumes "clean_abs root" and "list_all plain_name ws" and "ws \<noteq> []"
  shows "below root (filepath_Join (root # ws))"
proof -
  obtain rs where "root = abs_path rs" "list_all plain_name rs" using assms(1) by (rule clean_absE)
  with assms show ?thesis by (auto simp: below_def filepath_Join_plain)
qed

lemma below_self: "clean_abs root \<Longrightarrow> below root root"
  by (erule clean_absE) (metis append_Nil2 below_def)

text \<open>The monitor for the program: \<^verbatim>\<open>os.MkdirAll\<close> and \<^verbatim>\<open>os.ReadDir\<close>, which \<^verbatim>\<open>Mount\<close> calls, may be given the mount
  point and no other path; every other function only paths below the root.\<close>

definition monitored_program :: "string \<Rightarrow> string \<Rightarrow> ('b, 'f) os_package \<Rightarrow> ('b \<times> 'f monitor, 'f) os_package" where
  "monitored_program root mountpoint os = (monitored_os (below root) os)\<lparr>
     pkg_MkdirAll := (\<lambda>p perm. on_path (\<lambda>q. q = mountpoint) p (pkg_MkdirAll os p perm)),
     pkg_ReadDir := (\<lambda>p. on_path (\<lambda>q. q = mountpoint) p (pkg_ReadDir os p))\<rparr>"

lemma osFS_monitored_program:
  "osFS_absFS (monitored_program root mp os) fs = osFS_absFS (monitored_os (below root) os) fs"
  by (simp add: osFS_absFS_def osFS_methods monitored_program_def)

lemma prepare_monitored:
  assumes "clean_abs root"
  shows "snd (snd (prepare_source (monitored_program root mp os) root (b, Some M))) = Some M"
proof -
  have "below root (filepath_Join [root, ''documents''])"
    "below root (filepath_Join [root, ''documents'', ''hello.txt''])"
    "below root (filepath_Join [root, ''documents'', ''world.txt''])"
    "below root (filepath_Join [root, ''README.md''])"
    by (intro below_Join assms; simp add: plain_names)+
  then show ?thesis
    by (simp add: prepare_source_def monitored_program_def monitored_os_def watched_def see_path_def
        split: prod.split option.split)
qed

lemma Mount_monitored:
  assumes "Mount (os_host (monitored_program root mp os) fm fu) p fs (Some mo) ((b, M), h) = (r, (b', M'), h')"
    and "Mountpoint mo = mp"
  shows "M' = M"
  using assms
  by (auto simp: Mount_def os_host_def monitored_program_def watched_def see_path_def Let_def case_prod_beta
      split: if_splits option.splits sum.splits)

text \<open>\<^verbatim>\<open>newFuseFS\<close> does not look at the backend's state.\<close>

lemma Mount_backend:
  "Mount host (p\<lparr>p_backend := b\<rparr>) fs mo h0 = (Inr w, h) \<Longrightarrow>
     Mount host (p\<lparr>p_backend := b'\<rparr>) fs mo h0 = (Inr (w\<lparr>backend := b'\<rparr>), h)"
  by (auto simp: Mount_def newFuseFS_def Let_def split: option.splits if_splits sum.splits prod.splits)

text \<open>What the monitor has seen when the process ends, in the case that mounting succeeds.\<close>

lemma mounted_monitored:
  fixes b :: "'b \<times> 'f monitor"
  assumes mnt: "Mount host (p\<lparr>p_backend := b0\<rparr>) (osFS_absFS (monitored_program root mp os) (NewOSFS root)) (Some mo) h0 = (Inr w, h)"
    and root: "clean_abs root" and b: "snd b = Some {#}" and dirs: "dir_bound D (osFS_absFS os (NewOSFS root))"
    and few: "(length before + length during) * (D + 3) \<le> inode_limit"
    and d1: "deliver before (w\<lparr>backend := b\<rparr>, {root_node}) = (n, v, N)" and d2: "deliver during (v, N) = (m, u, M)"
    and order: "fset (fmdom (handles (handleTracker u))) \<subseteq> set order"
  shows "snd (backend (fst (snd (Unmount host order u h')))) = Some {#}"
proof -
  have "n \<le> length before" "m \<le> length during"
    using deliver_le [of before "w\<lparr>backend := b\<rparr>" "{root_node}"] deliver_le [of during v N] d1 d2 by simp_all
  then have "(n + m) * (D + 3) \<le> inode_limit"
    using few by (meson add_mono_thms_linordered_semiring(1) le_trans mult_le_mono1)
  moreover have ses: "session host (p\<lparr>p_backend := b\<rparr>) (osFS_absFS (monitored_os (below root) os) (NewOSFS root)) mo (n + m) (u, M, h)"
    using session_deliver [OF session_deliver [OF session.mounted [OF Mount_backend [OF mnt]] d1] d2]
    by (simp add: osFS_monitored_program)
  ultimately show ?thesis
    by (intro proto_Unmount_empty [OF osFS_session_proto [OF ses root _ dirs] order]) (simp_all add: b)
qed

text \<open>C11: the whole program stays inside its temporary directory and leaves no file open. Whatever the operating
  system answers, whatever requests the kernel sends, and however the process ends, in an error or by
  returning: package \<^verbatim>\<open>os\<close> was called only with paths below the directory that \<^verbatim>\<open>os.MkdirTemp\<close> chose, but for
  the \<^verbatim>\<open>os.MkdirAll\<close> and \<^verbatim>\<open>os.ReadDir\<close> of \<^verbatim>\<open>Mount\<close>, which got the mount point; only open files were used, and every
  file that was opened has been closed.\<close>

theorem example_confined:
  assumes "fst (pkg_MkdirTemp os '''' ''fusefs-source-*'' b) = Inr root" and "clean_abs root"
    and "dir_bound D (osFS_absFS os (NewOSFS root))" and "(length before + length during) * (D + 3) \<le> inode_limit"
    and "\<And>ht. fset (fmdom (handles ht)) \<subseteq> set (ranged ht)"
    and "example_main (monitored_program root (mountpoint_arg args) os) fs_Mount serverUnmount p args before during ranged
      (b, Some {#}) h = (r, out, b', h')"
  shows "snd b' = Some {#}"
proof -
  let ?os = "monitored_program root (mountpoint_arg args) os"
  obtain b1 where temp: "pkg_MkdirTemp ?os '''' ''fusefs-source-*'' (b, Some {#}) = (Inr root, b1, Some {#})"
    using assms(1) by (simp add: monitored_program_def monitored_os_def watched_def case_prod_beta)
  obtain e b2 where prep: "prepare_source ?os root (b1, Some {#}) = (e, b2, Some {#})"
    using prepare_monitored [OF assms(2), of "mountpoint_arg args" os b1 "{#}"] by (metis prod.collapse)
  have gone: "snd (snd (pkg_RemoveAll ?os root c)) = snd c" for c
    using below_self [OF assms(2)]
    by (simp add: monitored_program_def monitored_os_def watched_def see_path_def case_prod_beta)
  have mount: "Mount (os_host ?os fs_Mount serverUnmount) q fs (Some (example_opts (mountpoint_arg args))) ((c, M), g) = (s, c', g') \<Longrightarrow>
      snd c' = M" for q :: "('a \<times> 'b monitor) process" and fs :: "('a \<times> 'b monitor, 'b) absFS" and c M g s c' g'
    using Mount_monitored [of root "mountpoint_arg args" os fs_Mount serverUnmount q fs _ c M g s "fst c'" "snd c'" g']
    by (simp add: example_opts_def DefaultMountOptions_def)
  note mm = mounted_monitored [OF _ assms(2) _ assms(3,4) _ _ assms(5)]
  show ?thesis
  proof (cases "Mount (os_host ?os fs_Mount serverUnmount) (p\<lparr>p_backend := (b2, Some {#})\<rparr>) (osFS_absFS ?os (NewOSFS root))
      (Some (example_opts (mountpoint_arg args))) ((b2, Some {#}), h)")
    case (fields s c g)
    note m = mount [OF fields]
    show ?thesis
    proof (cases s)
      case (Inl err)
      with assms(6) temp prep fields m show ?thesis
        by (auto simp: example_main_def Let_def split: option.splits)
    next
      case (Inr w)
      obtain n v N where d1: "deliver before (w\<lparr>backend := c\<rparr>, {root_node}) = (n, v, N)" by (metis prod_cases3)
      obtain k u M where d2: "deliver during (v, N) = (k, u, M)" by (metis prod_cases3)
      have "snd (backend (fst (snd (Unmount (os_host ?os fs_Mount serverUnmount) (ranged (handleTracker u)) u (backend u, g))))) = Some {#}"
        using mm [OF fields [unfolded Inr] _ d1 d2] m by simp
      with assms(6) temp prep fields Inr d1 d2 show ?thesis
        by (auto simp: example_main_def Let_def case_prod_beta gone split: option.splits)
    qed
  qed
qed

text \<open>The program on the small operating system; the kernel looks at the root and opens it.\<close>

definition any_order :: "'f HandleTracker \<Rightarrow> uint64 list" where
  "any_order ht = sorted_list_of_set (fset (fmdom (handles ht)))"

abbreviation (input) easy_Mount :: "string \<Rightarrow> fuseNode \<Rightarrow> fsOptions \<Rightarrow> unit \<Rightarrow> goerr option \<times> unit" where
  "easy_Mount \<equiv> \<lambda>p n opt h. (None, h)"

abbreviation (input) easy_Unmount :: "unit \<Rightarrow> goerr option \<times> unit" where
  "easy_Unmount \<equiv> \<lambda>h. (None, h)"

lemma example_confined_witness:
  "snd (fst (snd (snd (example_main (monitored_program ''/src'' (mountpoint_arg [''main'']) mem_os) easy_Mount easy_Unmount
     watched_process [''main''] [ReqGetattr root_node 0, ReqOpen root_node 0] [] any_order
     (p_backend mem_process, Some {#}) ())))) = Some {#}"
  (is "snd (fst (snd (snd ?run))) = _")
proof -
  obtain r out b' h' where run: "?run = (r, out, b', h')" by (metis prod_cases4)
  have "dir_bound 8 (osFS_absFS mem_os (NewOSFS ''/src''))"
    by (auto simp: dir_bound_def osFS_absFS_def mem_os_def mem_fs_sel)
  moreover have "fst (pkg_MkdirTemp mem_os '''' ''fusefs-source-*'' (p_backend mem_process)) = Inr ''/src''"
    by (simp add: mem_os_def)
  ultimately show ?thesis
    using example_confined [OF _ _ _ _ _ run, of 8]
    by (simp add: run any_order_def inode_limit_def clean_abs_def plain_name_def)
qed

section \<open>How the program ends\<close>

text \<open>C27: once its files are there, the program removes its temporary directory if and only if the mount succeeds.
  When \<^verbatim>\<open>Mount\<close> fails, \<^verbatim>\<open>log.Fatalf\<close> ends the process before the deferred \<^verbatim>\<open>os.RemoveAll\<close>: the files
  stay as \<^verbatim>\<open>Mount\<close> left them. When \<^verbatim>\<open>Mount\<close> succeeds the last thing the program does is to remove the directory.\<close>

theorem example_cleanup:
  assumes "pkg_MkdirTemp os '''' ''fusefs-source-*'' b = (Inr root, b1)" and "prepare_source os root b1 = (None, b2)"
  shows "case Mount (os_host os fs_Mount serverUnmount) (p\<lparr>p_backend := b2\<rparr>) (osFS_absFS os (NewOSFS root))
      (Some (example_opts (mountpoint_arg args))) (b2, h) of
      (Inl err, b3, h1) \<Rightarrow> example_main os fs_Mount serverUnmount p args before during ranged b h =
        (LogFatal ''Failed to mount: '' err, announce root (mountpoint_arg args), b3, h1)
    | (Inr w, b3, h1) \<Rightarrow> \<exists>out b4 h4. example_main os fs_Mount serverUnmount p args before during ranged b h =
        (Returned, out, snd (pkg_RemoveAll os root b4), h4)"
  using assms by (auto simp: example_main_def Let_def split: sum.split prod.split) (metis snd_conv)

text \<open>An operating system whose mount point has a file in it.\<close>

definition full_mem :: mem where
  "full_mem = \<lparr>mem_files = [(''/tmp/fusefs-basic/x'', [])], mem_pos = 0\<rparr>"

lemma example_cleanup_witness:
  "map_of (mem_files (fst (snd (snd (example_main mem_os easy_Mount easy_Unmount mem_process [''main''] [] [] any_order full_mem ())))))
     ''/src/documents/hello.txt'' = Some (bytes_of ''Hello, FUSE!'')"
proof -
  obtain b2 where prep: "prepare_source mem_os ''/src'' full_mem = (None, b2)"
    and files: "map_of (mem_files b2) ''/src/documents/hello.txt'' = Some (bytes_of ''Hello, FUSE!'')"
    and there: "(''/tmp/fusefs-basic/x'', []) \<in> set (mem_files b2)"
    by (simp add: prepare_source_def mem_os_def full_mem_def filepath_Join_def path_Clean_def)
  have "filter (\<lambda>(q, c). take (Suc (length ''/tmp/fusefs-basic'')) q = ''/tmp/fusefs-basic/'') (mem_files b2) \<noteq> []"
    using there by (force simp: filter_empty_conv)
  then have "Mount (os_host mem_os easy_Mount easy_Unmount) (mem_process\<lparr>p_backend := b2\<rparr>) (osFS_absFS mem_os (NewOSFS ''/src''))
      (Some (example_opts (mountpoint_arg [''main'']))) (b2, ()) = (Inl (ErrorString ''mountpoint is not empty''), b2, ())"
    by (simp add: Mount_def os_host_def mem_os_def mem_ReadDir_def example_opts_def mountpoint_arg_def DefaultMountOptions_def)
  moreover have "pkg_MkdirTemp mem_os '''' ''fusefs-source-*'' full_mem = (Inr ''/src'', full_mem)"
    by (simp add: mem_os_def)
  note example_cleanup [OF this prep, where args = "[''main'']" and p = mem_process and fs_Mount = easy_Mount
      and serverUnmount = easy_Unmount and h = "()" and before = "[]" and during = "[]" and ranged = any_order]
  ultimately show ?thesis using files by simp
qed

section \<open>What the program prints\<close>

text \<open>Reading a decimal numeral back.\<close>

definition undecimal :: "string \<Rightarrow> nat" where
  "undecimal s = foldl (\<lambda>n c. 10 * n + (of_char c - 48)) 0 s"

lemma undecimal_decimal [simp]: "undecimal (decimal n) = n"
proof (induction n rule: decimal.induct)
  case (1 n)
  have digit: "of_char (char_of (48 + d) :: char) - (48 :: nat) = d" if "d < 10" for d :: nat
    using that by simp
  show ?case
  proof (cases "n < 10")
    case True
    then show ?thesis by (simp add: decimal.simps [of n] undecimal_def digit)
  next
    case False
    then have "undecimal (decimal n) = 10 * undecimal (decimal (n div 10)) + n mod 10"
      by (simp add: decimal.simps [of n] undecimal_def digit)
    with 1 False show ?thesis by simp
  qed
qed

text \<open>The operations the served requests count.\<close>

fun deliver_ops :: "request list \<Rightarrow> ('b, 'f) FuseFS \<times> fuseNode set \<Rightarrow> nat" where
  "deliver_ops [] (w, N) = 0"
| "deliver_ops (r # rs) (w, N) =
     (if set (nodes_of r) \<subseteq> N
      then op_count r w + (case serve r w of (resp, w) \<Rightarrow> deliver_ops rs (w, N \<union> new_nodes resp))
      else deliver_ops rs (w, N))"

lemma deliver_counted:
  assumes "deliver rs (w, N) = (n, w', N')"
  shows "operations (stats w') = operations (stats w) + of_nat (deliver_ops rs (w, N))"
  using assms
proof (induction rs arbitrary: w N n)
  case (Cons r rs)
  then show ?case by (auto simp: serve_operations split: prod.splits if_splits) (metis serve_operations snd_conv add.assoc)
qed simp

lemma Mount_counters:
  "Mount os p fs mo h0 = (Inr w, h) \<Longrightarrow> operations (stats w) = 0"
  by (auto elim!: Mount_OK simp: newFuseFS_def newStatsCollector_def)

text \<open>C28: the statistics the program prints are those of its adapter when the signal comes. The line of the operations
  shows in decimal how many the served requests count, each one, or two for a \<^verbatim>\<open>Setattr\<close> that reads back; the
  lines of errors and bytes show the adapter's counters; the line of the open files shows the handles
  in use. Reading the digits back gives the numbers.\<close>

theorem example_report:
  assumes "pkg_MkdirTemp os '''' ''fusefs-source-*'' b = (Inr root, b1)" and "prepare_source os root b1 = (None, b2)"
    and "Mount (os_host os fs_Mount serverUnmount) (p\<lparr>p_backend := b2\<rparr>) (osFS_absFS os (NewOSFS root))
      (Some (example_opts (mountpoint_arg args))) (b2, h) = (Inr w, b3, h1)"
    and "deliver before (w\<lparr>backend := b3\<rparr>, {root_node}) = (n, v, N)"
    and "deliver_ops before (w\<lparr>backend := b3\<rparr>, {root_node}) < 2 ^ 64"
  shows "\<exists>ops rd wr errs files. {''  Operations:    '' @ ops @ newline, ''  Bytes Read:    '' @ rd @ newline,
        ''  Bytes Written: '' @ wr @ newline, ''  Errors:        '' @ errs @ newline, ''  Open Files:    '' @ files @ newline}
        \<subseteq> set (fst (snd (example_main os fs_Mount serverUnmount p args before during ranged b h))) \<and>
      undecimal ops = deliver_ops before (w\<lparr>backend := b3\<rparr>, {root_node}) \<and>
      undecimal rd = unat (bytesRead (stats v)) \<and> undecimal wr = unat (bytesWritten (stats v)) \<and>
      undecimal errs = unat (errors (stats v)) \<and> undecimal files = ht_Count (handleTracker v)"
proof -
  let ?st = "FuseFS_Stats v"
  have "operations (stats v) = of_nat (deliver_ops before (w\<lparr>backend := b3\<rparr>, {root_node}))"
    using deliver_counted [OF assms(4)] Mount_counters [OF assms(3)] by simp
  then have "unat (st_Operations ?st) = deliver_ops before (w\<lparr>backend := b3\<rparr>, {root_node})"
    using assms(5) by (simp add: FuseFS_Stats_def snapshot_def unat_of_nat take_bit_eq_mod)
  moreover have "st_OpenFiles ?st = ht_Count (handleTracker v)" "st_Errors ?st = errors (stats v)"
    "st_BytesRead ?st = bytesRead (stats v)" "st_BytesWritten ?st = bytesWritten (stats v)"
    by (simp_all add: FuseFS_Stats_def snapshot_def)
  moreover have "set (report ?st) \<subseteq> set (fst (snd (example_main os fs_Mount serverUnmount p args before during ranged b h)))"
    using assms(1-4) by (auto simp: example_main_def Let_def split: prod.split)
  ultimately show ?thesis
    by (intro exI [of _ "decimal (unat (st_Operations ?st))"] exI [of _ "decimal (unat (st_BytesRead ?st))"]
        exI [of _ "decimal (unat (st_BytesWritten ?st))"] exI [of _ "decimal (unat (st_Errors ?st))"]
        exI [of _ "decimal (st_OpenFiles ?st)"])
      (simp add: report_def)
qed

lemma mem_os_Mount:
  assumes "filter (\<lambda>(q, c). take (Suc (length ''/tmp/fusefs-basic'')) q = ''/tmp/fusefs-basic/'') (mem_files b) = []"
  shows "Mount (os_host mem_os easy_Mount easy_Unmount) p fs (Some (example_opts (mountpoint_arg [''main'']))) (b, ()) =
     (Inr ((newFuseFS p fs (example_opts (mountpoint_arg [''main''])))\<lparr>server := True\<rparr>), b, ())"
  using assms
  by (simp add: Mount_def os_host_def mem_os_def mem_ReadDir_def example_opts_def mountpoint_arg_def DefaultMountOptions_def Let_def)

lemma example_report_witness:
  "\<exists>ops. ''  Operations:    '' @ ops @ newline \<in>
       set (fst (snd (example_main mem_os easy_Mount easy_Unmount mem_process [''main''] [ReqOpen root_node 0, ReqGetattr root_node 0] []
         any_order (p_backend mem_process) ()))) \<and> undecimal ops = 2"
proof -
  let ?rs = "[ReqOpen root_node 0, ReqGetattr root_node 0]"
  obtain b2 where prep: "prepare_source mem_os ''/src'' (p_backend mem_process) = (None, b2)"
    and none: "filter (\<lambda>(q, c). take (Suc (length ''/tmp/fusefs-basic'')) q = ''/tmp/fusefs-basic/'') (mem_files b2) = []"
    by (simp add: prepare_source_def mem_os_def mem_process_def filepath_Join_def path_Clean_def)
  let ?w = "(newFuseFS (mem_process\<lparr>p_backend := b2\<rparr>) (osFS_absFS mem_os (NewOSFS ''/src''))
      (example_opts (mountpoint_arg [''main''])))\<lparr>server := True\<rparr>"
  obtain n v N where d: "deliver ?rs (?w\<lparr>backend := b2\<rparr>, {root_node}) = (n, v, N)" by (metis prod_cases3)
  have two: "deliver_ops ?rs (?w\<lparr>backend := b2\<rparr>, {root_node}) = 2"
    by (simp add: op_count_def split: prod.split)
  have temp: "pkg_MkdirTemp mem_os '''' ''fusefs-source-*'' (p_backend mem_process) = (Inr ''/src'', p_backend mem_process)"
    by (simp add: mem_os_def)
  show ?thesis
    using example_report [OF temp prep mem_os_Mount [OF none] d, where during = "[]" and ranged = any_order] two by auto
qed

end
