(* ===== verification/Interleaving.thy ===== *)
theory Interleaving
  imports Backend_Protocol
begin

text \<open>
  Requests in flight at the same time. go-fuse serves every request on a goroutine of its own, so
  between two atomic steps of a handler (a method of a manager, an atomic counter, a call of the
  backend) other requests run. A handler is a resumption: a tree of atomic steps. \<open>run\<close> is what it
  does alone, \<open>pool_step\<close> lets any unfinished request of a pool take its next step. The handlers
  whose steps depend on one another are spelled out: open, read, write, release, and unmounting.
  The other requests appear here as one step. No step waits; theory \<open>Mutexes\<close> has the mutexes.
\<close>

section \<open>Resumptions\<close>

datatype ('w, 'r) prog = Return 'r | Step "'w \<Rightarrow> ('w, 'r) prog \<times> 'w"

primrec run :: "('w, 'r) prog \<Rightarrow> 'w \<Rightarrow> 'r \<times> 'w" where
  "run (Return r) = (\<lambda>w. (r, w))"
| "run (Step f) = (\<lambda>w. case (map_prod run id \<circ> f) w of (g, w) \<Rightarrow> g w)"

definition atomically :: "('w \<Rightarrow> 'a \<times> 'w) \<Rightarrow> ('a \<Rightarrow> ('w, 'r) prog) \<Rightarrow> ('w, 'r) prog" where
  "atomically m k = Step (\<lambda>w. case m w of (a, w) \<Rightarrow> (k a, w))"

definition update :: "('w \<Rightarrow> 'w) \<Rightarrow> ('w, 'r) prog \<Rightarrow> ('w, 'r) prog" where
  "update g p = Step (\<lambda>w. (p, g w))"

lemma run_Return [simp]: "run (Return r) w = (r, w)"
  by simp

lemma run_atomically [simp]: "run (atomically m k) w = run (k (fst (m w))) (snd (m w))"
  by (simp add: atomically_def case_prod_beta)

lemma run_update [simp]: "run (update g p) w = run p (g w)"
  by (simp add: update_def)

section \<open>Pools\<close>

inductive pool_step :: "('w, 'r) prog list \<times> 'w \<Rightarrow> ('w, 'r) prog list \<times> 'w \<Rightarrow> bool" where
  pick: "i < length ps \<Longrightarrow> ps ! i = Step f \<Longrightarrow> f w = (p, w') \<Longrightarrow> pool_step (ps, w) (ps[i := p], w')"

text \<open>One schedule: the positions of the requests that take the next steps.\<close>

fun schedule :: "nat list \<Rightarrow> ('w, 'r) prog list \<times> 'w \<Rightarrow> ('w, 'r) prog list \<times> 'w" where
  "schedule [] s = s"
| "schedule (i # is) (ps, w) = (case ps ! i of
     Return r \<Rightarrow> schedule is (ps, w)
   | Step f \<Rightarrow> (case f w of (p, w) \<Rightarrow> schedule is (ps[i := p], w)))"

lemma schedule_steps: "\<forall>i \<in> set is. i < length ps \<Longrightarrow> pool_step\<^sup>*\<^sup>* (ps, w) (schedule is (ps, w))"
proof (induction "is" arbitrary: ps w)
  case (Cons i "is")
  show ?case
  proof (cases "ps ! i")
    case (Step f)
    have "pool_step (ps, w) (ps[i := fst (f w)], snd (f w))" using Cons.prems Step by (intro pick) simp_all
    moreover have "pool_step\<^sup>*\<^sup>* (ps[i := fst (f w)], snd (f w)) (schedule is (ps[i := fst (f w)], snd (f w)))"
      using Cons by simp
    ultimately show ?thesis using Step by (simp add: case_prod_beta)
  qed (use Cons in simp)
qed simp

fun finished :: "('w, 'r) prog \<Rightarrow> bool" where
  "finished (Return r) = True"
| "finished (Step f) = False"

text \<open>\<open>within k p\<close>: the program returns after at most \<open>k\<close> steps, whatever the others do in between.\<close>

inductive within :: "nat \<Rightarrow> ('w, 'r) prog \<Rightarrow> bool" where
  within_Return: "within k (Return r)"
| within_Step: "(\<And>w. within k (fst (f w))) \<Longrightarrow> within (Suc k) (Step f)"

inductive_cases within_StepE: "within k (Step f)"

lemma within_atomically: "(\<And>a. within k (p a)) \<Longrightarrow> within (Suc k) (atomically m p)"
  by (simp add: atomically_def within_Step case_prod_beta)

lemma within_update: "within k p \<Longrightarrow> within (Suc k) (update g p)"
  by (simp add: update_def within_Step)

lemmas within_intros = within_Return within_atomically within_update

text \<open>A pool of such programs: every step uses up one of the remaining steps of one program.\<close>

lemma pool_step_bound:
  assumes "pool_step (ps, w) (qs, v)" and "list_all2 within ks ps"
  shows "\<exists>ls. list_all2 within ls qs \<and> Suc (sum_list ls) = sum_list ks"
  using assms(1)
proof cases
  case (pick i f p)
  have len: "length ks = length ps" using assms(2) by (rule list_all2_lengthD)
  have "within (ks ! i) (Step f)" using assms(2) pick by (metis list_all2_nthD2)
  then obtain k where k: "ks ! i = Suc k" "within k p"
    using pick(4) by (elim within_StepE) (metis fst_conv)
  have "list_all2 within (ks[i := k]) qs"
    using assms(2) k(2) pick(1) by (simp add: list_all2_update_cong)
  moreover have "Suc (sum_list (ks[i := k])) = sum_list ks"
    using k(1) pick(2) len elem_le_sum_list [of i ks] by (simp add: sum_list_update)
  ultimately show ?thesis by blast
qed

lemma within_mono: "within k p \<Longrightarrow> k \<le> j \<Longrightarrow> within j p"
proof (induction arbitrary: j rule: within.induct)
  case (within_Step k f)
  then obtain i where "j = Suc i" "k \<le> i" by (cases j) auto
  with within_Step.IH show ?case by (auto intro: within.within_Step)
qed (rule within_Return)

text \<open>So every schedule ends: a pool makes at most as many steps as its programs have together, and it
  only stops when all have returned.\<close>

lemma pool_steps_bound:
  "(pool_step ^^ n) s t \<Longrightarrow> list_all2 within ks (fst s) \<Longrightarrow> \<exists>ls. list_all2 within ls (fst t) \<and> n + sum_list ls = sum_list ks"
proof (induction n arbitrary: t)
  case (Suc n)
  then obtain u where u: "(pool_step ^^ n) s u" "pool_step u t" by auto
  obtain ls where ls: "list_all2 within ls (fst u)" "n + sum_list ls = sum_list ks"
    using Suc.IH [OF u(1) Suc.prems(2)] by blast
  from pool_step_bound [of "fst u" "snd u" "fst t" "snd t" ls] u(2) ls show ?case by fastforce
qed auto

lemma pool_stuck_iff: "(\<forall>t. \<not> pool_step (ps, w) t) \<longleftrightarrow> list_all finished ps"
proof
  assume stuck: "\<forall>t. \<not> pool_step (ps, w) t"
  have "finished (ps ! i)" if "i < length ps" for i
  proof (cases "ps ! i")
    case (Step f)
    with stuck that pick [of i ps f w "fst (f w)" "snd (f w)"] show ?thesis by simp
  qed simp
  then show "list_all finished ps" by (simp add: list_all_length)
next
  assume "list_all finished ps"
  then show "\<forall>t. \<not> pool_step (ps, w) t"
    by (auto elim!: pool_step.cases simp: list_all_length)
qed

section \<open>Handlers step by step\<close>

type_synonym ('b, 'f, 'h) handler = "(('b, 'f) FuseFS \<times> 'h, response + goerr option) prog"

definition atomic :: "(('b, 'f) FuseFS \<Rightarrow> 'a \<times> ('b, 'f) FuseFS) \<Rightarrow> ('a \<Rightarrow> ('b, 'f, 'h) handler) \<Rightarrow> ('b, 'f, 'h) handler" where
  "atomic m = atomically (\<lambda>(w, h). case m w of (a, w) \<Rightarrow> (a, (w, h)))"

definition change :: "(('b, 'f) FuseFS \<Rightarrow> ('b, 'f) FuseFS) \<Rightarrow> ('b, 'f, 'h) handler \<Rightarrow> ('b, 'f, 'h) handler" where
  "change g = update (\<lambda>(w, h). (g w, h))"

abbreviation answer :: "response \<Rightarrow> ('b, 'f, 'h) handler" where
  "answer resp \<equiv> Return (Inl resp)"

text \<open>\<^verbatim>\<open>Open\<close>: count, look at \<^verbatim>\<open>unmounting\<close>, open the file, add the handle.\<close>

definition Open_steps :: "fuseNode \<Rightarrow> uint32 \<Rightarrow> ('b, 'f, 'h) handler" where
  "Open_steps n flags =
     change recordOperation (atomic (\<lambda>w. (checkUnmounting w, w)) (\<lambda>gone.
       if gone then answer (RErrno ENOTCONN)
       else let absFlags = mapOpenFlags flags in
         atomic (\<lambda>w. call (fs_OpenFile (absFS w) (node_path n) absFlags 0) w) (\<lambda>opened. case opened of
           Inl err \<Rightarrow> change recordError (answer (RErrno (mapError (Some err))))
         | Inr f \<Rightarrow>
             atomic (\<lambda>w. case ht_Add f absFlags (node_path n) (handleTracker w) of (handle, ht) \<Rightarrow> (handle, w\<lparr>handleTracker := ht\<rparr>))
               (\<lambda>handle. answer (RHandle \<lparr>fh_node = n, fh_handle = handle\<rparr>)))))"

text \<open>\<^verbatim>\<open>Read\<close>: count, look up the file, seek, read, count the bytes. The mutex of the handle table is held for
  the look-up only, and nothing is held between the seek and the read.\<close>

definition Read_steps :: "fuseFileHandle \<Rightarrow> nat \<Rightarrow> int64 \<Rightarrow> ('b, 'f, 'h) handler" where
  "Read_steps fh dest_len off =
     change recordOperation (atomic (\<lambda>w. (ht_Get (fh_handle fh) (handleTracker w), w)) (\<lambda>found. case found of
       None \<Rightarrow> change recordError (answer (RErrno EBADF))
     | Some f \<Rightarrow> atomic (seek_start f off) (\<lambda>sought. case sought of
         Some err \<Rightarrow> change recordError (answer (RErrno (mapError (Some err))))
       | None \<Rightarrow> atomic (\<lambda>w. call (f_Read (absFS w) f dest_len) w) (\<lambda>(data, err).
           if err \<noteq> None \<and> err \<noteq> Some EOF then change recordError (answer (RErrno (mapError err)))
           else change (\<lambda>w. w\<lparr>stats := stats_recordRead (of_nat (length data)) (stats w)\<rparr>) (answer (RData data))))))"

definition Write_steps :: "fuseFileHandle \<Rightarrow> bytes \<Rightarrow> int64 \<Rightarrow> ('b, 'f, 'h) handler" where
  "Write_steps fh data off =
     change recordOperation (atomic (\<lambda>w. (ht_Get (fh_handle fh) (handleTracker w), w)) (\<lambda>found. case found of
       None \<Rightarrow> change recordError (answer (RErrno EBADF))
     | Some f \<Rightarrow> atomic (seek_start f off) (\<lambda>sought. case sought of
         Some err \<Rightarrow> change recordError (answer (RErrno (mapError (Some err))))
       | None \<Rightarrow> atomic (\<lambda>w. call (f_Write (absFS w) f data) w) (\<lambda>(n, err).
           if err \<noteq> None then change recordError (answer (RErrno (mapError err)))
           else change (\<lambda>w. w\<lparr>stats := stats_recordWrite n (stats w)\<rparr>) (answer (RCount (ucast n)))))))"

definition Release_steps :: "fuseFileHandle \<Rightarrow> ('b, 'f, 'h) handler" where
  "Release_steps fh =
     change recordOperation (change (\<lambda>w. w\<lparr>lockManager := ReleaseOwner (fh_handle fh) (lockManager w)\<rparr>)
       (atomic (\<lambda>w. case ht_Release (f_Close (absFS w)) (fh_handle fh) (handleTracker w) (backend w) of
            (errno, ht, b) \<Rightarrow> (errno, w\<lparr>handleTracker := ht, backend := b\<rparr>))
          (\<lambda>errno. answer (RErrno errno))))"

text \<open>\<^verbatim>\<open>Unmount\<close>: set the flag, close all files, clear the inode manager, unmount.\<close>

definition Unmount_steps :: "'h host \<Rightarrow> uint64 list \<Rightarrow> ('b, 'f, 'h) handler" where
  "Unmount_steps os order =
     change (\<lambda>f. f\<lparr>unmounting := True\<rparr>)
       (change (\<lambda>f. case ht_CloseAll (f_Close (absFS f)) order (handleTracker f) (backend f) of
            (ht, b) \<Rightarrow> f\<lparr>handleTracker := ht, backend := b\<rparr>)
         (change (\<lambda>f. f\<lparr>inodeManager := im_Clear (inodeManager f)\<rparr>)
           (atomically (\<lambda>(f, h). if server f then (case server_Unmount os h of (err, h) \<Rightarrow> (err, (f, h))) else (None, (f, h)))
             (\<lambda>err. Return (Inr err)))))"

fun steps_of :: "'h host \<Rightarrow> event \<Rightarrow> ('b, 'f, 'h) handler" where
  "steps_of os (Serve (ReqOpen n flags)) = Open_steps n flags"
| "steps_of os (Serve (ReqRead fh len off)) = Read_steps fh len off"
| "steps_of os (Serve (ReqWrite fh data off)) = Write_steps fh data off"
| "steps_of os (Serve (ReqRelease fh)) = Release_steps fh"
| "steps_of os (Serve r) = atomic (serve r) (\<lambda>resp. answer resp)"
| "steps_of os (Shutdown order) = Unmount_steps os order"

text \<open>What an event does to the state when nothing runs in between.\<close>

fun happen :: "'h host \<Rightarrow> event \<Rightarrow> ('b, 'f) FuseFS \<times> 'h \<Rightarrow> (response + goerr option) \<times> ('b, 'f) FuseFS \<times> 'h" where
  "happen os (Serve r) (w, h) = (case serve r w of (resp, w) \<Rightarrow> (Inl resp, (w, h)))"
| "happen os (Shutdown order) (w, h) = (case Unmount os order w h of (err, w, h) \<Rightarrow> (Inr err, (w, h)))"

lemma run_atomic [simp]: "run (atomic m k) (w, h) = run (k (fst (m w))) (snd (m w), h)"
  by (simp add: atomic_def case_prod_beta)

lemma run_change [simp]: "run (change g p) (w, h) = run p (g w, h)"
  by (simp add: change_def)

lemma run_cases:
  "run (case x of None \<Rightarrow> p | Some a \<Rightarrow> q a) s = (case x of None \<Rightarrow> run p s | Some a \<Rightarrow> run (q a) s)"
  "run (case y of Inl e \<Rightarrow> p' e | Inr a \<Rightarrow> q' a) s = (case y of Inl e \<Rightarrow> run (p' e) s | Inr a \<Rightarrow> run (q' a) s)"
  by (simp_all split: option.split sum.split)

text \<open>The handlers as resumptions are the handlers. A request or an unmount whose steps run without
  interruption does what the model of the whole handler says, on every branch.\<close>

theorem uninterrupted_handlers:
  "run (steps_of os e) s = happen os e s"
proof (cases s)
  case (Pair w h)
  show ?thesis
  proof (cases "(os, e)" rule: steps_of.cases)
    case (1 os' n flags)
    with Pair show ?thesis
      by (auto simp: Open_steps_def fuse_Open_def Let_def case_prod_beta split: sum.split)
  next
    case (2 os' fh len off)
    with Pair show ?thesis
      by (auto simp: Read_steps_def fuse_Read_def Let_def case_prod_beta split: option.split)
  next
    case (3 os' fh data off)
    with Pair show ?thesis
      by (auto simp: Write_steps_def fuse_Write_def Let_def case_prod_beta split: option.split)
  next
    case (4 os' fh)
    with Pair show ?thesis
      by (simp add: Release_steps_def fuse_Release_def Let_def case_prod_beta)
  qed (use Pair in \<open>auto simp: case_prod_beta Unmount_steps_def Unmount_def Let_def\<close>)
qed

lemma within_atomic: "(\<And>a. within k (p a)) \<Longrightarrow> within (Suc k) (atomic m p)"
  by (simp add: atomic_def within_atomically)

lemma within_change: "within k p \<Longrightarrow> within (Suc k) (change g p)"
  by (simp add: change_def within_update)

lemma within_cases:
  "within k p \<Longrightarrow> (\<And>a. within k (q a)) \<Longrightarrow> within k (case x of None \<Rightarrow> p | Some a \<Rightarrow> q a)"
  "(\<And>a. within k (q' a)) \<Longrightarrow> (\<And>a. within k (q'' a)) \<Longrightarrow> within k (case y of Inl a \<Rightarrow> q' a | Inr a \<Rightarrow> q'' a)"
  "within k p \<Longrightarrow> within k p' \<Longrightarrow> within k (if c then p else p')"
  "(\<And>a b. within k (t a b)) \<Longrightarrow> within k (case z of (a, b) \<Rightarrow> t a b)"
  by (auto split: option.split sum.split prod.split)

lemma within_steps_of: "within 5 (steps_of os e)"
proof -
  have five: "(5 :: nat) = Suc (Suc (Suc (Suc (Suc 0))))" by simp
  show ?thesis unfolding five
    by (cases "(os, e)" rule: steps_of.cases)
       (auto simp: Open_steps_def Read_steps_def Write_steps_def Release_steps_def Unmount_steps_def Let_def
         intro!: within_atomic within_change within_cases within_atomically within_Return)
qed


section \<open>Every schedule ends\<close>

text \<open>Requests in flight always finish. However the steps of any number of requests and unmounts are
  interleaved, at most five steps per event are taken, and as long as one of them has not returned
  a step is possible.\<close>

theorem interleaving_terminates:
  assumes "(pool_step ^^ k) (map (steps_of os) es, s) (ps, t)"
  shows "k \<le> 5 * length es \<and> (list_all finished ps \<or> (\<exists>u. pool_step (ps, t) u))"
proof -
  have "k \<le> 5 * length es"
    using pool_steps_bound [OF assms, of "replicate (length es) 5"]
    by (auto simp: list_all2_conv_all_nth within_steps_of sum_list_replicate)
  with pool_stuck_iff [of ps t] show ?thesis by auto
qed

lemma interleaving_terminates_witness:
  "1 \<le> 5 * length [Shutdown []]"
proof -
  let ?s = "(mem_world, ())"
  obtain f where f: "(steps_of easy_host (Shutdown []) :: (mem, string, unit) handler) = Step f"
    by (simp add: Unmount_steps_def change_def update_def)
  then have "(pool_step ^^ 1) (map (steps_of easy_host) [Shutdown []], ?s) ([fst (f ?s)], snd (f ?s))"
    using pick [of 0 "[Step f]" f ?s "fst (f ?s)" "snd (f ?s)"] by (simp add: eq_OO)
  from interleaving_terminates [OF this] show ?thesis by blast
qed

section \<open>Handles under concurrency\<close>

fun handle_of :: "response + goerr option \<Rightarrow> uint64 option" where
  "handle_of (Inl (RHandle fh)) = Some (fh_handle fh)"
| "handle_of (Inl (RCreated c fh)) = Some (fh_handle fh)"
| "handle_of _ = None"

fun answered :: "('w, response + goerr option) prog \<Rightarrow> uint64 option" where
  "answered (Return r) = handle_of r"
| "answered (Step f) = None"

abbreviation counter :: "('b, 'f) FuseFS \<times> 'h \<Rightarrow> uint64" where
  "counter s \<equiv> nextHandle (handleTracker (fst s))"

text \<open>A step moves the handle counter by at most one, and a program returns a handle only in a step that has
  just moved the counter to it.\<close>

definition moves :: "uint64 \<Rightarrow> uint64 \<Rightarrow> uint64 option \<Rightarrow> bool" where
  "moves c c' a \<longleftrightarrow> c' = c \<and> a = None \<or> c' = c + 1 \<and> (a = None \<or> a = Some (c + 1))"

inductive counts :: "('b, 'f, 'h) handler \<Rightarrow> bool" where
  counts_Return: "counts (Return r)"
| counts_Step: "(\<And>s. counts (fst (f s)) \<and> moves (counter s) (counter (snd (f s))) (answered (fst (f s)))) \<Longrightarrow> counts (Step f)"

inductive_cases counts_StepE: "counts (Step f)"

lemma counts_atomic:
  assumes "\<And>w. counts (k (fst (m w)))"
    and "\<And>w. moves (nextHandle (handleTracker w)) (nextHandle (handleTracker (snd (m w)))) (answered (k (fst (m w))))"
  shows "counts (atomic m k)"
  using assms by (auto simp: atomic_def atomically_def case_prod_beta intro!: counts_Step)

lemma counts_change:
  assumes "counts p" and "answered p = None" and "\<And>w. nextHandle (handleTracker (g w)) = nextHandle (handleTracker w)"
  shows "counts (change g p)"
  using assms by (auto simp: change_def update_def case_prod_beta moves_def intro!: counts_Step)

lemma answered_steps [simp]: "answered (atomic m k) = None" "answered (change g p) = None" "answered (atomically m' k') = None"
  by (simp_all add: atomic_def change_def atomically_def update_def)

lemma CloseAll_counter: "nextHandle (fst (ht_CloseAll close order ht b)) = nextHandle ht"
  by (induction close order ht b rule: ht_CloseAll.induct) (simp_all split: option.split)

lemma Release_counter: "nextHandle (fst (snd (ht_Release close fh ht b))) = nextHandle ht"
  by (simp add: ht_Release_def Let_def case_prod_beta split: option.split)

lemma counter_frame:
  "handleTracker (snd (setattr_size f sain w)) = handleTracker w" "handleTracker (snd (setattr_mode n sain w)) = handleTracker w"
  "handleTracker (setattr_mtime n sain w) = handleTracker w"
  by (simp_all add: setattr_size_def setattr_mode_def setattr_mtime_def frames split: option.split fileHandle.split)

lemma moves_same: "moves c c None"
  by (simp add: moves_def)

lemma serve_moves:
  "moves (nextHandle (handleTracker w)) (nextHandle (handleTracker (snd (serve r w)))) (handle_of (Inl (fst (serve r w))))"
proof (cases r)
  case (ReqSetattr n f sain out)
  then show ?thesis
    by (simp add: Setattr_def Getattr_def Let_def case_prod_beta frames counter_frame moves_def split: option.split sum.split)
qed (simp_all add: handler_defs Let_def case_prod_beta frames frame_seek Release_counter ht_Add_def moves_def
    split: sum.split option.split fileHandle.split)

lemma counts_cases:
  "counts p \<Longrightarrow> (\<And>a. counts (q a)) \<Longrightarrow> counts (case x of None \<Rightarrow> p | Some a \<Rightarrow> q a)"
  "(\<And>a. counts (q' a)) \<Longrightarrow> (\<And>a. counts (q'' a)) \<Longrightarrow> counts (case y of Inl a \<Rightarrow> q' a | Inr a \<Rightarrow> q'' a)"
  "counts p \<Longrightarrow> counts p' \<Longrightarrow> counts (if c then p else p')"
  "(\<And>a b. counts (t a b)) \<Longrightarrow> counts (case z of (a, b) \<Rightarrow> t a b)"
  by (auto split: option.split sum.split prod.split)

lemma counts_unmount: "counts (Unmount_steps os order)"
proof -
  have "counts (atomically (\<lambda>(f, h). if server f then (case server_Unmount os h of (err, h) \<Rightarrow> (err, (f, h))) else (None, (f, h)))
             (\<lambda>err. Return (Inr err)))"
    by (auto simp: atomically_def case_prod_beta moves_def intro!: counts_Step counts_Return)
  then show ?thesis
    by (auto simp: Unmount_steps_def case_prod_beta CloseAll_counter intro!: counts_change)
qed

lemma counts_steps_of: "counts (steps_of os e)"
proof (cases e)
  case (Serve r)
  show ?thesis
  proof (cases r)
    case (ReqOpen n flags)
    with Serve show ?thesis
      by (auto simp: Open_steps_def Let_def case_prod_beta frames moves_def ht_Add_def
          intro!: counts_atomic counts_change counts_Return split: sum.split)
  next
    case (ReqRead fh len off)
    with Serve show ?thesis
      by (auto simp: Read_steps_def case_prod_beta frames frame_seek moves_def
          intro!: counts_atomic counts_change counts_Return split: option.split)
  next
    case (ReqWrite fh data off)
    with Serve show ?thesis
      by (auto simp: Write_steps_def case_prod_beta frames frame_seek moves_def
          intro!: counts_atomic counts_change counts_Return split: option.split)
  next
    case (ReqRelease fh)
    with Serve show ?thesis
      by (auto simp: Release_steps_def case_prod_beta Release_counter moves_def
          intro!: counts_atomic counts_change counts_Return)
  qed (use Serve serve_moves in \<open>auto intro!: counts_atomic counts_Return simp del: serve.simps\<close>)
qed (simp add: counts_unmount)

text \<open>The handles answered so far lie above the counter \<open>c\<close> the pool started with, up to the counter now, and
  are different; \<open>ks\<close> bounds the steps to come, so the counter does not wrap.\<close>

definition pool_inv :: "nat \<Rightarrow> ('b, 'f, 'h) handler list \<times> ('b, 'f) FuseFS \<times> 'h \<Rightarrow> bool" where
  "pool_inv c s \<longleftrightarrow> (\<forall>p \<in> set (fst s). counts p) \<and>
     (\<exists>ks. list_all2 within ks (fst s) \<and> unat (counter (snd s)) + sum_list ks < 2 ^ 64) \<and> c \<le> unat (counter (snd s)) \<and>
     (\<forall>i < length (fst s). \<forall>h. answered (fst s ! i) = Some h \<longrightarrow> c < unat h \<and> unat h \<le> unat (counter (snd s)) \<and>
        (\<forall>j < length (fst s). j \<noteq> i \<longrightarrow> answered (fst s ! j) \<noteq> Some h))"

lemma pool_inv_step:
  assumes "pool_step s t" and "pool_inv c s"
  shows "pool_inv c t"
  using assms(1)
proof cases
  case (pick i ps f w p w')
  obtain ks where ks: "list_all2 within ks ps" "unat (counter w) + sum_list ks < 2 ^ 64"
    using assms(2) pick(1) by (auto simp: pool_inv_def)
  obtain ls where ls: "list_all2 within ls (ps[i := p])" "Suc (sum_list ls) = sum_list ks"
    using pool_step_bound [OF assms(1) [unfolded pick(1,2)] ks(1)] by blast
  have "counts (Step f)" using assms(2) pick by (metis fst_conv nth_mem pool_inv_def)
  then have p: "counts p" "moves (counter w) (counter w') (answered p)"
    using pick(5) by (elim counts_StepE; metis fst_conv snd_conv)+
  have none: "answered (ps ! i) = None" by (simp add: pick(4))
  have Suc: "unat (counter w + 1) = Suc (unat (counter w))" using ks(2) ls(2) by (intro unat_Suc_no_wrap) simp
  have inv: "\<forall>i < length ps. \<forall>h. answered (ps ! i) = Some h \<longrightarrow> c < unat h \<and> unat h \<le> unat (counter w) \<and>
      (\<forall>j < length ps. j \<noteq> i \<longrightarrow> answered (ps ! j) \<noteq> Some h)"
    using assms(2) pick(1) by (simp add: pool_inv_def)
  have old: "c < unat h \<and> unat h \<le> unat (counter w)" if "j < length ps" "answered (ps ! j) = Some h" for j h
    using inv that by blast
  have apart: "answered (ps ! j) \<noteq> Some h" if "j < length ps" "k < length ps" "j \<noteq> k" "answered (ps ! k) = Some h" for j k h
    using inv that by blast
  have c: "c \<le> unat (counter w)" and all: "\<forall>q \<in> set ps. counts q" using assms(2) pick(1) by (auto simp: pool_inv_def)
  have le: "unat (counter w) \<le> unat (counter w')" "unat (counter w') \<le> Suc (unat (counter w))"
    using p(2) Suc by (auto simp: moves_def)
  have new: "answered p = Some h \<Longrightarrow> unat h = Suc (unat (counter w)) \<and> counter w' = h" for h
    using p(2) Suc by (auto simp: moves_def)
  have answered: "answered (ps[i := p] ! j) = (if j = i then answered p else answered (ps ! j))" if "j < length ps" for j
    using that pick(3) by simp
  have "c < unat h \<and> unat h \<le> unat (counter w') \<and> (\<forall>k < length ps. k \<noteq> j \<longrightarrow> answered (ps[i := p] ! k) \<noteq> Some h)"
    if j: "j < length ps" "answered (ps[i := p] ! j) = Some h" for j h
  proof (cases "j = i")
    case True
    with j answered new have h: "unat h = Suc (unat (counter w))" "counter w' = h" by auto
    with True c old show ?thesis by (fastforce simp: answered)
  next
    case False
    with j answered have "answered (ps ! j) = Some h" by simp
    note h = old [OF j(1) this]
    have "answered (ps[i := p] ! k) \<noteq> Some h" if k: "k < length ps" "k \<noteq> j" for k
      using h new [of h] apart [OF k(1) j(1) k(2) \<open>answered (ps ! j) = Some h\<close>] by (auto simp: answered [OF k(1)])
    with h le show ?thesis by (meson le_trans)
  qed
  moreover have "unat (counter w') + sum_list ls < 2 ^ 64" using ks(2) ls(2) le by linarith
  moreover have "\<forall>q \<in> set (ps[i := p]). counts q" using all p(1) set_update_subset_insert [of ps i p] by blast
  ultimately show ?thesis using ls(1) c le pick(2) by (auto simp: pool_inv_def)
qed

lemma answered_steps_of [simp]: "answered (steps_of os e) = None"
  by (cases "(os, e)" rule: steps_of.cases)
     (simp_all add: Open_steps_def Read_steps_def Write_steps_def Release_steps_def Unmount_steps_def)

text \<open>C7: concurrent opens never share a handle. However any requests are interleaved, the handles answered to
  two of them are different, and no answered handle was in use before they started.\<close>

theorem concurrent_handles_distinct:
  assumes "pool_step\<^sup>*\<^sup>* (map (steps_of os) es, s) (ps, t)"
    and "ht_inv n (handleTracker (fst s))" and "n + 5 * length es < 2 ^ 64"
    and "i < length ps" and "answered (ps ! i) = Some h"
  shows "ht_Get h (handleTracker (fst s)) = None \<and> (j < length ps \<and> j \<noteq> i \<longrightarrow> answered (ps ! j) \<noteq> Some h)"
proof -
  let ?c = "unat (counter s)"
  have "?c \<le> n" using assms(2) by (simp add: ht_inv_def)
  then have "?c + sum_list (replicate (length es) 5) < 2 ^ 64" using assms(3) by (simp add: sum_list_replicate)
  then have "pool_inv ?c (map (steps_of os) es, s)"
    by (auto simp: pool_inv_def counts_steps_of intro!: exI [of _ "replicate (length es) 5"]
        simp: list_all2_conv_all_nth within_steps_of)
  with assms(1) have "pool_inv ?c (ps, t)"
    by (induction rule: rtranclp_induct) (auto intro: pool_inv_step)
  with assms(4,5) have "?c < unat h" and "j < length ps \<and> j \<noteq> i \<longrightarrow> answered (ps ! j) \<noteq> Some h"
    by (auto simp: pool_inv_def)
  then show ?thesis
    using ht_invD [OF assms(2), of h] by (cases "fmlookup (handles (handleTracker (fst s))) h") (auto simp: ht_Get_def)
qed

text \<open>Two opens of the same file, one after the other.\<close>

lemma concurrent_handles_distinct_witness:
  "let (ps, t) = schedule [0, 1, 0, 1, 0, 1, 0, 1] (map (steps_of easy_host) [Serve (ReqOpen \<lparr>node_path = ''/a''\<rparr> 0),
     Serve (ReqOpen \<lparr>node_path = ''/a''\<rparr> 0)], (mem_world, ())) in answered (ps ! 1) \<noteq> Some 1"
proof -
  let ?es = "[Serve (ReqOpen \<lparr>node_path = ''/a''\<rparr> 0), Serve (ReqOpen \<lparr>node_path = ''/a''\<rparr> 0)]"
  let ?is = "[0, 1, 0, 1, 0, 1, 0, 1] :: nat list"
  let ?fin = "schedule ?is (map (steps_of easy_host) ?es, (mem_world, ()))"
  obtain ps t where e: "?fin = (ps, t)" by (cases ?fin)
  have "pool_step\<^sup>*\<^sup>* (map (steps_of easy_host) ?es, (mem_world, ())) ?fin" by (rule schedule_steps) simp
  moreover have "ht_inv 0 (handleTracker (fst (mem_world, ())))" by (simp add: mem_world_sel ht_inv_def NewHandleTracker_def)
  moreover have "length ps = 2" "answered (ps ! 0) = Some 1"
    using e by (auto simp: Open_steps_def atomic_def atomically_def change_def update_def Let_def case_prod_beta mem_world_sel
        mem_fs_sel mem_OpenFile_def call_eq checkUnmounting_def ht_Add_def NewHandleTracker_def)
  ultimately show ?thesis
    using concurrent_handles_distinct [of easy_host ?es "(mem_world, ())" ps t 0 0 1 1] e by auto
qed

section \<open>Races\<close>

lemmas step_defs = Open_steps_def Read_steps_def Unmount_steps_def atomic_def atomically_def change_def update_def

text \<open>C21: concurrent reads of one handle get each other's data. Seeking and reading are two steps with nothing
  held in between, and parallel reads of a file share its position: there is a schedule of a read at
  one offset and a read at another in which the first answers exactly what a read at the other
  offset answers, for every backend whose seeks are absolute.\<close>

theorem concurrent_reads_mix:
  fixes w :: "('b, 'f) FuseFS"
  assumes "ht_Get (fh_handle fh) (handleTracker w) = Some f" and "f_Seek (absFS w) f = Some seek"
    and "seek off1 (backend w) = (None, b1)" and "seek off2 b1 = (None, b2)" and "seek off2 (backend w) = (None, b2)"
  shows "\<exists>ps t. pool_step\<^sup>*\<^sup>* ([Read_steps fh len1 off1, Read_steps fh len2 off2], (w, h)) (ps, t) \<and>
    ps ! 0 = answer (fst (serve (ReqRead fh len1 off2) w))"
proof -
  let ?pool = "([Read_steps fh len1 off1, Read_steps fh len2 off2], (w, h))"
  let ?is = "[0, 0, 0, 1, 1, 1, 0, 0] :: nat list"
  obtain data err b3 where r: "f_Read (absFS w) f len1 b2 = ((data, err), b3)" by (metis surj_pair)
  have "pool_step\<^sup>*\<^sup>* ?pool (schedule ?is ?pool)" by (rule schedule_steps) simp
  moreover have "fst (schedule ?is ?pool) ! 0 = answer (fst (serve (ReqRead fh len1 off2) w))"
    using assms r
    by (simp add: step_defs seek_start_def call_eq fuse_Read_def Let_def case_prod_beta)
  ultimately show ?thesis by (metis prod.collapse)
qed

text \<open>C22: an open in flight during \<^verbatim>\<open>Unmount\<close> leaks its file. There is a schedule in which a request to open a
  file has looked at \<^verbatim>\<open>unmounting\<close> before \<^verbatim>\<open>Unmount\<close> runs to its end and adds its handle afterwards: both
  are finished, the file system is unmounted, and the file is still open.\<close>

theorem Open_survives_Unmount:
  fixes w :: "('b, 'f) FuseFS"
  assumes "\<not> unmounting w" and "fs_OpenFile (absFS w) (node_path n) (mapOpenFlags flags) 0 (backend w) = (Inr f, b)"
  shows "\<exists>ps v h'. pool_step\<^sup>*\<^sup>* ([Open_steps n flags, Unmount_steps os order], (w, h)) (ps, (v, h')) \<and>
    list_all finished ps \<and> unmounting v \<and>
    (\<exists>handle. ps ! 0 = answer (RHandle \<lparr>fh_node = n, fh_handle = handle\<rparr>) \<and> ht_Get handle (handleTracker v) = Some f)"
proof -
  let ?pool = "([Open_steps n flags, Unmount_steps os order], (w, h))"
  let ?fin = "schedule ([0, 0, 0, 1, 1, 1, 1, 0] :: nat list) ?pool"
  have "pool_step\<^sup>*\<^sup>* ?pool ?fin" by (rule schedule_steps) simp
  moreover have "list_all finished (fst ?fin) \<and> unmounting (fst (snd ?fin)) \<and>
      (\<exists>handle. fst ?fin ! 0 = answer (RHandle \<lparr>fh_node = n, fh_handle = handle\<rparr>) \<and>
        ht_Get handle (handleTracker (fst (snd ?fin))) = Some f)"
    using assms
    by (auto simp: step_defs checkUnmounting_def call_eq Let_def case_prod_beta ht_Add_def ht_Get_def)
  ultimately show ?thesis by (metis prod.collapse)
qed

lemma CloseAll_closes:
  assumes "snd b = Some (open_files ht)" and "fset (fmdom (handles ht)) \<subseteq> set order"
  shows "snd (snd (ht_CloseAll (\<lambda>f. on_close f (close f)) order ht b)) = Some {#}"
  by (simp add: CloseAll_monitored [OF assms(1)] open_files_def CloseAll_empties [OF assms(2)])

text \<open>A read in flight during \<^verbatim>\<open>Unmount\<close> uses a closed file. The handle table gives out the file without
  holding on to it: there is a schedule in which a read has looked up its file, \<^verbatim>\<open>Unmount\<close> closes all
  files, and the read then seeks or reads in the closed file, which the monitor around the backend
  notices. Without interleaving this never happens.\<close>

theorem Read_uses_closed_file:
  fixes w :: "('b \<times> 'f monitor, 'f) FuseFS"
  assumes "absFS w = monitored ok fs" and "snd (backend w) = Some (open_files (handleTracker w))"
    and "ht_Get (fh_handle fh) (handleTracker w) = Some f" and "fset (fmdom (handles (handleTracker w))) \<subseteq> set order"
  shows "\<exists>ps v h'. pool_step\<^sup>*\<^sup>* ([Read_steps fh len off, Unmount_steps os order], (w, h)) (ps, (v, h')) \<and>
    snd (backend v) = None"
proof -
  let ?pool = "([Read_steps fh len off, Unmount_steps os order], (w, h))"
  let ?fin = "schedule ([0, 0, 1, 1, 1, 1, 0, 0] :: nat list) ?pool"
  have "pool_step\<^sup>*\<^sup>* ?pool ?fin" by (rule schedule_steps) simp
  moreover have "snd (backend (fst (snd ?fin))) = None"
    using assms CloseAll_closes [OF assms(2,4), of "f_Close fs"]
    by (auto simp: step_defs seek_start_def call_eq monitored_sel case_prod_beta monitored_def watched_def see_use_def
        split: option.split)
  ultimately show ?thesis by (metis prod.collapse)
qed

text \<open>A world with a file open at handle 1, and a monitored one.\<close>

definition open_world :: "(mem, string) FuseFS" where
  "open_world = mem_world\<lparr>handleTracker := snd (ht_Add ''/a'' 0 ''/a'' NewHandleTracker)\<rparr>"

lemma concurrent_reads_mix_witness:
  "\<exists>ps t. pool_step\<^sup>*\<^sup>* ([Read_steps \<lparr>fh_node = root_node, fh_handle = 1\<rparr> 1 0,
      Read_steps \<lparr>fh_node = root_node, fh_handle = 1\<rparr> 1 2], (open_world, ())) (ps, t) \<and> ps ! 0 = answer (RData [3])"
proof -
  let ?fh = "\<lparr>fh_node = root_node, fh_handle = 1\<rparr>"
  have w: "ht_Get (fh_handle ?fh) (handleTracker open_world) = Some ''/a''"
      "f_Seek (absFS open_world) ''/a'' = Some (\<lambda>off m. (None, m\<lparr>mem_pos := unat off\<rparr>))"
      "backend open_world = \<lparr>mem_files = [(''/a'', [1, 2, 3])], mem_pos = 0\<rparr>"
    by (simp_all add: open_world_def mem_world_sel ht_Add_def ht_Get_def NewHandleTracker_def) (simp add: mem_fs_def)
  have r: "fst (serve (ReqRead ?fh 1 2) open_world) = RData [3]"
    using w by (simp add: fuse_Read_def seek_start_def call_eq Let_def)
      (simp add: open_world_def mem_world_sel mem_fs_def mem_Read_def Let_def case_prod_beta)
  from concurrent_reads_mix [OF w(1,2), of 0 "backend open_world" 2 "(backend open_world)\<lparr>mem_pos := 2\<rparr>" 1 1 "()", unfolded r]
  show ?thesis by (simp add: w(3))
qed

lemma Open_survives_Unmount_witness:
  "\<exists>ps v h'. pool_step\<^sup>*\<^sup>* ([Open_steps \<lparr>node_path = ''/a''\<rparr> 0, Unmount_steps easy_host []], (mem_world, ())) (ps, (v, h')) \<and>
     unmounting v \<and> handles (handleTracker v) \<noteq> fmempty"
proof -
  have "\<not> unmounting mem_world" "fs_OpenFile (absFS mem_world) (node_path \<lparr>node_path = ''/a''\<rparr>) (mapOpenFlags 0) 0 (backend mem_world) =
      (Inr ''/a'', backend mem_world)"
    by (simp_all add: mem_world_sel mem_fs_sel mem_OpenFile_def)
  from Open_survives_Unmount [OF this, of easy_host "[]" "()"] show ?thesis
    by (metis fmempty_lookup ht_Get_def option.distinct(1) option.simps(4))
qed

lemma Read_uses_closed_file_witness:
  "\<exists>ps v h'. pool_step\<^sup>*\<^sup>* ([Read_steps \<lparr>fh_node = root_node, fh_handle = 1\<rparr> 1 0, Unmount_steps easy_host [1]],
      (snd (serve (ReqOpen \<lparr>node_path = ''/a''\<rparr> 0) watched_world), ())) (ps, (v, h')) \<and> snd (backend v) = None"
proof -
  let ?w = "snd (serve (ReqOpen \<lparr>node_path = ''/a''\<rparr> 0) watched_world)"
  have "absFS ?w = monitored clean_abs mem_fs" "snd (backend ?w) = Some {#''/a''#}"
      "handles (handleTracker ?w) = fmupd 1 \<lparr>he_file = ''/a'', he_refCount = 1, he_flags = 0, he_path = ''/a''\<rparr> fmempty"
    by (simp_all add: watched_world_def newFuseFS_def watched_process_def fuse_Open_def checkUnmounting_def Let_def case_prod_beta
        call_eq monitored_sel mem_fs_sel mem_OpenFile_def mem_process_def watched_def see_path_def clean_abs_def plain_name_def
        ht_Add_def NewHandleTracker_def mapOpenFlags_def)
  then show ?thesis
    by (intro Read_uses_closed_file [where f = "''/a''"]) (simp_all add: open_files_def ht_Get_def)
qed

end
