(* ===== verification/File_Props.thy ===== *)
theory File_Props
  imports Session_Safety
begin

text \<open>
  Properties of the handlers of open files, of permission checks and extended attributes, and of
  mounting.
\<close>

section \<open>Bits of words\<close>

lemma and_bit_iff:
  "x AND 1 = 0 \<longleftrightarrow> \<not> bit (x :: uint32) 0" "x AND 2 = 0 \<longleftrightarrow> \<not> bit (x :: uint32) 1"
  "x AND 4 = 0 \<longleftrightarrow> \<not> bit (x :: uint32) 2" "x AND 0x40 = 0 \<longleftrightarrow> \<not> bit (x :: uint32) 6"
  "x AND 0x80 = 0 \<longleftrightarrow> \<not> bit (x :: uint32) 7" "x AND 0x200 = 0 \<longleftrightarrow> \<not> bit (x :: uint32) 9"
  "x AND 0x400 = 0 \<longleftrightarrow> \<not> bit (x :: uint32) 10"
  using and_exp_eq_0_iff_not_bit [of x 0, unfolded power_0] and_exp_eq_0_iff_not_bit [of x 1]
    and_exp_eq_0_iff_not_bit [of x 2] and_exp_eq_0_iff_not_bit [of x 6] and_exp_eq_0_iff_not_bit [of x 7]
    and_exp_eq_0_iff_not_bit [of x 9] and_exp_eq_0_iff_not_bit [of x 10]
  by simp_all

lemma bit_power: "j < 64 \<Longrightarrow> bit (2 ^ j :: uint64) n \<longleftrightarrow> n = j"
  by (auto simp: bit_exp_iff possible_bit_def)

lemma bit_flags:
  "bit (1 :: uint64) n \<longleftrightarrow> n = 0" "bit (2 :: uint64) n \<longleftrightarrow> n = 1" "bit (0x40 :: uint64) n \<longleftrightarrow> n = 6"
  "bit (0x80 :: uint64) n \<longleftrightarrow> n = 7" "bit (0x200 :: uint64) n \<longleftrightarrow> n = 9" "bit (0x400 :: uint64) n \<longleftrightarrow> n = 10"
  using bit_1_iff [where 'a = uint64, of n] bit_power [of 1 n] bit_power [of 6 n] bit_power [of 7 n] bit_power [of 9 n]
    bit_power [of 10 n] by simp_all

lemma bit_add_flag: "bit (if c then a OR e else a) k \<longleftrightarrow> bit a k \<or> c \<and> bit (e :: uint64) k"
  by (simp add: bit_or_iff)

lemma bit_low: "(7 :: uint32) = mask 3" "(0x1FF :: uint32) = mask 9"
  by (simp_all add: mask_eq_exp_minus_1)

lemma bit_7: "bit (7 :: uint32) k \<longleftrightarrow> k < 3" and bit_0777: "bit (0x1FF :: uint32) k \<longleftrightarrow> k < 9"
  unfolding bit_low bit_mask_iff by (auto simp: possible_bit_def)

lemma and_7_iff: "x AND 7 = 0 \<longleftrightarrow> \<not> bit (x :: uint32) 0 \<and> \<not> bit x 1 \<and> \<not> bit x 2"
proof -
  have bits: "bit (x AND 7) k \<longleftrightarrow> bit x k \<and> k < 3" for k by (simp only: bit_and_iff bit_7)
  show ?thesis
  proof
    assume "x AND 7 = 0"
    then have "\<not> (bit x k \<and> k < 3)" for k using bits [of k] by simp
    from this [of 0] this [of 1] this [of 2] show "\<not> bit x 0 \<and> \<not> bit x 1 \<and> \<not> bit x 2" by simp
  next
    assume low: "\<not> bit x 0 \<and> \<not> bit x 1 \<and> \<not> bit x 2"
    show "x AND 7 = 0"
    proof (rule bit_word_eqI)
      fix k
      show "bit (x AND 7) k = bit 0 k"
        unfolding bits using low less_Suc_eq [of k 2] less_Suc_eq [of k 1]
        by (cases "k = 0") (auto simp: numeral_2_eq_2)
    qed
  qed
qed

section \<open>Properties\<close>

text \<open>\<^verbatim>\<open>mapOpenFlags\<close> keeps exactly the append, create, truncate and exclusive bits of the kernel's
  flags and one access mode, in which write-only wins over read-write; every other bit is dropped.\<close>

theorem mapOpenFlags_bits:
  "bit (mapOpenFlags flags) k \<longleftrightarrow>
     (k = 0 \<or> k = 6 \<or> k = 7 \<or> k = 9 \<or> k = 10) \<and> bit flags k \<or> k = 1 \<and> bit flags 1 \<and> \<not> bit flags 0"
  unfolding mapOpenFlags_def Let_def bit_add_flag and_bit_iff
  by (cases "bit flags 0"; cases "bit flags 1"; simp only: bit_flags bit_or_iff if_True if_False
      not_True_eq_False not_False_eq_True bit_0_eq bot_apply; auto)

text \<open>The permission bits that apply to a caller: the owner's, the group's or the others'.\<close>

definition class_shift :: "FileInfo \<Rightarrow> uint32 \<times> uint32 \<Rightarrow> nat" where
  "class_shift info caller = (if isOwner info (fst caller) then 6 else if isGroup info (snd caller) then 3 else 0)"

text \<open>C30: unless the kernel checks permissions itself, \<^verbatim>\<open>Access\<close> grants a request for an existing file
  exactly when every requested permission (read, write, execute; other bits are ignored) is among
  the permission bits of the class the caller falls into: owner before group before others.\<close>

theorem Access_iff_granted:
  assumes "\<not> unmounting w" and "\<not> DefaultPermissions (opts w)"
    and "fst (fs_Stat (absFS w) (node_path n) (backend w)) = Inr info"
  shows "fst (Access n (Some caller) m w) =
    (if m AND 7 AND NOT (drop_bit (class_shift info caller) (fi_Mode info)) = 0 then OK else EACCES)"
proof -
  obtain uid gid where c: "caller = (uid, gid)" by (cases caller)
  let ?s = "class_shift info caller"
  define cp where "cp = drop_bit ?s (fi_Mode info AND 0x1FF) AND 7"
  define d where "d = drop_bit ?s (fi_Mode info)"
  have s: "?s \<le> 6" by (simp add: class_shift_def)
  have cp: "bit cp k \<longleftrightarrow> bit d k" if "k < 3" for k
    unfolding cp_def d_def using that s by (simp only: bit_and_iff bit_drop_bit_eq bit_7 bit_0777 o_apply) auto
  have eq: "(if isOwner info uid then drop_bit 6 p AND 7 else if isGroup info gid then drop_bit 3 p AND 7 else p AND 7) =
      drop_bit ?s p AND 7" for p :: uint32
    by (simp add: class_shift_def c)
  have "fst (Access n (Some caller) m w) =
      (if m = 0 then OK else if bit m 2 \<and> \<not> bit cp 2 then EACCES else if bit m 1 \<and> \<not> bit cp 1 then EACCES
       else if bit m 0 \<and> \<not> bit cp 0 then EACCES else OK)"
  proof -
    have "fst (Access n (Some caller) m w) =
        (if m = 0 then OK else if m AND 4 \<noteq> 0 \<and> cp AND 4 = 0 then EACCES else if m AND 2 \<noteq> 0 \<and> cp AND 2 = 0 then EACCES
         else if m AND 1 \<noteq> 0 \<and> cp AND 1 = 0 then EACCES else OK)"
      using assms unfolding Access_def Let_def c
      by (simp only: call_eq eq [unfolded c] cp_def [unfolded c, symmetric] checkUnmounting_def recordOperation_sel prod.case sum.case option.case if_False
          fst_conv if_distrib [of fst] cong: if_cong)
    then show ?thesis unfolding and_bit_iff not_not .
  qed
  moreover have "m AND 7 AND NOT d = (m AND NOT d) AND 7" by (simp only: ac_simps)
  moreover have "(m AND NOT d) AND 7 = 0 \<longleftrightarrow> \<not> (bit m 0 \<and> \<not> bit d 0) \<and> \<not> (bit m 1 \<and> \<not> bit d 1) \<and> \<not> (bit m 2 \<and> \<not> bit d 2)"
    unfolding and_7_iff by (simp add: bit_and_iff bit_not_iff possible_bit_def)
  ultimately show ?thesis
    using cp [of 0] cp [of 1] cp [of 2] by (auto simp: d_def [symmetric])
qed

lemma Access_iff_granted_witness:
  "fst (Access \<lparr>node_path = ''/a''\<rparr> (Some (5, 5)) 2
     (mem_world\<lparr>opts := (DefaultMountOptions ''/mnt'')\<lparr>DefaultPermissions := False\<rparr>\<rparr>)) = EACCES"
  using Access_iff_granted [of "mem_world\<lparr>opts := (DefaultMountOptions ''/mnt'')\<lparr>DefaultPermissions := False\<rparr>\<rparr>"
      "\<lparr>node_path = ''/a''\<rparr>" "mem_info ''a'' [1, 2, 3]" "(5, 5)" 2]
  by (simp add: mem_world_def newFuseFS_def mem_process_def mem_fs_def mem_Stat_def class_shift_def isOwner_def
      isGroup_def mem_info_def)

section \<open>Lists of attribute names\<close>

text \<open>What the kernel expects in the buffer: every name with a NUL after it; and how it reads it back.\<close>

definition encode_names :: "bytes list \<Rightarrow> bytes" where
  "encode_names attrs = concat (map (\<lambda>a. a @ [0]) attrs)"

fun decode_names :: "bytes \<Rightarrow> bytes \<Rightarrow> bytes list" where
  "decode_names acc [] = []"
| "decode_names acc (b # bs) = (if b = 0 then rev acc # decode_names [] bs else decode_names (b # acc) bs)"

lemma decode_name: "0 \<notin> set a \<Longrightarrow> decode_names acc (a @ 0 # bs) = (rev acc @ a) # decode_names [] bs"
  by (induction a arbitrary: acc) auto

lemma decode_encode: "\<forall>a \<in> set attrs. 0 \<notin> set a \<Longrightarrow> decode_names [] (encode_names attrs) = attrs"
  by (induction attrs) (simp_all add: encode_names_def decode_name)

lemma length_encode: "length (encode_names attrs) = sum_list (map (\<lambda>a. length a + 1) attrs)"
  by (induction attrs) (simp_all add: encode_names_def)

lemma copy_fits: "off + length src \<le> length dest \<Longrightarrow> copy_at off src dest = take off dest @ src @ drop (off + length src) dest"
  by (simp add: copy_at_def Let_def)

lemma copy_length: "off \<le> length dest \<Longrightarrow> length (copy_at off src dest) = length dest"
  by (cases src) (auto simp: copy_at_def Let_def min_def)

lemma listxattr_loop_eq:
  "off \<le> length dest \<Longrightarrow> listxattr_loop attrs off dest =
     (if off + length (encode_names attrs) \<le> length dest
      then Some (off + length (encode_names attrs),
             take off dest @ encode_names attrs @ drop (off + length (encode_names attrs)) dest)
      else None)"
proof (induction attrs arbitrary: off dest)
  case Nil
  then show ?case by (simp add: encode_names_def)
next
  case (Cons a attrs)
  have enc: "encode_names (a # attrs) = a @ 0 # encode_names attrs" by (simp add: encode_names_def)
  show ?case
  proof (cases "off + length a < length dest")
    case False
    with Cons.prems show ?thesis by (simp add: enc copy_length Let_def)
  next
    case True
    let ?d = "(copy_at off a dest)[off + length a := 0]"
    have "take off dest @ a @ drop (off + length a) dest =
        (take off dest @ a) @ dest ! (off + length a) # drop (Suc (off + length a)) dest"
      using True by (simp add: Cons_nth_drop_Suc)
    then have d: "?d = (take off dest @ a @ [0]) @ drop (off + length a + 1) dest"
      using True Cons.prems by (simp add: copy_fits list_update_append)
    have len: "length ?d = length dest" using Cons.prems by (simp add: copy_length)
    have pre: "length (take off dest @ a @ [0]) = off + length a + 1" using Cons.prems by simp
    from True have "off + length a + 1 \<le> length ?d" by (simp only: len)
    from Cons.IH [OF this] show ?thesis
      using True Cons.prems by (auto simp: enc Let_def copy_length len d ac_simps simp del: length_list_update)
  qed
qed

lemma Listxattr_eq:
  assumes "\<not> unmounting w" and "fs_XAttr (absFS w) = Some xa"
    and "fst (xa_List xa (node_path n) (backend w)) = Inr attrs"
  shows "fst (Listxattr n None w) = Some (Inr (of_nat (length (encode_names attrs)), None))"
    and "fst (Listxattr n (Some dest) w) =
      (if length (encode_names attrs) \<le> length dest
       then Some (Inr (of_nat (length (encode_names attrs)),
              Some (encode_names attrs @ drop (length (encode_names attrs)) dest)))
       else None)"
  using assms listxattr_loop_eq [of 0 dest attrs]
  by (simp_all add: Listxattr_def Let_def checkUnmounting_def call_eq length_encode)

text \<open>C31: \<^verbatim>\<open>Listxattr\<close> round-trips. When the backend lists names without NUL bytes, a nil buffer is answered with
  the size needed; a buffer of at least that size receives bytes that read back as exactly those
  names, and keeps its bytes beyond them; with a smaller buffer the method panics.\<close>

theorem Listxattr_roundtrip:
  assumes "\<not> unmounting w" and "fs_XAttr (absFS w) = Some xa"
    and "fst (xa_List xa (node_path n) (backend w)) = Inr attrs" and "\<forall>a \<in> set attrs. 0 \<notin> set a"
  shows "\<exists>total. fst (Listxattr n None w) = Some (Inr (of_nat total, None)) \<and>
    (case fst (Listxattr n (Some dest) w) of
       None \<Rightarrow> length dest < total
     | Some r \<Rightarrow> total \<le> length dest \<and> (\<exists>buf. r = Inr (of_nat total, Some buf) \<and> length buf = length dest \<and>
         decode_names [] (take total buf) = attrs \<and> drop total buf = drop total dest))"
  by (rule exI [of _ "length (encode_names attrs)"])
     (simp add: Listxattr_eq [OF assms(1-3)] decode_encode [OF assms(4)])

definition xattr_world :: "(mem, string) FuseFS" where
  "xattr_world = mem_world\<lparr>absFS := mem_fs\<lparr>fs_XAttr := Some \<lparr>xa_Get = (\<lambda>p a m. (Inr [7], m)), xa_Set = (\<lambda>p a v fl m. (None, m)),
     xa_List = (\<lambda>p m. (Inr [[1, 2], [3]], m)), xa_Remove = (\<lambda>p a m. (None, m))\<rparr>\<rparr>\<rparr>"

lemma Listxattr_roundtrip_witness:
  "\<exists>total. fst (Listxattr root_node None xattr_world) = Some (Inr (of_nat total, None))"
  using Listxattr_roundtrip [of xattr_world "\<lparr>xa_Get = (\<lambda>p a m. (Inr [7], m)), xa_Set = (\<lambda>p a v fl m. (None, m)),
     xa_List = (\<lambda>p m. (Inr [[1, 2], [3]], m)), xa_Remove = (\<lambda>p a m. (None, m))\<rparr>" root_node "[[1, 2], [3]]" "[9, 9, 9, 9, 9, 9]"]
  by (auto simp: xattr_world_def mem_world_def newFuseFS_def mem_fs_def)

section \<open>Traffic\<close>

fun serve_all :: "request list \<Rightarrow> ('b, 'f) FuseFS \<Rightarrow> response list \<times> ('b, 'f) FuseFS" where
  "serve_all [] w = ([], w)"
| "serve_all (r # rs) w = (let (resp, w) = serve r w; (resps, w) = serve_all rs w in (resp # resps, w))"

text \<open>The contract of \<^verbatim>\<open>io.Writer\<close>: at most the given bytes are written.\<close>

definition writes_at_most :: "('b, 'f) absFS \<Rightarrow> bool" where
  "writes_at_most fs \<longleftrightarrow> (\<forall>f data b. unat (fst (fst (f_Write fs f data b))) \<le> length data)"

fun small_write :: "request \<Rightarrow> bool" where
  "small_write (ReqWrite fh data off) = (length data < 2 ^ 32)"
| "small_write _ = True"

lemma serve_absFS: "absFS (snd (serve r w)) = absFS w"
  using config_serve [of r w] by (simp add: config_def)

lemma ucast_small: "unat (j :: uint64) < 2 ^ 32 \<Longrightarrow> ucast (ucast j :: uint32) = j"
  by (rule word_unat_eq_iff [THEN iffD2]) (simp add: unsigned_ucast_eq unsigned_take_bit_eq take_bit_nat_eq_self)

lemma serve_traffic:
  assumes "writes_at_most (absFS w)" and "small_write r"
  shows "bytesRead (stats (snd (serve r w))) = bytesRead (stats w) + bytes_in r (fst (serve r w)) \<and>
    bytesWritten (stats (snd (serve r w))) = bytesWritten (stats w) + bytes_out r (fst (serve r w))"
proof (cases "\<exists>fh data off. r = ReqWrite fh data off")
  case False
  then have "bytes_out r (fst (serve r w)) = 0" by (cases r) simp_all
  with False serve_counted [of r w] show ?thesis by (cases r) (auto simp: counted_def)
next
  case True
  then obtain fh data off where r: "r = ReqWrite fh data off" by blast
  obtain k e j where c: "counted k e 0 j w (snd (serve r w))" and b: "bytes_out r (fst (serve r w)) = ucast (ucast j :: uint32)"
      and j: "j = 0 \<or> (\<exists>f b. j = fst (fst (f_Write (absFS w) f data b)))"
    using serve_counted [of r w] unfolding r request.case bytes_in.simps by blast
  have "unat j < 2 ^ 32" using j assms r by (auto simp: writes_at_most_def intro: le_less_trans)
  with c b show ?thesis by (simp add: counted_def ucast_small r)
qed

text \<open>C32: the traffic counters are exact. Over any sequence of requests the \<^verbatim>\<open>BytesRead\<close> of \<^verbatim>\<open>Stats\<close> grows by
  the lengths of the data the reads returned, and \<^verbatim>\<open>BytesWritten\<close> by the counts the writes reported
  (modulo 2 to the 64), provided the backend's \<^verbatim>\<open>Write\<close> keeps the contract of \<^verbatim>\<open>io.Writer\<close> and no
  request writes 4 GiB at once.\<close>

theorem traffic_totals:
  assumes "writes_at_most (absFS w)" and "list_all small_write rs"
  shows "st_BytesRead (FuseFS_Stats (snd (serve_all rs w))) =
      st_BytesRead (FuseFS_Stats w) + sum_list (map2 bytes_in rs (fst (serve_all rs w))) \<and>
    st_BytesWritten (FuseFS_Stats (snd (serve_all rs w))) =
      st_BytesWritten (FuseFS_Stats w) + sum_list (map2 bytes_out rs (fst (serve_all rs w)))"
  using assms
proof (induction rs arbitrary: w)
  case Nil
  then show ?case by simp
next
  case (Cons r rs)
  have "writes_at_most (absFS (snd (serve r w)))" using Cons.prems(1) by (simp add: serve_absFS)
  with Cons.IH [of "snd (serve r w)"] Cons.prems serve_traffic [of w r] show ?case
    by (simp add: Let_def case_prod_beta FuseFS_Stats_def snapshot_def)
qed

lemma mem_writes: "writes_at_most mem_fs"
  by (auto simp: writes_at_most_def mem_fs_def mem_Write_def Let_def unat_of_nat split: option.split)

lemma traffic_totals_witness:
  "st_BytesWritten (FuseFS_Stats (snd (serve_all [ReqOpen \<lparr>node_path = ''/a''\<rparr> 2,
     ReqWrite \<lparr>fh_node = \<lparr>node_path = ''/a''\<rparr>, fh_handle = 1\<rparr> [5, 6] 0] mem_world))) = 2"
  using traffic_totals [of mem_world "[ReqOpen \<lparr>node_path = ''/a''\<rparr> 2,
     ReqWrite \<lparr>fh_node = \<lparr>node_path = ''/a''\<rparr>, fh_handle = 1\<rparr> [5, 6] 0]"] mem_writes
  by (simp add: mem_world_def newFuseFS_def mem_process_def mem_fs_def mem_OpenFile_def mem_Write_def Let_def
      fuse_Open_def fuse_Write_def checkUnmounting_def call_def mapOpenFlags_def ht_Add_def ht_Get_def
      NewHandleTracker_def seek_start_def FuseFS_Stats_def snapshot_def newStatsCollector_def)

section \<open>Preallocation, release and locks\<close>

lemma sint_wrapped:
  assumes "2 ^ 63 \<le> unat (x :: int64)"
  shows "sint x < 0"
proof -
  have "int (2 ^ 63) \<le> int (unat x)" using assms by (simp only: of_nat_le_iff)
  then have u: "2 ^ 63 \<le> uint x" "uint x < 2 ^ 64" using uint_lt2p [of x] by simp_all
  have "sint x = (uint x + 2 ^ 63) mod 2 ^ 64 - 2 ^ 63"
    using int_word_sint [where 'a = 64, of "uint x"] by simp
  also have "(uint x + 2 ^ 63) mod 2 ^ 64 = (uint x - 2 ^ 63 + 2 ^ 64) mod 2 ^ 64" by (simp add: add.commute)
  also have "\<dots> = uint x - 2 ^ 63" using u by (simp only: mod_add_self2 mod_pos_pos_trivial) simp
  finally show ?thesis using u by simp
qed

text \<open>The emulated \<^verbatim>\<open>Allocate\<close> reports success for a range it cannot extend to. When the end of the range,
  offset plus size, lies at or above 2 to the 63, the sum read as \<^verbatim>\<open>int64\<close> is negative, so the file is
  looked at but not extended, and the answer is 0.\<close>

theorem Allocate_huge_ignored:
  assumes "ht_Get (fh_handle fh) (handleTracker w) = Some f" and "f_Allocate (absFS w) f = None"
    and "f_Truncate (absFS w) f = Some trunc" and "fst (f_Stat (absFS w) f (backend w)) = Inr info"
    and "0 \<le> sint (fi_Size info)" and "2 ^ 63 \<le> unat off + unat sz" and "unat off + unat sz < 2 ^ 64"
  shows "fst (fuse_Allocate fh off sz 0 w) = OK \<and>
    backend (snd (fuse_Allocate fh off sz 0 w)) = snd (f_Stat (absFS w) f (backend w))"
proof -
  have "unat (off + sz) = unat off + unat sz"
    using assms(7) by (subst unat_word_ariths(1)) simp
  then have "sint (off + sz) < 0" using assms(6) by (intro sint_wrapped) simp
  with assms(5) have "\<not> sint (off + sz) > sint (fi_Size info)" by simp
  with assms(1-4) show ?thesis by (simp add: fuse_Allocate_def Let_def call_eq)
qed

definition trunc_world :: "(mem, string) FuseFS" where
  "trunc_world = mem_world\<lparr>absFS := mem_fs\<lparr>f_Truncate := (\<lambda>f. Some (\<lambda>sz m. (None, m)))\<rparr>,
     handleTracker := \<lparr>handles = fmupd 1 \<lparr>he_file = ''/a'', he_refCount = 1, he_flags = 2, he_path = ''/a''\<rparr> fmempty,
       nextHandle = 1\<rparr>\<rparr>"

lemma Allocate_huge_ignored_witness:
  "fst (fuse_Allocate \<lparr>fh_node = root_node, fh_handle = 1\<rparr> 0x4000000000000000 0x4000000000000000 0 trunc_world) = OK"
  using Allocate_huge_ignored [of "\<lparr>fh_node = root_node, fh_handle = 1\<rparr>" trunc_world "''/a''" "\<lambda>sz m. (None, m)"
      "mem_info ''a'' [1, 2, 3]" "0x4000000000000000" "0x4000000000000000"]
  by (simp add: trunc_world_def mem_world_def newFuseFS_def mem_process_def mem_fs_def mem_Stat_def ht_Get_def mem_info_def)

text \<open>Releasing a file handle drops exactly the locks whose owner is the handle's own number, on every
  path and for every client: the POSIX locks and flocks recorded under the kernel's lock owners
  survive the close unless an owner happens to equal the handle number.\<close>

theorem Release_drops_handle_owner:
  "locks_of p (lockManager (snd (fuse_Release fh w))) =
     filter (\<lambda>l. lk_owner l \<noteq> fh_handle fh) (locks_of p (lockManager w)) \<and>
   flock_held (lockManager (snd (fuse_Release fh w))) = {c \<in> flock_held (lockManager w). fst (snd c) \<noteq> fh_handle fh}"
  by (simp add: fuse_Release_def Let_def case_prod_beta locks_of_ReleaseOwner flock_held_ReleaseOwner)

section \<open>Mounting\<close>

text \<open>C40: \<^verbatim>\<open>Mount\<close> succeeds only with options and a mountpoint, after creating the mountpoint and finding it
  empty, and after go-fuse has mounted the root with the options asked for: the given ones, then
  \<^verbatim>\<open>ro\<close>, \<^verbatim>\<open>direct_io\<close>, \<^verbatim>\<open>default_permissions\<close> and \<^verbatim>\<open>allow_root\<close>, each exactly when it is set. The adapter it
  returns has counted nothing, holds no file, no lock and no inode, and is not unmounting.\<close>

theorem Mount_guards:
  assumes "Mount os p fs mopts h = (Inr w, h')"
  shows "\<exists>mo h1 h2. mopts = Some mo \<and> Mountpoint mo \<noteq> '''' \<and> os_MkdirAll os (Mountpoint mo) 0x1ED h = (None, h1) \<and>
    os_ReadDir os (Mountpoint mo) h1 = (Inr [], h2) \<and>
    go_fuse_Mount os (Mountpoint mo) root_node (build_options mo) h2 = (None, h') \<and>
    fo_Options (build_options mo) = Options mo @ (if ReadOnly mo then [''ro''] else []) @
      (if DirectIO mo then [''direct_io''] else []) @
      (if DefaultPermissions mo then [''default_permissions''] else []) @
      (if AllowRoot mo then [''allow_root''] else []) \<and>
    FuseFS_Stats w = (snapshot newStatsCollector)\<lparr>st_Mountpoint := Mountpoint mo,
      st_InodeStats := im_Stats (inodeManager w)\<rparr> \<and> TotalInodes (im_Stats (inodeManager w)) = 0 \<and>
    lockManager w = NewLockManager \<and> \<not> unmounting w \<and> server w"
proof -
  obtain mo h1 h2 where run: "mopts = Some mo" "Mountpoint mo \<noteq> ''''" "os_MkdirAll os (Mountpoint mo) 0x1ED h = (None, h1)"
      "os_ReadDir os (Mountpoint mo) h1 = (Inr [], h2)"
      "go_fuse_Mount os (Mountpoint mo) root_node (build_options mo) h2 = (None, h')"
      "w = (newFuseFS p fs mo)\<lparr>server := True\<rparr>"
    using assms by (auto simp: Mount_def Let_def split: option.splits if_splits sum.splits prod.splits)
  have "fo_Options (build_options mo) = Options mo @ (if ReadOnly mo then [''ro''] else []) @
      (if DirectIO mo then [''direct_io''] else []) @
      (if DefaultPermissions mo then [''default_permissions''] else []) @
      (if AllowRoot mo then [''allow_root''] else [])"
    by (simp add: build_options_def Let_def)
  with run show ?thesis
    by (intro exI [of _ mo] exI [of _ h1] exI [of _ h2])
       (simp add: newFuseFS_def FuseFS_Stats_def snapshot_def ht_Count_def NewHandleTracker_def im_Stats_def
         NewInodeManager_def newStatsCollector_def Let_def)
qed

lemma Mount_guards_witness: "\<not> unmounting mem_world \<and> server mem_world"
  using Mount_guards [OF mem_mount] by blast

end
