(* ===== verification/Entry_Replies.thy ===== *)
theory Entry_Replies
  imports File_Props
begin

text \<open>
  What the entries say that \<^verbatim>\<open>Lookup\<close>, \<^verbatim>\<open>Create\<close>, \<^verbatim>\<open>Mkdir\<close>, \<^verbatim>\<open>Symlink\<close> and \<^verbatim>\<open>Link\<close> answer: the node,
  file type and number handed to go-fuse, and the attributes and time-outs in the reply buffer,
  against what the backend said of the path when the handler asked.
\<close>

text \<open>The path and the reply buffer of an entry.\<close>

fun entry_place :: "request \<Rightarrow> (string \<times> nat) option" where
  "entry_place (ReqLookup n name out) = Some (path_Join (node_path n) name, out)"
| "entry_place (ReqCreate n name flags mode out) = Some (path_Join (node_path n) name, out)"
| "entry_place (ReqMkdir n name mode out) = Some (path_Join (node_path n) name, out)"
| "entry_place (ReqSymlink n target name out) = Some (path_Join (node_path n) name, out)"
| "entry_place (ReqLink n target name out) = Some (path_Join (node_path n) name, out)"
| "entry_place _ = None"

text \<open>What the backend does first, and what it then says of the path; a link is asked for without following it
  where the backend can.\<close>

fun changed :: "request \<Rightarrow> ('b, 'f) FuseFS \<Rightarrow> 'b" where
  "changed (ReqCreate n name flags mode out) w =
     snd (fs_OpenFile (absFS w) (path_Join (node_path n) name) (mapOpenFlags flags OR 0x40) mode (backend w))"
| "changed (ReqMkdir n name mode out) w = snd (fs_Mkdir (absFS w) (path_Join (node_path n) name) mode (backend w))"
| "changed (ReqSymlink n target name out) w = (case fs_Symlink (absFS w) of
     None \<Rightarrow> backend w
   | Some symlink \<Rightarrow> snd (symlink target (path_Join (node_path n) name) (backend w)))"
| "changed (ReqLink n (Some m) name out) w = (case fs_Link (absFS w) of
     None \<Rightarrow> backend w
   | Some link \<Rightarrow> snd (link (node_path m) (path_Join (node_path n) name) (backend w)))"
| "changed _ w = backend w"

fun told :: "request \<Rightarrow> string \<Rightarrow> ('b, 'f) FuseFS \<Rightarrow> goerr + FileInfo" where
  "told (ReqSymlink n target name out) p w = (case fs_Lstat (absFS w) of
     Some lstat \<Rightarrow> fst (lstat p (changed (ReqSymlink n target name out) w))
   | None \<Rightarrow> fst (fs_Stat (absFS w) p (changed (ReqSymlink n target name out) w)))"
| "told r p w = fst (fs_Stat (absFS w) p (changed r w))"

text \<open>The file type: only a look-up has to ask.\<close>

fun file_type :: "request \<Rightarrow> FileInfo \<Rightarrow> uint32" where
  "file_type (ReqLookup n name out) info = (if fi_IsDir info then S_IFDIR else S_IFREG)"
| "file_type (ReqMkdir n name mode out) info = S_IFDIR"
| "file_type (ReqSymlink n target name out) info = S_IFLNK"
| "file_type _ info = S_IFREG"

fun entry_of :: "response \<Rightarrow> childInode option" where
  "entry_of (RNode c) = Some c"
| "entry_of (RCreated c fh) = Some c"
| "entry_of _ = None"

definition describes :: "('b, 'f) FuseFS \<Rightarrow> fuseOut \<Rightarrow> InodeManager \<Rightarrow> string \<Rightarrow> uint32 \<Rightarrow> FileInfo \<Rightarrow> childInode \<Rightarrow> bool" where
  "describes w buf im path mode info c \<longleftrightarrow>
     node_path (ci_node c) = path \<and> ci_Mode c = mode \<and>
     fmlookup (pathToInode im) path = Some (ci_Ino c) \<and> a_Ino (o_Attr buf) = ci_Ino c \<and>
     a_Size (o_Attr buf) = fi_Size info \<and> a_Mode (o_Attr buf) = fi_Mode info \<and>
     a_Blocks (o_Attr buf) = (fi_Size info + 511) div 512 \<and>
     a_Mtime (o_Attr buf) = of_int (fi_ModTime info div 1000000000) \<and>
     a_Mtimensec (o_Attr buf) = of_int (fi_ModTime info mod 1000000000) \<and>
     a_Uid (o_Attr buf) = (if UID (opts w) \<noteq> 0 then UID (opts w) else os_Getuid w) \<and>
     a_Gid (o_Attr buf) = (if GID (opts w) \<noteq> 0 then GID (opts w) else os_Getgid w) \<and>
     o_EntryTimeout buf = EntryTimeout (opts w) \<and> o_AttrTimeout buf = AttrTimeout (opts w)"

lemma GetInode_lookup: "fmlookup (pathToInode (snd (GetInode p info im))) p = Some (fst (GetInode p info im))"
  by (simp add: GetInode_def allocate_inode_def storeMetaLocked_def Let_def split: option.split)

lemma new_entry_describes:
  assumes "opts w = opts v" and "os_Getuid w = os_Getuid v" and "os_Getgid w = os_Getgid v"
  shows "describes v (outs (snd (new_entry p mode info out w)) out) (inodeManager (snd (new_entry p mode info out w))) p mode info
    (fst (new_entry p mode info out w))"
  using assms GetInode_lookup [of p info "inodeManager w"]
  by (simp add: describes_def new_entry_def on_inodes_eq fillAttr_def set_attr_def SetEntryTimeout_def SetAttrTimeout_def Let_def)

text \<open>C18: an entry describes what the backend said. When a request answers a child, the backend reported on the path
  after the change the request made, and the answer is its description: a node at the joined path, a directory in a
  look-up if and only if the backend says so and else of the type the request makes, the inode
  number the manager now has for the path, and in the reply buffer that number and the reported size,
  blocks, mode and modification time, the owner of the options or of the process, and the configured
  time-outs.\<close>

theorem entry_describes_backend:
  assumes "entry_of (fst (serve r w)) = Some c"
  shows "\<exists>path out info. entry_place r = Some (path, out) \<and> told r path w = Inr info \<and>
    describes w (outs (snd (serve r w)) out) (inodeManager (snd (serve r w))) path (file_type r info) info c"
  using assms
  by (cases r) (auto simp: handler_defs Let_def case_prod_beta world_eqs new_entry_describes invalidate_dir_def
      split: sum.splits option.splits if_splits)

lemma entry_describes_backend_witness:
  "\<exists>c. fst (serve (ReqLookup root_node ''a'' 0) mem_world) = RNode c \<and> ci_Mode c = 0x8000 \<and>
     a_Size (o_Attr (outs (snd (serve (ReqLookup root_node ''a'' 0) mem_world)) 0)) = 3"
proof -
  have j: "path_Join ''/'' ''a'' = ''/a''" by (simp add: path_Join_def path_Clean_def)
  obtain c where c: "fst (serve (ReqLookup root_node ''a'' 0) mem_world) = RNode c"
    by (auto simp: Lookup_def Let_def case_prod_beta world_eqs checkUnmounting_def mem_world_sel mem_fs_sel mem_Stat_def
        root_node_def j split: sum.split)
  with entry_describes_backend [of "ReqLookup root_node ''a'' 0" mem_world c] show ?thesis
    by (auto simp: describes_def mem_world_sel mem_fs_sel mem_Stat_def mem_info_def root_node_def j)
qed

end
