(* ===== verification/File_Contents.thy ===== *)
theory File_Contents
  imports Entry_Replies "HOL-Library.Sublist"
begin

text \<open>
  Reading and writing as operations on the contents of a file. The backend is assumed to keep what
  \<^verbatim>\<open>io.Seeker\<close>, \<^verbatim>\<open>io.Reader\<close> and \<^verbatim>\<open>io.Writer\<close> document: \<open>positional\<close>. Calls may fail, and a \<^verbatim>\<open>Read\<close> may
  return fewer bytes than there are.
\<close>

text \<open>Writing \<open>data\<close> at position \<open>pos\<close>; a gap after the old end is filled with zeros, and writing nothing
  changes nothing.\<close>

definition overwrite :: "bytes \<Rightarrow> nat \<Rightarrow> bytes \<Rightarrow> bytes" where
  "overwrite content pos data =
     (if data = [] then content
      else take pos (content @ replicate (pos - length content) 0) @ data @ drop (pos + length data) content)"









lemma overwrite_Nil [simp]: "overwrite c p [] = c"
  by (simp add: overwrite_def)







end
