(* ===== verification/Session_Spec.thy ===== *)
theory Session_Spec
  imports Backend_Protocol Entry_Replies
begin

text \<open>
  An abstract specification of a mounted file system, and that sessions refine it. The abstract state
  has the open handles with their path and flags, the numbers of the paths, the locks and whether the
  file system was unmounted; caches, counters, the two-way maps of the inode manager, the reference
  counts and the backend are gone. The specification says for every event and its answer how each
  part changes, so a handler that forgets to record, to release or to clear does not meet it.
\<close>

section \<open>The specification\<close>

record spec_state =
  open_handles :: "uint64 \<Rightarrow> (string \<times> uint64) option"
  path_numbers :: "string \<Rightarrow> uint64 option"
  all_locks :: LockManager
  is_unmounted :: bool

definition spec_start :: spec_state where
  "spec_start = \<lparr>open_handles = Map.empty, path_numbers = Map.empty, all_locks = NewLockManager, is_unmounted = False\<rparr>"

text \<open>Handles: \<^verbatim>\<open>Open\<close> and \<^verbatim>\<open>Create\<close>, when they succeed, add one that was not there; \<^verbatim>\<open>Release\<close> takes one away.\<close>

fun spec_handles :: "request \<Rightarrow> response \<Rightarrow> (uint64 \<Rightarrow> (string \<times> uint64) option) \<Rightarrow> (uint64 \<Rightarrow> (string \<times> uint64) option) \<Rightarrow> bool" where
  "spec_handles (ReqOpen n flags) resp H H' = (case resp of
     RHandle fh \<Rightarrow> H (fh_handle fh) = None \<and> fh_node fh = n \<and>
       H' = H(fh_handle fh \<mapsto> (node_path n, mapOpenFlags flags))
   | _ \<Rightarrow> H' = H)"
| "spec_handles (ReqCreate n name flags mode out) resp H H' = (case resp of
     RCreated c fh \<Rightarrow> H (fh_handle fh) = None \<and> fh_node fh = ci_node c \<and>
       H' = H(fh_handle fh \<mapsto> (path_Join (node_path n) name, mapOpenFlags flags OR 0x40))
   | _ \<Rightarrow> H' = H)"
| "spec_handles (ReqRelease fh) resp H H' =
     ((H (fh_handle fh) = None \<longrightarrow> resp = RErrno EBADF) \<and> H' = H(fh_handle fh := None))"
| "spec_handles r resp H H' = (H' = H)"

text \<open>Locks: the lock requests act on the path of their handle's node; \<^verbatim>\<open>Release\<close> drops the locks under its handle
  number.\<close>

fun spec_locks :: "request \<Rightarrow> response \<Rightarrow> LockManager \<Rightarrow> LockManager \<Rightarrow> bool" where
  "spec_locks (ReqGetlk fh owner lk) resp L L' =
     (L' = L \<and> resp = (case Getlk (node_path (fh_node fh)) owner lk L of (e, lock) \<Rightarrow> RLock e lock))"
| "spec_locks (ReqSetlk fh owner lk) resp L L' =
     (case Setlk (node_path (fh_node fh)) owner lk L of (e, M) \<Rightarrow> resp = RErrno e \<and> L' = M)"
| "spec_locks (ReqSetlkw fh owner lk) resp L L' =
     (case Setlkw (node_path (fh_node fh)) owner lk L of (e, M) \<Rightarrow> resp = RErrno e \<and> L' = M)"
| "spec_locks (ReqFlock fh owner flags) resp L L' =
     (case Flock (node_path (fh_node fh)) owner flags L of (e, M) \<Rightarrow> resp = RErrno e \<and> L' = M)"
| "spec_locks (ReqRelease fh) resp L L' = (L' = ReleaseOwner (fh_handle fh) L)"
| "spec_locks r resp L L' = (L' = L)"

text \<open>Numbers: an entry that is answered has the number its path now has. A listing may number the files it
  names, and reading attributes the node itself; no path loses its number, and nothing else is
  numbered.\<close>

definition only_numbers :: "string set \<Rightarrow> (string \<Rightarrow> uint64 option) \<Rightarrow> (string \<Rightarrow> uint64 option) \<Rightarrow> bool" where
  "only_numbers ps I I' \<longleftrightarrow> (\<forall>p. (p \<notin> ps \<longrightarrow> I' p = I p) \<and> (I p \<noteq> None \<longrightarrow> I' p \<noteq> None))"

fun spec_numbers :: "request \<Rightarrow> response \<Rightarrow> (string \<Rightarrow> uint64 option) \<Rightarrow> (string \<Rightarrow> uint64 option) \<Rightarrow> bool" where
  "spec_numbers (ReqReaddir n) resp I I' = (case resp of
     REntries es \<Rightarrow> only_numbers ((\<lambda>e. path_Join (node_path n) (de_Name e)) ` set es) I I'
   | _ \<Rightarrow> I' = I)"
| "spec_numbers (ReqGetattr n out) resp I I' = only_numbers {node_path n} I I'"
| "spec_numbers (ReqSetattr n f sain out) resp I I' = only_numbers {node_path n} I I'"
| "spec_numbers r resp I I' = (case (entry_place r, entry_of resp) of
     (Some (p, out), Some c) \<Rightarrow> I' = I(p \<mapsto> ci_Ino c)
   | _ \<Rightarrow> I' = I)"

fun spec_event :: "event \<Rightarrow> response \<Rightarrow> spec_state \<Rightarrow> spec_state \<Rightarrow> bool" where
  "spec_event (Serve r) resp s s' \<longleftrightarrow>
     spec_handles r resp (open_handles s) (open_handles s') \<and> spec_locks r resp (all_locks s) (all_locks s') \<and>
     spec_numbers r resp (path_numbers s) (path_numbers s') \<and> is_unmounted s' = is_unmounted s \<and>
     (is_unmounted s \<longrightarrow> on_handle r = None \<longrightarrow> errno_of resp = Some ENOTCONN \<and> s' = s)"
| "spec_event (Shutdown order) resp s s' \<longleftrightarrow>
     s' = s\<lparr>open_handles := Map.empty, path_numbers := Map.empty, is_unmounted := True\<rparr>"

section \<open>Sessions refine it\<close>

definition spec_of :: "('b, 'f) FuseFS \<Rightarrow> spec_state" where
  "spec_of w = \<lparr>
     open_handles = (\<lambda>fh. map_option (\<lambda>e. (he_path e, he_flags e)) (fmlookup (handles (handleTracker w)) fh)),
     path_numbers = fmlookup (pathToInode (inodeManager w)),
     all_locks = lockManager w, is_unmounted = unmounting w\<rparr>"

text \<open>What the parts of the abstract state do not see.\<close>

lemma numbers_frame:
  "pathToInode (snd (GetCached t p im)) = pathToInode im" "pathToInode (snd (GetDirCache t p im)) = pathToInode im"
  "pathToInode (Cache t u p a im) = pathToInode im" "pathToInode (CacheDir t u p es im) = pathToInode im"
  "pathToInode (InvalidateDir p im) = pathToInode im"
  by (simp_all add: GetCached_def GetDirCache_def Cache_def CacheDir_def InvalidateDir_def split: prod.split option.split)

lemma GetInode_numbers:
  "pathToInode (snd (GetInode p info im)) = fmupd p (fst (GetInode p info im)) (pathToInode im)"
  by (auto simp: GetInode_def allocate_inode_def storeMetaLocked_def deleteMetaLocked_def Let_def intro!: fmap_ext
      split: option.split)

lemma only_numbers_refl: "only_numbers ps I I"
  by (simp add: only_numbers_def)

lemma only_numbers_trans: "only_numbers ps I J \<Longrightarrow> only_numbers qs J K \<Longrightarrow> ps \<subseteq> rs \<Longrightarrow> qs \<subseteq> rs \<Longrightarrow> only_numbers rs I K"
  unfolding only_numbers_def by (metis subsetD)

lemma only_numbers_upd: "p \<in> ps \<Longrightarrow> only_numbers ps (fmlookup m) (fmlookup (fmupd p i m))"
  by (simp add: only_numbers_def)

lemma parts_accesses:
  "lockManager (snd (on_inodes m w)) = lockManager w" "unmounting (snd (on_inodes m w)) = unmounting w"
  "lockManager (snd (read_cached p w)) = lockManager w" "unmounting (snd (read_cached p w)) = unmounting w"
  "lockManager (snd (read_dircache p w)) = lockManager w" "unmounting (snd (read_dircache p w)) = unmounting w"
  "lockManager (write_cached p a w) = lockManager w" "unmounting (write_cached p a w) = unmounting w"
  "lockManager (write_dircache p es w) = lockManager w" "unmounting (write_dircache p es w) = unmounting w"
  "lockManager (invalidate_dir p w) = lockManager w" "unmounting (invalidate_dir p w) = unmounting w"
  "lockManager (fillAttr out info ino w) = lockManager w" "unmounting (fillAttr out info ino w) = unmounting w"
  "lockManager (set_attr out at w) = lockManager w" "unmounting (set_attr out at w) = unmounting w"
  "lockManager (SetAttrTimeout out t w) = lockManager w" "unmounting (SetAttrTimeout out t w) = unmounting w"
  "lockManager (SetEntryTimeout out t w) = lockManager w" "unmounting (SetEntryTimeout out t w) = unmounting w"
  "lockManager (snd (call g w)) = lockManager w" "unmounting (snd (call g w)) = unmounting w"
  "inodeManager (snd (call g w)) = inodeManager w" "inodeManager (fillAttr out info ino w) = inodeManager w"
  "inodeManager (set_attr out at w) = inodeManager w" "inodeManager (SetAttrTimeout out t w) = inodeManager w"
  "inodeManager (SetEntryTimeout out t w) = inodeManager w"
  "pathToInode (inodeManager (snd (read_cached p w))) = pathToInode (inodeManager w)"
  "pathToInode (inodeManager (snd (read_dircache p w))) = pathToInode (inodeManager w)"
  "pathToInode (inodeManager (write_cached p a w)) = pathToInode (inodeManager w)"
  "pathToInode (inodeManager (write_dircache p es w)) = pathToInode (inodeManager w)"
  "pathToInode (inodeManager (invalidate_dir p w)) = pathToInode (inodeManager w)"
  "inodeManager (snd (on_inodes m w)) = snd (m (inodeManager w))" "fst (on_inodes m w) = fst (m (inodeManager w))"
  by (simp_all add: world_eqs world_defs fillAttr_def numbers_frame Let_def)

lemma parts_new_entry:
  "lockManager (snd (new_entry p mode info out w)) = lockManager w" "unmounting (snd (new_entry p mode info out w)) = unmounting w"
  "pathToInode (inodeManager (snd (new_entry p mode info out w))) =
     fmupd p (ci_Ino (fst (new_entry p mode info out w))) (pathToInode (inodeManager w))"
  "node_path (ci_node (fst (new_entry p mode info out w))) = p"
  by (simp_all add: new_entry_def Let_def case_prod_beta parts_accesses GetInode_numbers)

lemma parts_readdir:
  "lockManager (snd (readdir_loop d infos es w)) = lockManager w" "unmounting (snd (readdir_loop d infos es w)) = unmounting w"
  by (induction infos arbitrary: es w) (simp_all add: Let_def case_prod_beta parts_accesses)

lemma parts_setattr:
  "lockManager (snd (setattr_size f sain w)) = lockManager w" "unmounting (snd (setattr_size f sain w)) = unmounting w"
  "inodeManager (snd (setattr_size f sain w)) = inodeManager w" "handleTracker (snd (setattr_size f sain w)) = handleTracker w"
  "lockManager (snd (setattr_mode n sain w)) = lockManager w" "unmounting (snd (setattr_mode n sain w)) = unmounting w"
  "inodeManager (snd (setattr_mode n sain w)) = inodeManager w" "handleTracker (snd (setattr_mode n sain w)) = handleTracker w"
  "lockManager (setattr_mtime n sain w) = lockManager w" "unmounting (setattr_mtime n sain w) = unmounting w"
  "inodeManager (setattr_mtime n sain w) = inodeManager w" "handleTracker (setattr_mtime n sain w) = handleTracker w"
  "lockManager (snd (seek_start ff off w)) = lockManager w" "unmounting (snd (seek_start ff off w)) = unmounting w"
  "inodeManager (snd (seek_start ff off w)) = inodeManager w" "handleTracker (snd (seek_start ff off w)) = handleTracker w"
  by (simp_all add: setattr_size_def setattr_mode_def setattr_mtime_def seek_start_def parts_accesses frames
      split: option.split fileHandle.split)

lemmas parts = parts_accesses parts_new_entry parts_readdir parts_setattr frames

lemma serve_unmounted: "unmounting (snd (serve r w)) = unmounting w"
  by (cases r) (auto simp: handler_defs Let_def case_prod_beta parts split: option.split sum.split fileHandle.split)

lemma serve_locks: "spec_locks r (fst (serve r w)) (lockManager w) (lockManager (snd (serve r w)))"
  by (cases r) (auto simp: handler_defs Let_def case_prod_beta parts split: option.split sum.split fileHandle.split)

lemma readdir_numbers:
  "set es \<subseteq> set (fst (readdir_loop d infos es w)) \<and>
   only_numbers ((\<lambda>e. path_Join d (de_Name e)) ` set (fst (readdir_loop d infos es w)))
     (fmlookup (pathToInode (inodeManager w))) (fmlookup (pathToInode (inodeManager (snd (readdir_loop d infos es w)))))"
proof (induction infos arbitrary: es w)
  case Nil
  then show ?case by (simp add: only_numbers_refl)
next
  case (Cons info infos)
  let ?p = "path_Join d (fi_Name info)"
  let ?w = "snd (on_inodes (GetInode ?p info) w)"
  let ?es = "es @ [\<lparr>de_Name = fi_Name info, de_Ino = fst (GetInode ?p info (inodeManager w)),
    de_Mode = if fi_IsDir info then S_IFDIR else S_IFREG\<rparr>]"
  have step: "readdir_loop d (info # infos) es w = readdir_loop d infos ?es ?w"
    by (simp add: Let_def case_prod_beta parts_accesses)
  have "only_numbers {?p} (fmlookup (pathToInode (inodeManager w))) (fmlookup (pathToInode (inodeManager ?w)))"
    by (simp add: parts_accesses GetInode_numbers only_numbers_upd)
  from only_numbers_trans [OF this conjunct2 [OF Cons.IH [of ?es ?w]] _ subset_refl] Cons.IH [of ?es ?w]
  show ?case unfolding step by (simp add: image_iff) force
qed

lemma readdir_numbered:
  "pathToInode (inodeManager w) = m \<Longrightarrow>
   only_numbers ((\<lambda>e. path_Join d (de_Name e)) ` set (fst (readdir_loop d infos [] w)))
     (fmlookup m) (fmlookup (pathToInode (inodeManager (snd (readdir_loop d infos [] w)))))"
  using readdir_numbers [of "[]" d infos w] by simp

lemma Getattr_numbers:
  "only_numbers {node_path n} (fmlookup (pathToInode (inodeManager w))) (fmlookup (pathToInode (inodeManager (snd (Getattr n out w)))))"
  by (auto simp: Getattr_def Let_def case_prod_beta parts GetInode_numbers only_numbers_refl intro!: only_numbers_upd
      split: option.split sum.split)

lemma serve_numbers:
  "spec_numbers r (fst (serve r w)) (fmlookup (pathToInode (inodeManager w))) (fmlookup (pathToInode (inodeManager (snd (serve r w)))))"
proof (cases r)
  case (ReqSetattr n f sain out)
  then show ?thesis
    using Getattr_numbers [of n "setattr_mtime n sain (snd (setattr_mode n sain (snd (setattr_size f sain (recordOperation w)))))" out]
    by (auto simp: Setattr_def Let_def case_prod_beta parts only_numbers_refl split: option.split)
next
  case (ReqReaddir n)
  then show ?thesis
    by (auto simp: fuse_Readdir_def convertDirEntries_def Let_def case_prod_beta parts only_numbers_refl
        intro!: readdir_numbered split: option.split sum.split)
next
  case (ReqGetattr n out)
  then show ?thesis by (simp add: Getattr_numbers)
qed (auto simp: handler_defs Let_def case_prod_beta parts split: option.split sum.split fileHandle.split)

text \<open>The table of handles.\<close>

definition handle_map :: "'f HandleTracker \<Rightarrow> uint64 \<Rightarrow> (string \<times> uint64) option" where
  "handle_map ht = (\<lambda>fh. map_option (\<lambda>e. (he_path e, he_flags e)) (fmlookup (handles ht) fh))"

lemma handle_map_Add:
  assumes "ht_inv k ht" and "k < handle_limit"
  shows "handle_map ht (fst (ht_Add f flags p ht)) = None"
    and "handle_map (snd (ht_Add f flags p ht)) = (handle_map ht)(fst (ht_Add f flags p ht) \<mapsto> (p, flags))"
proof -
  have "fmlookup (handles ht) (nextHandle ht + 1) = None"
    using ht_invD [OF assms(1), of "nextHandle ht + 1"] ht_Add_counter [OF assms]
    by (cases "fmlookup (handles ht) (nextHandle ht + 1)") auto
  then show "handle_map ht (fst (ht_Add f flags p ht)) = None"
    "handle_map (snd (ht_Add f flags p ht)) = (handle_map ht)(fst (ht_Add f flags p ht) \<mapsto> (p, flags))"
    by (auto simp: handle_map_def ht_Add_def Let_def)
qed

lemma handle_map_Release:
  assumes "ht_inv k ht"
  shows "handle_map (fst (snd (ht_Release close fh ht b))) = (handle_map ht)(fh := None)"
    and "handle_map ht fh = None \<Longrightarrow> fst (ht_Release close fh ht b) = EBADF"
proof -
  show "handle_map (fst (snd (ht_Release close fh ht b))) = (handle_map ht)(fh := None)"
  proof (cases "fmlookup (handles ht) fh")
    case None
    then show ?thesis by (auto simp: ht_Release_unknown handle_map_def)
  next
    case (Some e)
    then show ?thesis by (auto simp: ht_Release_known [OF assms] handle_map_def case_prod_beta)
  qed
  show "handle_map ht fh = None \<Longrightarrow> fst (ht_Release close fh ht b) = EBADF"
    by (simp add: handle_map_def ht_Release_unknown)
qed

lemma handles_Getattr: "handleTracker (snd (Getattr n out w)) = handleTracker w"
  by (simp add: Getattr_def Let_def case_prod_beta parts split: option.split sum.split)

lemma serve_handles:
  assumes "ht_inv k (handleTracker w)" and "k < handle_limit"
  shows "spec_handles r (fst (serve r w)) (handle_map (handleTracker w)) (handle_map (handleTracker (snd (serve r w))))"
proof (cases r)
  case (ReqOpen n flags)
  then show ?thesis
    using handle_map_Add [OF assms]
    by (auto simp: fuse_Open_def Let_def parts case_prod_beta split: sum.split)
next
  case (ReqCreate n name flags mode out)
  then show ?thesis
    using handle_map_Add [OF assms]
    by (auto simp: Create_def Let_def parts case_prod_beta split: sum.split)
next
  case (ReqRelease fh)
  then show ?thesis
    using handle_map_Release [OF assms(1)] by (auto simp: fuse_Release_def Let_def case_prod_beta)
next
  case (ReqSetattr n f sain out)
  then show ?thesis
    by (auto simp: Setattr_def Let_def case_prod_beta parts handles_Getattr split: option.split)
qed (auto simp: handler_defs Let_def case_prod_beta parts split: option.split sum.split fileHandle.split)

lemma spec_of_parts:
  "open_handles (spec_of w) = handle_map (handleTracker w)" "path_numbers (spec_of w) = fmlookup (pathToInode (inodeManager w))"
  "all_locks (spec_of w) = lockManager w" "is_unmounted (spec_of w) = unmounting w"
  by (simp_all add: spec_of_def handle_map_def)

lemma serve_spec:
  assumes "ht_inv k (handleTracker w)" and "k < handle_limit"
  shows "spec_event (Serve r) (fst (serve r w)) (spec_of w) (spec_of (snd (serve r w)))"
proof -
  have "spec_of (recordOperation w) = spec_of w" by (simp add: spec_of_def)
  then show ?thesis
    using serve_unmounting [of w r]
    by (simp add: spec_of_parts serve_handles [OF assms] serve_locks serve_numbers serve_unmounted)
qed

lemma Unmount_spec:
  assumes "fset (fmdom (handles (handleTracker w))) \<subseteq> set order"
  shows "spec_event (Shutdown order) resp (spec_of w) (spec_of (fst (snd (Unmount os order w h))))"
  by (simp add: spec_of_def Unmount_def Let_def case_prod_beta CloseAll_empties [OF assms] im_Clear_def fun_eq_iff)

text \<open>C2: a session refines its specification. Every event of a session, whatever came before it, is an event of the
  specification on the abstract states: the answers and the changes of handles, numbers, locks and the unmounted flag
  are those it prescribes, and a session starts in its start state. (For \<^verbatim>\<open>Unmount\<close>, ranging over the handle
  table meets every handle.)\<close>

theorem session_refines_spec:
  assumes "session os p fs mo n (w, N, h)" and "dir_bound D fs" and "n * (D + 3) \<le> inode_limit"
  shows "(n = 0 \<longrightarrow> spec_of w = spec_start) \<and>
    (\<forall>r. spec_event (Serve r) (fst (serve r w)) (spec_of w) (spec_of (snd (serve r w)))) \<and>
    (\<forall>order. fset (fmdom (handles (handleTracker w))) \<subseteq> set order \<longrightarrow>
      (\<forall>resp. spec_event (Shutdown order) resp (spec_of w) (spec_of (fst (snd (Unmount os order w h))))))"
proof -
  obtain k where "ht_inv k (handleTracker w)" "k < handle_limit" using session_ht_inv [OF assms] by blast
  moreover have "spec_of w = spec_start" if "n = 0"
    using assms(1) unfolding that
    by (cases rule: session.cases)
      (auto elim!: Mount_OK simp: spec_of_def spec_start_def newFuseFS_def NewHandleTracker_def NewInodeManager_def fun_eq_iff)
  ultimately show ?thesis by (simp add: serve_spec Unmount_spec del: spec_event.simps)
qed

lemma session_refines_spec_witness:
  "spec_event (Serve (ReqOpen root_node 0)) (fst (serve (ReqOpen root_node 0) mem_world)) spec_start
     (spec_of (mem_after (ReqOpen root_node 0)))"
  using session_refines_spec [OF mem_session mem_dir_bound] unfolding mem_after_def by (metis mult_0 zero_le)

end
