(* ===== verification/Mutexes.thy ===== *)
theory Mutexes
  imports Fuse_State
begin

text \<open>
  The mutexes. The other theories take a method of a manager as one atomic step; here is why they may: every
  method holds its manager's mutex throughout, and the mutexes do not deadlock. For each method
  \<open>call_locks\<close> lists the operations on mutexes it makes, in order, as the code's branches decide;
  goroutines that make any such calls run interleaved, with \<^verbatim>\<open>sync.RWMutex\<close> as its documentation
  describes it: a writer excludes everyone, and once a writer waits no new reader gets in.
  Handlers hold no mutex between two calls. What the backend does inside \<^verbatim>\<open>Close\<close> is outside the model.
\<close>

section \<open>What each method locks\<close>

datatype mutex = PathMu | AttrCacheMu | DirCacheMu | MetaMu | HandlesMu | LocksMu

datatype mutex_op = Lock mutex | Unlock mutex | RLock mutex | RUnlock mutex

definition storeMeta_locks :: "mutex_op list" where
  "storeMeta_locks = [Lock MetaMu, Unlock MetaMu]"

definition GetInode_locks :: "string \<Rightarrow> FileInfo \<Rightarrow> InodeManager \<Rightarrow> mutex_op list" where
  "GetInode_locks path info im =
     [Lock PathMu] @
     (case fmlookup (pathToInode im) path of
        Some ino \<Rightarrow>
          [RLock MetaMu, RUnlock MetaMu] @
          (if isSameFile ino info im then [] else [Lock MetaMu, Unlock MetaMu] @ storeMeta_locks)
      | None \<Rightarrow> storeMeta_locks) @
     [Unlock PathMu]"

definition Clear_locks :: "mutex_op list" where
  "Clear_locks =
     [Lock PathMu, Lock AttrCacheMu, Unlock AttrCacheMu, Lock DirCacheMu, Unlock DirCacheMu,
      Lock MetaMu, Unlock MetaMu, Unlock PathMu]"

definition InodeStats_locks :: "mutex_op list" where
  "InodeStats_locks =
     [RLock PathMu, RUnlock PathMu, RLock AttrCacheMu, RUnlock AttrCacheMu, RLock DirCacheMu, RUnlock DirCacheMu]"

fun inode_locks :: "inode_op \<Rightarrow> InodeManager \<Rightarrow> mutex_op list" where
  "inode_locks (OpGetInode path info) im = GetInode_locks path info im"
| "inode_locks (OpGetCached now path) im = [Lock AttrCacheMu, Unlock AttrCacheMu]"
| "inode_locks (OpCache now1 now2 path attr) im = [Lock AttrCacheMu, Unlock AttrCacheMu]"
| "inode_locks (OpCacheDir now1 now2 path es) im = [Lock DirCacheMu, Unlock DirCacheMu]"
| "inode_locks (OpGetDirCache now path) im = [Lock DirCacheMu, Unlock DirCacheMu]"
| "inode_locks (OpInvalidateDir path) im = [Lock DirCacheMu, Unlock DirCacheMu]"
| "inode_locks (OpInvalidateAttr path) im = [Lock AttrCacheMu, Unlock AttrCacheMu]"
| "inode_locks OpInodeClear im = Clear_locks"

fun lock_locks :: "lock_op \<Rightarrow> mutex_op list" where
  "lock_locks (OpGetlk path owner lk) = [RLock LocksMu, RUnlock LocksMu]"
| "lock_locks _ = [Lock LocksMu, Unlock LocksMu]"

text \<open>A call, with the state of the inode manager when it runs. \<^verbatim>\<open>Add\<close>, \<^verbatim>\<open>Release\<close> and \<^verbatim>\<open>CloseAll\<close> write the handle
  table, \<^verbatim>\<open>Get\<close>, \<^verbatim>\<open>GetEntry\<close> and \<^verbatim>\<open>Count\<close> read it.\<close>

datatype 'f manager_call =
    OnInodes inode_op InodeManager
  | InodeStats
  | OnHandles "'f handle_op"
  | ReadHandles
  | OnLocks lock_op

fun call_locks :: "'f manager_call \<Rightarrow> mutex_op list" where
  "call_locks (OnInodes iop im) = inode_locks iop im"
| "call_locks InodeStats = InodeStats_locks"
| "call_locks (OnHandles hop) = [Lock HandlesMu, Unlock HandlesMu]"
| "call_locks ReadHandles = [RLock HandlesMu, RUnlock HandlesMu]"
| "call_locks (OnLocks lop) = lock_locks lop"

section \<open>Goroutines\<close>

text \<open>\<open>owned\<close> are the mutexes held for writing, \<open>reading\<close> those held for reading, \<open>pending\<close> the one whose \<^verbatim>\<open>Lock\<close> waits
  for its readers to leave.\<close>

record goroutine =
  owned :: "mutex set"
  reading :: "mutex set"
  pending :: "mutex option"
  todo :: "mutex_op list"

definition claims :: "mutex \<Rightarrow> goroutine \<Rightarrow> bool" where
  "claims m g \<longleftrightarrow> m \<in> owned g \<or> pending g = Some m"

inductive mutex_step :: "goroutine list \<Rightarrow> goroutine list \<Rightarrow> bool" where
  announce: "i < length gs \<Longrightarrow> todo (gs ! i) = Lock m # ops \<Longrightarrow> pending (gs ! i) = None \<Longrightarrow>
    \<forall>g \<in> set gs. \<not> claims m g \<Longrightarrow> mutex_step gs (gs[i := (gs ! i)\<lparr>pending := Some m\<rparr>])"
| acquire: "i < length gs \<Longrightarrow> todo (gs ! i) = Lock m # ops \<Longrightarrow> pending (gs ! i) = Some m \<Longrightarrow>
    \<forall>g \<in> set gs. m \<notin> reading g \<Longrightarrow>
    mutex_step gs (gs[i := (gs ! i)\<lparr>pending := None, owned := insert m (owned (gs ! i)), todo := ops\<rparr>])"
| release: "i < length gs \<Longrightarrow> todo (gs ! i) = Unlock m # ops \<Longrightarrow> m \<in> owned (gs ! i) \<Longrightarrow>
    mutex_step gs (gs[i := (gs ! i)\<lparr>owned := owned (gs ! i) - {m}, todo := ops\<rparr>])"
| read_acquire: "i < length gs \<Longrightarrow> todo (gs ! i) = RLock m # ops \<Longrightarrow> \<forall>g \<in> set gs. \<not> claims m g \<Longrightarrow>
    mutex_step gs (gs[i := (gs ! i)\<lparr>reading := insert m (reading (gs ! i)), todo := ops\<rparr>])"
| read_release: "i < length gs \<Longrightarrow> todo (gs ! i) = RUnlock m # ops \<Longrightarrow> m \<in> reading (gs ! i) \<Longrightarrow>
    mutex_step gs (gs[i := (gs ! i)\<lparr>reading := reading (gs ! i) - {m}, todo := ops\<rparr>])"

definition making :: "'f manager_call list \<Rightarrow> goroutine" where
  "making calls = \<lparr>owned = {}, reading = {}, pending = None, todo = concat (map call_locks calls)\<rparr>"

section \<open>The discipline\<close>

text \<open>Mutexes are taken in a fixed order, and a method ends holding none.\<close>

fun rank :: "mutex \<Rightarrow> nat" where
  "rank PathMu = 0"
| "rank AttrCacheMu = 1"
| "rank DirCacheMu = 2"
| "rank MetaMu = 3"
| "rank HandlesMu = 4"
| "rank LocksMu = 5"

fun disciplined :: "mutex set \<Rightarrow> mutex set \<Rightarrow> mutex_op list \<Rightarrow> bool" where
  "disciplined W R [] \<longleftrightarrow> W = {} \<and> R = {}"
| "disciplined W R (Lock m # ops) \<longleftrightarrow> (\<forall>x \<in> W \<union> R. rank x < rank m) \<and> disciplined (insert m W) R ops"
| "disciplined W R (Unlock m # ops) \<longleftrightarrow> m \<in> W \<and> disciplined (W - {m}) R ops"
| "disciplined W R (RLock m # ops) \<longleftrightarrow> (\<forall>x \<in> W \<union> R. rank x < rank m) \<and> disciplined W (insert m R) ops"
| "disciplined W R (RUnlock m # ops) \<longleftrightarrow> m \<in> R \<and> disciplined W (R - {m}) ops"

lemma disciplined_append: "disciplined W R ops \<Longrightarrow> disciplined {} {} ops' \<Longrightarrow> disciplined W R (ops @ ops')"
  by (induction W R ops rule: disciplined.induct) simp_all

lemma call_disciplined: "disciplined {} {} (call_locks c)"
proof -
  have "disciplined {} {} (inode_locks iop im)" for iop im
    by (cases iop) (auto simp: GetInode_locks_def storeMeta_locks_def Clear_locks_def insert_Diff_if split: option.split)
  moreover have "disciplined {} {} (lock_locks lop)" for lop
    by (cases lop) simp_all
  ultimately show ?thesis
    by (cases c) (simp_all add: InodeStats_locks_def)
qed

definition well_behaved :: "goroutine \<Rightarrow> bool" where
  "well_behaved g \<longleftrightarrow> disciplined (owned g) (reading g) (todo g) \<and>
     (\<forall>m. pending g = Some m \<longrightarrow> (\<exists>ops. todo g = Lock m # ops))"

lemma making_well_behaved: "well_behaved (making calls)"
  by (induction calls) (simp_all add: well_behaved_def making_def disciplined_append call_disciplined)

lemma ball_update: "\<forall>g \<in> set gs. P g \<Longrightarrow> P x \<Longrightarrow> \<forall>g \<in> set (gs[i := x]). P g"
  using set_update_subset_insert [of gs i x] by auto

lemma well_behaved_nth: "\<forall>g \<in> set gs. well_behaved g \<Longrightarrow> i < length gs \<Longrightarrow> todo (gs ! i) = op # ops \<Longrightarrow>
    disciplined (owned (gs ! i)) (reading (gs ! i)) (op # ops) \<and> (\<forall>m. pending (gs ! i) = Some m \<longrightarrow> op = Lock m)"
  by (fastforce simp: well_behaved_def dest: nth_mem)

lemma step_well_behaved:
  assumes "mutex_step gs gs'" and ok: "\<forall>g \<in> set gs. well_behaved g"
  shows "\<forall>g \<in> set gs'. well_behaved g"
  using assms(1)
proof cases
  case (announce i m ops)
  show ?thesis unfolding announce(1)
    by (rule ball_update [OF ok]) (use well_behaved_nth [OF ok announce(2,3)] announce in \<open>simp add: well_behaved_def\<close>)
next
  case (acquire i m ops)
  show ?thesis unfolding acquire(1)
    by (rule ball_update [OF ok]) (use well_behaved_nth [OF ok acquire(2,3)] in \<open>simp add: well_behaved_def\<close>)
next
  case (release i m ops)
  show ?thesis unfolding release(1)
    by (rule ball_update [OF ok]) (use well_behaved_nth [OF ok release(2,3)] in \<open>auto simp: well_behaved_def\<close>)
next
  case (read_acquire i m ops)
  show ?thesis unfolding read_acquire(1)
    by (rule ball_update [OF ok]) (use well_behaved_nth [OF ok read_acquire(2,3)] in \<open>auto simp: well_behaved_def\<close>)
next
  case (read_release i m ops)
  show ?thesis unfolding read_release(1)
    by (rule ball_update [OF ok]) (use well_behaved_nth [OF ok read_release(2,3)] in \<open>auto simp: well_behaved_def\<close>)
qed

section \<open>No deadlock\<close>

text \<open>What a goroutine that is not finished waits for, if anything.\<close>

definition wants :: "goroutine \<Rightarrow> mutex option" where
  "wants g = (case todo g of Lock m # _ \<Rightarrow> Some m | RLock m # _ \<Rightarrow> Some m | _ \<Rightarrow> None)"

lemma holds_lower:
  assumes "well_behaved g" and "x \<in> owned g \<union> reading g"
  shows "todo g \<noteq> []" and "wants g = Some m \<Longrightarrow> rank x < rank m"
  using assms by (cases "todo g"; auto simp: well_behaved_def wants_def split: mutex_op.splits list.splits)+

lemma stuck_wants:
  assumes ok: "\<forall>g \<in> set gs. well_behaved g" and stuck: "\<nexists>gs'. mutex_step gs gs'"
    and i: "i < length gs" "todo (gs ! i) \<noteq> []"
  shows "\<exists>m. wants (gs ! i) = Some m \<and> ((\<exists>g \<in> set gs. claims m g \<and> pending (gs ! i) = None) \<or>
    (\<exists>g \<in> set gs. m \<in> reading g))"
proof -
  obtain op ops where t: "todo (gs ! i) = op # ops" using i(2) by (cases "todo (gs ! i)") auto
  note d = well_behaved_nth [OF ok i(1) t]
  show ?thesis
  proof (cases op)
    case (Lock m)
    show ?thesis
    proof (cases "pending (gs ! i)")
      case None
      with announce [OF i(1) t [unfolded Lock]] stuck have "\<exists>g \<in> set gs. claims m g" by blast
      with None Lock t show ?thesis by (auto simp: wants_def)
    next
      case (Some x)
      with d Lock have "x = m" by simp
      with Some acquire [OF i(1) t [unfolded Lock]] stuck have "\<exists>g \<in> set gs. m \<in> reading g" by blast
      with Lock t show ?thesis by (auto simp: wants_def)
    qed
  next
    case (RLock m)
    with read_acquire [OF i(1) t [unfolded RLock]] stuck have "\<exists>g \<in> set gs. claims m g" by blast
    moreover have "pending (gs ! i) = None" using d RLock by (cases "pending (gs ! i)") auto
    ultimately show ?thesis using RLock t by (auto simp: wants_def)
  next
    case (Unlock m)
    with d release [OF i(1) t [unfolded Unlock]] stuck show ?thesis by simp
  next
    case (RUnlock m)
    with d read_release [OF i(1) t [unfolded RUnlock]] stuck show ?thesis by simp
  qed
qed

lemma no_wait_upwards:
  assumes ok: "\<forall>g \<in> set gs. well_behaved g" and stuck: "\<nexists>gs'. mutex_step gs gs'"
    and g: "g \<in> set gs" "x \<in> owned g \<union> reading g"
  shows "\<exists>h \<in> set gs. \<exists>m. wants h = Some m \<and> rank x < rank m"
proof -
  obtain i where i: "i < length gs" "g = gs ! i" using g(1) by (auto simp: in_set_conv_nth)
  have wb: "well_behaved g" using ok g(1) by simp
  from stuck_wants [OF ok stuck i(1)] holds_lower [OF wb g(2)] i(2) g(1) show ?thesis by blast
qed

lemma rank_le: "rank m \<le> 5"
  by (cases m) simp_all

lemma stuck_finished:
  assumes ok: "\<forall>g \<in> set gs. well_behaved g" and stuck: "\<nexists>gs'. mutex_step gs gs'" and g: "g \<in> set gs"
  shows "todo g = []"
proof (rule ccontr)
  assume "todo g \<noteq> []"
  let ?M = "{rank m | m. \<exists>h \<in> set gs. wants h = Some m}"
  obtain i where i: "i < length gs" "g = gs ! i" using g by (auto simp: in_set_conv_nth)
  with stuck_wants [OF ok stuck i(1)] \<open>todo g \<noteq> []\<close> g have ne: "?M \<noteq> {}" by blast
  have "?M \<subseteq> {..5}" by (auto simp: rank_le)
  then have "finite ?M" using finite_subset by blast
  from Max_in [OF this ne] obtain m h where m: "h \<in> set gs" "wants h = Some m" "rank m = Max ?M" by auto
  have top: "\<not> rank m < rank x" if "k \<in> set gs" "wants k = Some x" for k x
    using that Max_ge [OF \<open>finite ?M\<close>, of "rank x"] m(3) by force
  have held: False if "k \<in> set gs" "m \<in> owned k \<union> reading k" for k
    using no_wait_upwards [OF ok stuck that] top by blast
  obtain j where j: "j < length gs" "h = gs ! j" using m(1) by (auto simp: in_set_conv_nth)
  have "todo h \<noteq> []" using m(2) by (auto simp: wants_def)
  with stuck_wants [OF ok stuck j(1)] j(2) m(2) held obtain k where k: "k \<in> set gs" "claims m k" by auto
  with held have p: "pending k = Some m" by (auto simp: claims_def)
  obtain l where l: "l < length gs" "k = gs ! l" using k(1) by (auto simp: in_set_conv_nth)
  have "well_behaved k" using ok k(1) by simp
  with p have t: "todo k \<noteq> []" "wants k = Some m" by (auto simp: well_behaved_def wants_def)
  from stuck_wants [OF ok stuck l(1)] l(2) t p held show False by auto
qed

text \<open>Every step takes something off: an operation, or the announcement before a \<^verbatim>\<open>Lock\<close>.\<close>

definition work_left :: "goroutine \<Rightarrow> nat" where
  "work_left g = 2 * length (todo g) - of_bool (pending g \<noteq> None)"

definition work :: "goroutine list \<Rightarrow> nat" where
  "work gs = sum_list (map work_left gs)"

lemma work_update: "i < length gs \<Longrightarrow> work_left x < work_left (gs ! i) \<Longrightarrow> work (gs[i := x]) < work gs"
  using member_le_sum_list [of "work_left (gs ! i)" "map work_left gs"]
  by (simp add: work_def map_update sum_list_update)

lemma step_work:
  assumes "mutex_step gs gs'" and ok: "\<forall>g \<in> set gs. well_behaved g"
  shows "work gs' < work gs"
  using assms(1)
proof cases
  case (announce i m ops)
  then show ?thesis by (auto intro!: work_update simp: work_left_def)
next
  case (acquire i m ops)
  then show ?thesis by (auto intro!: work_update simp: work_left_def)
next
  case (release i m ops)
  then show ?thesis using well_behaved_nth [OF ok release(2,3)] by (auto intro!: work_update simp: work_left_def)
next
  case (read_acquire i m ops)
  then show ?thesis using well_behaved_nth [OF ok read_acquire(2,3)] by (auto intro!: work_update simp: work_left_def)
next
  case (read_release i m ops)
  then show ?thesis using well_behaved_nth [OF ok read_release(2,3)] by (auto intro!: work_update simp: work_left_def)
qed

lemma run_work:
  "(mutex_step ^^ k) gs0 gs \<Longrightarrow> \<forall>g \<in> set gs0. well_behaved g \<Longrightarrow> (\<forall>g \<in> set gs. well_behaved g) \<and> work gs + k \<le> work gs0"
proof (induction k arbitrary: gs)
  case (Suc k)
  then obtain gs1 where gs1: "(mutex_step ^^ k) gs0 gs1" and st: "mutex_step gs1 gs" by auto
  with Suc have ok: "\<forall>g \<in> set gs1. well_behaved g" and "work gs1 + k \<le> work gs0" by simp_all
  with step_work [OF st ok] step_well_behaved [OF st ok] show ?case by simp
qed simp

lemma finished_holds_nothing:
  "well_behaved g \<Longrightarrow> todo g = [] \<Longrightarrow> owned g = {} \<and> reading g = {} \<and> pending g = None"
  by (cases "pending g") (auto simp: well_behaved_def)

text \<open>C12: the managers never deadlock. Let any number of goroutines call methods of the inode manager, its caches, the
  handle tracker and the lock manager, any number each and in any order. In every state that interleaving
  their mutex operations can reach, some goroutine can go on, or all have returned from all their
  calls and every mutex is free; and a run has at most two steps for each mutex operation of the calls.\<close>

theorem managers_never_deadlock:
  assumes "(mutex_step ^^ k) (map making callss) gs"
  shows "((\<exists>gs'. mutex_step gs gs') \<or>
      (\<forall>g \<in> set gs. todo g = [] \<and> owned g = {} \<and> reading g = {} \<and> pending g = None)) \<and>
    k \<le> 2 * length (concat (map call_locks (concat callss)))"
proof -
  have start: "\<forall>g \<in> set (map making callss). well_behaved g" by (auto simp: making_well_behaved)
  have "work (map making callss) = 2 * length (concat (map call_locks (concat callss)))"
    by (induction callss) (simp_all add: work_def work_left_def making_def)
  moreover have ok: "\<forall>g \<in> set gs. well_behaved g" and "work gs + k \<le> work (map making callss)"
    using run_work [OF assms start] by auto
  ultimately have "k \<le> 2 * length (concat (map call_locks (concat callss)))" by linarith
  moreover have "todo g = [] \<and> owned g = {} \<and> reading g = {} \<and> pending g = None"
    if "\<nexists>gs'. mutex_step gs gs'" "g \<in> set gs" for g
    using stuck_finished [OF ok that] finished_holds_nothing [of g] ok that(2) by blast
  ultimately show ?thesis by blast
qed

text \<open>Two goroutines: an \<^verbatim>\<open>Unmount\<close> clearing the inode manager, and a look-up numbering a path.\<close>

definition two_calls :: "nat manager_call list list" where
  "two_calls = [[OnInodes OpInodeClear (NewInodeManager 1 1 0 0)],
     [OnInodes (OpGetInode ''/a'' \<lparr>fi_Name = ''a'', fi_Size = 0, fi_Mode = 0, fi_ModTime = 0, fi_IsDir = False, fi_Sys = None\<rparr>)
        (NewInodeManager 1 1 0 0)]]"

lemma managers_never_deadlock_witness: "\<exists>gs'. mutex_step (map making two_calls) gs'"
proof -
  have "(mutex_step ^^ 0) (map making two_calls) (map making two_calls)" by simp
  from managers_never_deadlock [OF this] show ?thesis
    by (auto simp: two_calls_def making_def Clear_locks_def)
qed

end
